theory Spec2Isabelle
  imports Complex_Main
begin

section \<open>Values of the program\<close>

text \<open>
  The generation engine of tone-factory is TypeScript. Its numbers are modelled exactly:
  MIDI numbers, octaves and array indices as \<open>int\<close>, beats, seconds and velocities as
  \<open>real\<close> (no floating-point rounding). A pitch is a note name such as \<open>''C4''\<close>; the
  program also passes around values that are no string (\<open>undefined\<close> from an array read
  out of range, \<open>NaN\<close> from the pitch library), and every consumer of a pitch treats all
  of them alike, so a pitch is a \<open>string option\<close> with \<open>None\<close> for "not a string".
  A \<open>string\<close> is a list of 8-bit characters: the strings of the model are those whose
  code units lie below 256.

  A \<open>TypeError\<close> raised by the program is a value: a function that can raise returns
  \<open>Inl TypeError\<close> where it raises and \<open>Inr\<close> of its result where it returns.
\<close>

datatype error = TypeError

type_synonym pitch = "string option"

text \<open>\<open>xs[i]\<close> of JavaScript: \<open>undefined\<close> outside the array.\<close>

definition js_at :: "pitch list \<Rightarrow> int \<Rightarrow> pitch" where
  "js_at xs i = (if 0 \<le> i \<and> i < int (length xs) then xs ! nat i else None)"

text \<open>\<open>a % b\<close> on integers: the remainder has the sign of the dividend.\<close>

definition js_rem :: "int \<Rightarrow> int \<Rightarrow> int" where
  "js_rem a b = (if 0 \<le> a then a mod b else - ((- a) mod b))"

text \<open>\<open>xs.indexOf(x)\<close>: the first index holding \<open>x\<close>, or \<open>-1\<close>.\<close>

fun indexOf :: "'a list \<Rightarrow> 'a \<Rightarrow> int" where
  "indexOf [] x = -1"
| "indexOf (y # ys) x = (if y = x then 0 else (let i = indexOf ys x in if i < 0 then -1 else i + 1))"

text \<open>Decimal digits of a number, as \<open>String(n)\<close> prints an integer.\<close>

fun digits :: "nat \<Rightarrow> string" where
  "digits n = (if n < 10 then [''0123456789'' ! n]
               else digits (n div 10) @ [''0123456789'' ! (n mod 10)])"

declare digits.simps [simp del]

definition show_int :: "int \<Rightarrow> string" where
  "show_int i = (if i < 0 then CHR ''-'' # digits (nat (- i)) else digits (nat i))"

section \<open>The pitch library\<close>

text \<open>
  \<open>scales.ts\<close> imports \<open>Note\<close> from the third-party package \<open>tonal\<close> and calls
  \<open>Note.midi\<close> and \<open>Note.fromMidi\<close>. The package is no part of the repository; the two
  functions are written here as the package defines them.

  \<open>Note.midi(name)\<close> matches the name against
  \<^verbatim>\<open>^([a-gA-G]?)(#{1,}|b{1,}|x{1,}|)(-?\d*)\s*(.*)$\<close>: a letter, a run of one kind of
  accidental, an octave, white space, and a rest that must be empty. The note's height is
  \<open>SEMI[step] + alt + 12 * (oct + 1)\<close>, and its MIDI number is the height when that lies
  in \<open>0..127\<close> and \<open>null\<close> otherwise (also when there is no octave).
\<close>

definition isLetter :: "char \<Rightarrow> bool" where
  "isLetter c = (c \<in> set ''abcdefgABCDEFG'')"

definition isDigit :: "char \<Rightarrow> bool" where
  "isDigit c = (c \<in> set ''0123456789'')"

text \<open>The class \<^verbatim>\<open>\s\<close>: of the code units below 256, the tab, the line feed, the
  vertical tab, the form feed, the carriage return, the space and the no-break space.\<close>

definition isSpace :: "char \<Rightarrow> bool" where
  "isSpace c = (c \<in> set [CHR 0x09, CHR 0x0A, CHR 0x0B, CHR 0x0C, CHR 0x0D, CHR 0x20, CHR 0xA0])"

definition toUpperCase :: "char \<Rightarrow> char" where
  "toUpperCase c = (if c = CHR ''a'' then CHR ''A'' else if c = CHR ''b'' then CHR ''B''
     else if c = CHR ''c'' then CHR ''C'' else if c = CHR ''d'' then CHR ''D''
     else if c = CHR ''e'' then CHR ''E'' else if c = CHR ''f'' then CHR ''F''
     else if c = CHR ''g'' then CHR ''G'' else c)"

definition digitVal :: "char \<Rightarrow> nat" where
  "digitVal c = nat (indexOf ''0123456789'' c)"

text \<open>The four groups of the match: letter (upper case), accidentals (\<open>x\<close> rewritten to
  \<open>##\<close>), octave text, rest.\<close>

definition tokenizeNote :: "string \<Rightarrow> string \<times> string \<times> string \<times> string" where
  "tokenizeNote str =
    (let letter = (case str of [] \<Rightarrow> [] | c # _ \<Rightarrow> if isLetter c then [toUpperCase c] else []);
         s1 = drop (length letter) str;
         acc = (case s1 of [] \<Rightarrow> []
                | c # _ \<Rightarrow> if c \<in> set ''#bx'' then takeWhile (\<lambda>d. d = c) s1 else []);
         s2 = drop (length acc) s1;
         sign = (case s2 of [] \<Rightarrow> [] | c # _ \<Rightarrow> if c = CHR ''-'' then [c] else []);
         s3 = drop (length sign) s2;
         ds = takeWhile isDigit s3;
         rest = dropWhile isSpace (drop (length ds) s3)
     in (letter, concat (map (\<lambda>c. if c = CHR ''x'' then ''##'' else [c]) acc), sign @ ds, rest))"

definition accToAlt :: "string \<Rightarrow> int" where
  "accToAlt acc = (case acc of [] \<Rightarrow> 0
     | c # _ \<Rightarrow> if c = CHR ''b'' then - int (length acc) else int (length acc))"

text \<open>\<open>+octStr\<close>: the octave as a number; \<open>None\<close> for the empty text (no octave) and
  for a lone minus sign (\<open>NaN\<close>), which both end in the MIDI number \<open>null\<close>.\<close>

definition octaveNumber :: "string \<Rightarrow> int option" where
  "octaveNumber s = (case s of [] \<Rightarrow> None
     | c # ds \<Rightarrow> if c = CHR ''-''
         then (if ds = [] then None else Some (- int (foldl (\<lambda>n d. 10 * n + digitVal d) 0 ds)))
         else Some (int (foldl (\<lambda>n d. 10 * n + digitVal d) 0 s)))"

definition SEMI :: "int list" where
  "SEMI = [0, 2, 4, 5, 7, 9, 11]"

definition tonal_midi :: "pitch \<Rightarrow> int option" where
  "tonal_midi p = (case p of None \<Rightarrow> None
     | Some str \<Rightarrow>
        (case tokenizeNote str of (letter, acc, octStr, rest) \<Rightarrow>
           if letter = [] \<or> rest \<noteq> [] then None
           else (case octaveNumber octStr of None \<Rightarrow> None
                 | Some oct \<Rightarrow>
                    (let step = (of_char (hd letter) + 3) mod 7;
                         height = SEMI ! step + accToAlt acc + 12 * (oct + 1)
                     in if 0 \<le> height \<and> height \<le> 127 then Some height else None))))"

text \<open>
  \<open>Note.fromMidi(midi)\<close> is \<open>FLATS[midi % 12] + (Math.floor(midi / 12) - 1)\<close>. It
  spells with flats and has no range check. For a negative number that is no multiple of
  12 the table read is \<open>undefined\<close> and the sum is the number \<open>NaN\<close>. It never returns
  \<open>null\<close> or \<open>undefined\<close>.
\<close>

datatype jsval = JNull | JNaN | JStr string

definition FLATS :: "string list" where
  "FLATS = [''C'', ''Db'', ''D'', ''Eb'', ''E'', ''F'', ''Gb'', ''G'', ''Ab'', ''A'', ''Bb'', ''B'']"

definition tonal_fromMidi :: "int \<Rightarrow> jsval" where
  "tonal_fromMidi midi =
     (let r = js_rem midi 12; oct = midi div 12 - 1
      in if r < 0 then JNaN else JStr (FLATS ! nat r @ show_int oct))"

section \<open>Theory tables and conversion (scales.ts)\<close>

record ScaleDefinition =
  name :: string
  intervals :: "int list"
  chordTones :: "int list"

text \<open>
  \<open>SCALE_DEFINITIONS\<close> is an object literal, and the program reads it with
  \<open>SCALE_DEFINITIONS[scaleName]\<close> for an arbitrary string. Such a read finds one of the
  nine entries (\<open>Own\<close>), or a member that every object inherits from
  \<open>Object.prototype\<close> (\<open>Inherited\<close>: a function, or for \<open>__proto__\<close> the prototype
  itself; it counts as true in a condition and has no \<open>intervals\<close> and no
  \<open>chordTones\<close>), or nothing (\<open>Absent\<close>, the value \<open>undefined\<close>).
\<close>

datatype 'a property = Absent | Inherited | Own 'a

type_synonym scale_table = "string \<Rightarrow> ScaleDefinition property"

definition Object_prototype :: "string list" where
  "Object_prototype =
    [''constructor'', ''__defineGetter__'', ''__defineSetter__'', ''hasOwnProperty'',
     ''__lookupGetter__'', ''__lookupSetter__'', ''isPrototypeOf'', ''propertyIsEnumerable'',
     ''toString'', ''valueOf'', ''__proto__'', ''toLocaleString'']"

definition SCALE_ENTRIES :: "(string \<times> ScaleDefinition) list" where
  "SCALE_ENTRIES =
    [(''major'', \<lparr>name = ''Major'', intervals = [0, 2, 4, 5, 7, 9, 11], chordTones = [1, 3, 5, 7]\<rparr>),
     (''minor'', \<lparr>name = ''Natural Minor'', intervals = [0, 2, 3, 5, 7, 8, 10], chordTones = [1, 3, 5, 7]\<rparr>),
     (''pentatonic-major'', \<lparr>name = ''Major Pentatonic'', intervals = [0, 2, 4, 7, 9], chordTones = [1, 3, 5]\<rparr>),
     (''pentatonic-minor'', \<lparr>name = ''Minor Pentatonic'', intervals = [0, 3, 5, 7, 10], chordTones = [1, 3, 5]\<rparr>),
     (''blues'', \<lparr>name = ''Blues'', intervals = [0, 3, 5, 6, 7, 10], chordTones = [1, 4, 5]\<rparr>),
     (''dorian'', \<lparr>name = ''Dorian'', intervals = [0, 2, 3, 5, 7, 9, 10], chordTones = [1, 3, 5, 7]\<rparr>),
     (''mixolydian'', \<lparr>name = ''Mixolydian'', intervals = [0, 2, 4, 5, 7, 9, 10], chordTones = [1, 3, 5, 7]\<rparr>),
     (''phrygian'', \<lparr>name = ''Phrygian'', intervals = [0, 1, 3, 5, 7, 8, 10], chordTones = [1, 3, 5, 7]\<rparr>),
     (''lydian'', \<lparr>name = ''Lydian'', intervals = [0, 2, 4, 6, 7, 9, 11], chordTones = [1, 3, 5, 7]\<rparr>)]"

definition SCALE_DEFINITIONS :: scale_table where
  "SCALE_DEFINITIONS scaleName =
     (case map_of SCALE_ENTRIES scaleName of
        Some definition \<Rightarrow> Own definition
      | None \<Rightarrow> if scaleName \<in> set Object_prototype then Inherited else Absent)"

definition KEYS :: "string list" where
  "KEYS = [''C'', ''C#'', ''D'', ''D#'', ''E'', ''F'', ''F#'', ''G'', ''G#'', ''A'', ''A#'', ''B'']"

text \<open>\<open>midi ?? 60\<close>: middle C when the library gives \<open>null\<close>.\<close>

definition noteToMidi :: "pitch \<Rightarrow> int" where
  "noteToMidi note = (case tonal_midi note of None \<Rightarrow> 60 | Some midi \<Rightarrow> midi)"

text \<open>\<open>TonalNote.fromMidi(midi) ?? 'C4'\<close>: the right-hand side is taken for \<open>null\<close> and
  \<open>undefined\<close> only.\<close>

definition midiToNote :: "int \<Rightarrow> pitch" where
  "midiToNote midi = (case tonal_fromMidi midi of JNull \<Rightarrow> Some ''C4'' | JNaN \<Rightarrow> None | JStr s \<Rightarrow> Some s)"

definition getRootMidi :: "string \<Rightarrow> int \<Rightarrow> int" where
  "getRootMidi key octave = noteToMidi (Some (key @ show_int octave))"

text \<open>
  The functions below read the table \<open>SCALE_DEFINITIONS\<close>. Each is written over an
  arbitrary table first (suffix \<open>_in\<close>), so that statements about scale definitions other
  than the nine listed ones can be made; the program's function is the instance at
  \<open>SCALE_DEFINITIONS\<close>.

  \<open>getScaleNotes\<close>: an absent definition gives the empty list. An inherited member passes
  the test \<open>!definition\<close>, and the first round of the octave loop iterates over its
  \<open>intervals\<close>, which is \<open>undefined\<close>: a \<open>TypeError\<close>, unless the range holds no
  octave.
\<close>

definition getScaleNotes_in ::
  "scale_table \<Rightarrow> string \<Rightarrow> string \<Rightarrow> int \<times> int \<Rightarrow> error + pitch list" where
  "getScaleNotes_in defs key scaleName octaveRange =
     (case defs scaleName of
        Absent \<Rightarrow> Inr []
      | Inherited \<Rightarrow> if fst octaveRange \<le> snd octaveRange then Inl TypeError else Inr []
      | Own definition \<Rightarrow>
         Inr (concat (map (\<lambda>octave.
             let rootMidi = getRootMidi key octave
             in map midiToNote
                  (filter (\<lambda>midi. 0 \<le> midi \<and> midi \<le> 127)
                     (map (\<lambda>interval. rootMidi + interval) (intervals definition))))
           [fst octaveRange .. snd octaveRange])))"

definition getScaleNotes :: "string \<Rightarrow> string \<Rightarrow> int \<times> int \<Rightarrow> error + pitch list" where
  "getScaleNotes = getScaleNotes_in SCALE_DEFINITIONS"

text \<open>\<open>getScaleDegree\<close>: \<open>null\<close> is \<open>None\<close>. For an inherited member
  \<open>definition.intervals.indexOf\<close> reads a property of \<open>undefined\<close>.\<close>

definition getScaleDegree_in ::
  "scale_table \<Rightarrow> pitch \<Rightarrow> string \<Rightarrow> string \<Rightarrow> error + int option" where
  "getScaleDegree_in defs note key scaleName =
     (case defs scaleName of
        Absent \<Rightarrow> Inr None
      | Inherited \<Rightarrow> Inl TypeError
      | Own definition \<Rightarrow>
         (let noteMidi = noteToMidi note;
              keyMidi = noteToMidi (Some (key @ ''0''));
              interval = js_rem (js_rem (noteMidi - keyMidi) 12 + 12) 12;
              degreeIndex = indexOf (intervals definition) interval
          in Inr (if 0 \<le> degreeIndex then Some (degreeIndex + 1) else None)))"

definition getScaleDegree :: "pitch \<Rightarrow> string \<Rightarrow> string \<Rightarrow> error + int option" where
  "getScaleDegree = getScaleDegree_in SCALE_DEFINITIONS"

text \<open>\<open>isChordTone\<close>: \<open>!degree\<close> holds for \<open>null\<close> and for 0;
  \<open>definition?.chordTones.includes(degree) ?? false\<close> is \<open>false\<close> for an absent
  definition and reads a property of \<open>undefined\<close> for an inherited member.\<close>

definition isChordTone_in :: "scale_table \<Rightarrow> pitch \<Rightarrow> string \<Rightarrow> string \<Rightarrow> error + bool" where
  "isChordTone_in defs note key scaleName =
     (case getScaleDegree_in defs note key scaleName of
        Inl e \<Rightarrow> Inl e
      | Inr None \<Rightarrow> Inr False
      | Inr (Some degree) \<Rightarrow>
         if degree = 0 then Inr False
         else (case defs scaleName of
                 Absent \<Rightarrow> Inr False
               | Inherited \<Rightarrow> Inl TypeError
               | Own definition \<Rightarrow> Inr (degree \<in> set (chordTones definition))))"

definition isChordTone :: "pitch \<Rightarrow> string \<Rightarrow> string \<Rightarrow> error + bool" where
  "isChordTone = isChordTone_in SCALE_DEFINITIONS"

text \<open>
  \<open>getNeighboringNotes\<close>: the scale notes next to a note. For a note outside the scale
  the loop finds the index of the closest scale note first; \<open>closestDist\<close> starts at
  \<open>Infinity\<close>, written \<open>None\<close>. The results \<open>null\<close> are \<open>None\<close>.
\<close>

definition lessInf :: "int \<Rightarrow> int option \<Rightarrow> bool" where
  "lessInf d closestDist = (case closestDist of None \<Rightarrow> True | Some c \<Rightarrow> d < c)"

fun closestIndexLoop :: "pitch list \<Rightarrow> int \<Rightarrow> int \<Rightarrow> int \<Rightarrow> int option \<Rightarrow> int" where
  "closestIndexLoop [] noteMidi i closestIndex closestDist = closestIndex"
| "closestIndexLoop (s # rest) noteMidi i closestIndex closestDist =
     (let dist = \<bar>noteToMidi s - noteMidi\<bar>
      in if lessInf dist closestDist
         then closestIndexLoop rest noteMidi (i + 1) i (Some dist)
         else closestIndexLoop rest noteMidi (i + 1) closestIndex closestDist)"

definition getNeighboringNotes ::
  "pitch \<Rightarrow> string \<Rightarrow> string \<Rightarrow> int \<times> int \<Rightarrow> error + (pitch \<times> pitch)" where
  "getNeighboringNotes note key scaleName octaveRange =
     (case getScaleNotes key scaleName octaveRange of
        Inl e \<Rightarrow> Inl e
      | Inr scaleNotes \<Rightarrow>
         (let index = indexOf scaleNotes note
          in if index = -1
             then (let noteMidi = noteToMidi note;
                       closestIndex = closestIndexLoop scaleNotes noteMidi 0 0 None
                   in Inr (if 0 < closestIndex then js_at scaleNotes (closestIndex - 1) else None,
                           if closestIndex < int (length scaleNotes) - 1
                           then js_at scaleNotes (closestIndex + 1) else None))
             else Inr (if 0 < index then js_at scaleNotes (index - 1) else None,
                       if index < int (length scaleNotes) - 1
                       then js_at scaleNotes (index + 1) else None)))"

section \<open>Generators: shared services\<close>

text \<open>
  \<open>findClosestScaleNote\<close> is a private method of \<open>MotifGenerator\<close> and of
  \<open>CallResponseGenerator\<close>, with the same body in both; \<open>scaleNotes\<close> is the
  generator's scale-note list.
\<close>

fun closestLoop :: "pitch list \<Rightarrow> int \<Rightarrow> pitch \<Rightarrow> int option \<Rightarrow> pitch" where
  "closestLoop [] targetMidi closest closestDist = closest"
| "closestLoop (note # rest) targetMidi closest closestDist =
     (let dist = \<bar>noteToMidi note - targetMidi\<bar>
      in if lessInf dist closestDist
         then closestLoop rest targetMidi note (Some dist)
         else closestLoop rest targetMidi closest closestDist)"

definition findClosestScaleNote :: "pitch list \<Rightarrow> int \<Rightarrow> pitch" where
  "findClosestScaleNote scaleNotes targetMidi =
     closestLoop scaleNotes targetMidi (js_at scaleNotes 0) None"

section \<open>Rhythm synthesis (rhythm.ts)\<close>

datatype feel = Straight | Swing | Syncopated

record RhythmPattern =
  name :: string
  feel :: feel
  durations :: "real list"

definition RHYTHM_PATTERNS :: "string \<Rightarrow> RhythmPattern option" where
  "RHYTHM_PATTERNS = map_of
    [(''straight-eighths'', \<lparr>name = ''Straight Eighths'', feel = Straight,
        durations = [0.5, 0.5, 0.5, 0.5, 0.5, 0.5, 0.5, 0.5]\<rparr>),
     (''straight-quarters'', \<lparr>name = ''Straight Quarters'', feel = Straight,
        durations = [1, 1, 1, 1]\<rparr>),
     (''straight-sixteenths'', \<lparr>name = ''Straight Sixteenths'', feel = Straight,
        durations = [0.25, 0.25, 0.25, 0.25, 0.25, 0.25, 0.25, 0.25,
                     0.25, 0.25, 0.25, 0.25, 0.25, 0.25, 0.25, 0.25]\<rparr>),
     (''swing-eighths'', \<lparr>name = ''Swing Eighths'', feel = Swing,
        durations = [0.67, 0.33, 0.67, 0.33, 0.67, 0.33, 0.67, 0.33]\<rparr>),
     (''syncopated-1'', \<lparr>name = ''Syncopated 1'', feel = Syncopated,
        durations = [0.75, 0.25, 0.5, 0.5, 0.75, 0.25, 0.5, 0.5]\<rparr>),
     (''syncopated-2'', \<lparr>name = ''Syncopated 2'', feel = Syncopated,
        durations = [0.5, 0.25, 0.25, 0.5, 0.5, 0.5, 0.25, 0.25]\<rparr>),
     (''mixed-1'', \<lparr>name = ''Mixed 1'', feel = Straight,
        durations = [1, 0.5, 0.5, 0.5, 0.5, 1]\<rparr>)]"

text \<open>
  Randomness. Every call of \<open>Math.random()\<close> is a draw from a sequence
  \<open>rnd :: nat \<Rightarrow> real\<close> of outcomes, each in \<open>[0, 1)\<close>; a function that draws takes
  the sequence and the index \<open>k\<close> of the next draw and returns the index after its last
  draw beside its result. Statements "for all outcomes of the random draws" quantify
  over \<open>rnd\<close>.
\<close>

type_synonym random = "nat \<Rightarrow> real"

definition draws :: "random \<Rightarrow> bool" where
  "draws rnd = (\<forall>i. 0 \<le> rnd i \<and> rnd i < 1)"

definition adjustments :: "real list" where
  "adjustments = [0.5, 0.75, 1, 1.5, 2]"

text \<open>
  \<open>generateRhythmDurations\<close>. The loop need not end (a pattern of zero durations), so
  it is a partial function: \<open>None\<close> says that no list of numbers comes back. That also
  covers the empty pattern: there \<open>pattern.durations[NaN]\<close> is \<open>undefined\<close>, the loop
  pushes it, \<open>currentBeat\<close> becomes \<open>NaN\<close> and the function returns the one-element
  list \<open>[undefined]\<close> (or \<open>[NaN]\<close>), which holds no number.
\<close>

partial_function (option) rhythmLoop ::
  "real \<Rightarrow> real list \<Rightarrow> real \<Rightarrow> random \<Rightarrow> nat \<Rightarrow> real \<Rightarrow> nat \<Rightarrow> (real list \<times> nat) option" where
  "rhythmLoop totalBeats pat variation rnd k currentBeat patternIndex =
     (if currentBeat < totalBeats
      then (if pat = [] then None
            else (let duration = pat ! (patternIndex mod length pat);
                      varied = (0 < variation \<and> rnd k < variation);
                      duration = (if varied
                                  then duration * adjustments ! nat \<lfloor>rnd (k + 1) * 5\<rfloor>
                                  else duration);
                      k = (if varied then k + 2 else if 0 < variation then k + 1 else k);
                      duration = (if currentBeat + duration > totalBeats
                                  then totalBeats - currentBeat else duration)
                  in Option.bind
                       (rhythmLoop totalBeats pat variation rnd k
                          (currentBeat + duration) (patternIndex + 1))
                       (\<lambda>r. Some (duration # fst r, snd r))))
      else Some ([], k))"

declare rhythmLoop.simps [code]

definition generateRhythmDurations ::
  "real \<Rightarrow> RhythmPattern \<Rightarrow> real \<Rightarrow> random \<Rightarrow> nat \<Rightarrow> (real list \<times> nat) option" where
  "generateRhythmDurations totalBeats pattern variation rnd k =
     rhythmLoop totalBeats (durations pattern) variation rnd k 0 0"

text \<open>\<open>beatsToSeconds\<close>: \<open>(beats / tempo) * 60\<close>.\<close>

definition beatsToSeconds :: "real \<Rightarrow> real \<Rightarrow> real" where
  "beatsToSeconds beats tempo = (beats / tempo) * 60"

section \<open>Notes, configurations and the generator base class (types.ts, base.ts)\<close>

text \<open>
  A note's \<open>id\<close> (a time stamp and a global counter) plays no part in any property
  below and is left out.
\<close>

record Note =
  pitch :: pitch
  midi :: int
  time :: real
  duration :: real
  velocity :: real

record GeneratorConfig =
  key :: string
  scale :: string
  tempo :: real
  lengthBars :: real
  octaveRange :: "int \<times> int"
  rhythmFeel :: feel

record GeneratorResult =
  "notes" :: "Note list"
  algorithm :: string

text \<open>
  \<open>BaseGenerator\<close>: the configuration and the scale notes computed by the constructor.
  The subclasses are record extensions; a method of the base class takes any of them.

  A constructor or method of a generator returns \<open>None\<close> when the source returns
  nothing: a \<open>TypeError\<close> is raised, or a loop does not end. \<open>returned\<close> turns the
  result of a theory function into such a value.
\<close>

definition returned :: "error + 'a \<Rightarrow> 'a option" where
  "returned r = (case r of Inl e \<Rightarrow> None | Inr x \<Rightarrow> Some x)"

text \<open>\<open>xs.filter(P)\<close> for a test that may raise.\<close>

fun js_filter :: "('a \<Rightarrow> bool option) \<Rightarrow> 'a list \<Rightarrow> 'a list option" where
  "js_filter P [] = Some []"
| "js_filter P (x # xs) =
     (case P x of None \<Rightarrow> None
      | Some b \<Rightarrow> (case js_filter P xs of None \<Rightarrow> None
                   | Some ys \<Rightarrow> Some (if b then x # ys else ys)))"

record BaseGenerator =
  config :: GeneratorConfig
  scaleNotes :: "pitch list"

definition BaseGenerator_new :: "GeneratorConfig \<Rightarrow> BaseGenerator option" where
  "BaseGenerator_new cfg =
     (case returned (getScaleNotes (key cfg) (scale cfg) (octaveRange cfg)) of
        None \<Rightarrow> None
      | Some sn \<Rightarrow> Some \<lparr>config = cfg, scaleNotes = sn\<rparr>)"

definition getScaleNoteAt :: "'a BaseGenerator_scheme \<Rightarrow> int \<Rightarrow> pitch" where
  "getScaleNoteAt g index =
     (let clampedIndex = max 0 (min index (int (length (scaleNotes g)) - 1))
      in js_at (scaleNotes g) clampedIndex)"

definition findNoteIndex :: "'a BaseGenerator_scheme \<Rightarrow> pitch \<Rightarrow> int" where
  "findNoteIndex g note = indexOf (scaleNotes g) note"

text \<open>The method \<open>beatsToSeconds\<close> of the class: \<open>beatsToSeconds(beats, this.config.tempo)\<close>.\<close>

definition secondsOf :: "'a BaseGenerator_scheme \<Rightarrow> real \<Rightarrow> real" where
  "secondsOf g beats = beatsToSeconds beats (tempo (config g))"

definition createNote :: "'a BaseGenerator_scheme \<Rightarrow> pitch \<Rightarrow> real \<Rightarrow> real \<Rightarrow> real \<Rightarrow> Note" where
  "createNote g p timeBeats durationBeats v =
     \<lparr>pitch = p, midi = noteToMidi p, time = secondsOf g timeBeats,
      duration = secondsOf g durationBeats, velocity = v\<rparr>"

text \<open>\<open>beatPosition % 1 === 0\<close>: the beat position is a whole number.\<close>

definition isDownbeat :: "real \<Rightarrow> bool" where
  "isDownbeat beatPosition = (of_int \<lfloor>beatPosition\<rfloor> = beatPosition)"

definition applyVelocity ::
  "'a BaseGenerator_scheme \<Rightarrow> Note \<Rightarrow> real \<Rightarrow> random \<Rightarrow> nat \<Rightarrow> (Note \<times> nat) option" where
  "applyVelocity g note beatPosition rnd k =
     (case returned (isChordTone (pitch note) (key (config g)) (scale (config g))) of
        None \<Rightarrow> None
      | Some isChord \<Rightarrow>
         (let baseVelocity = (if isChord then 0.8 else 0.65);
              accentBoost = (if isDownbeat beatPosition then 0.1 else 0);
              randomVariation = rnd k * 0.1 - 0.05
          in Some (note\<lparr>velocity := min 1 (max 0.3 (baseVelocity + accentBoost + randomVariation))\<rparr>,
                   k + 1)))"

text \<open>A value used as a condition: a pitch counts as true when it is a non-empty string.\<close>

definition truthy :: "pitch \<Rightarrow> bool" where
  "truthy p = (case p of None \<Rightarrow> False | Some s \<Rightarrow> s \<noteq> [])"

text \<open>\<open>xs.findIndex(P)\<close>: the first index whose entry satisfies \<open>P\<close>, or \<open>-1\<close>.\<close>

fun findIndex :: "('a \<Rightarrow> bool) \<Rightarrow> 'a list \<Rightarrow> int" where
  "findIndex P [] = -1"
| "findIndex P (y # ys) = (if P y then 0 else (let i = findIndex P ys in if i < 0 then -1 else i + 1))"

section \<open>Scale run (scale-runs.ts)\<close>

datatype RunDirection = RunAscending | RunDescending | RunMixed

record ScaleRunGenerator = BaseGenerator +
  direction :: RunDirection
  runLength :: nat
  restProbability :: real

definition ScaleRunGenerator_new :: "GeneratorConfig \<Rightarrow> ScaleRunGenerator option" where
  "ScaleRunGenerator_new cfg =
     (case BaseGenerator_new cfg of None \<Rightarrow> None
      | Some base \<Rightarrow> Some (BaseGenerator.extend base (ScaleRunGenerator.fields RunMixed 4 0.1)))"

definition ScaleRun_getPatternForFeel :: "ScaleRunGenerator \<Rightarrow> random \<Rightarrow> nat \<Rightarrow> string \<times> nat" where
  "ScaleRun_getPatternForFeel g rnd k =
     (case rhythmFeel (config g) of
        Swing \<Rightarrow> (''swing-eighths'', k)
      | Syncopated \<Rightarrow> (if rnd k < 0.5 then ''syncopated-1'' else ''syncopated-2'', k + 1)
      | Straight \<Rightarrow> (if rnd k < 0.7 then ''straight-eighths'' else ''straight-sixteenths'', k + 1))"

definition getStartingIndex :: "ScaleRunGenerator \<Rightarrow> random \<Rightarrow> nat \<Rightarrow> int \<times> nat" where
  "getStartingIndex g rnd k =
     (let third = int (length (scaleNotes g)) div 3
      in (third + \<lfloor>rnd k * of_int third\<rfloor>, k + 1))"

definition getInitialDirection :: "ScaleRunGenerator \<Rightarrow> random \<Rightarrow> nat \<Rightarrow> int \<times> nat" where
  "getInitialDirection g rnd k =
     (case direction g of
        RunAscending \<Rightarrow> (1, k)
      | RunDescending \<Rightarrow> (- 1, k)
      | RunMixed \<Rightarrow> (if rnd k < 0.5 then 1 else - 1, k + 1))"

fun scaleRunLoop ::
  "ScaleRunGenerator \<Rightarrow> random \<Rightarrow> real list \<Rightarrow> nat \<Rightarrow> real \<Rightarrow> int \<Rightarrow> int \<Rightarrow> nat
     \<Rightarrow> (Note list \<times> nat) option" where
  "scaleRunLoop g rnd [] k currentBeat currentIndex currentDirection notesInRun = Some ([], k)"
| "scaleRunLoop g rnd (d # rest) k currentBeat currentIndex currentDirection notesInRun =
     (if rnd k < restProbability g
      then scaleRunLoop g rnd rest (k + 1) (currentBeat + d) currentIndex currentDirection 0
      else
        (let p = getScaleNoteAt g currentIndex
         in case applyVelocity g (createNote g p currentBeat (d * 0.9) 0.7) currentBeat rnd (k + 1) of
              None \<Rightarrow> None
            | Some nk \<Rightarrow>
               (let currentIndex = currentIndex + currentDirection;
                    notesInRun = notesInRun + 1;
                    currentDirection = (if notesInRun \<ge> runLength g \<and> direction g = RunMixed
                                        then currentDirection * (- 1) else currentDirection);
                    notesInRun = (if notesInRun \<ge> runLength g then 0 else notesInRun);
                    top = int (length (scaleNotes g)) - 1;
                    currentDirection = (if currentIndex \<ge> top then - 1
                                        else if currentIndex \<le> 0 then 1 else currentDirection);
                    currentIndex = (if currentIndex \<ge> top then top
                                    else if currentIndex \<le> 0 then 0 else currentIndex)
                in case scaleRunLoop g rnd rest (snd nk) (currentBeat + d) currentIndex
                          currentDirection notesInRun of
                     None \<Rightarrow> None
                   | Some r \<Rightarrow> Some (fst nk # fst r, snd r))))"

definition ScaleRun_generate :: "ScaleRunGenerator \<Rightarrow> random \<Rightarrow> nat \<Rightarrow> (GeneratorResult \<times> nat) option" where
  "ScaleRun_generate g rnd k =
     (let totalBeats = lengthBars (config g) * 4;
          pk = ScaleRun_getPatternForFeel g rnd k
      in case RHYTHM_PATTERNS (fst pk) of None \<Rightarrow> None
         | Some pattern \<Rightarrow>
            (case generateRhythmDurations totalBeats pattern 0.2 rnd (snd pk) of None \<Rightarrow> None
             | Some (ds, k1) \<Rightarrow>
                (let ik = getStartingIndex g rnd k1;
                     dk = getInitialDirection g rnd (snd ik)
                 in case scaleRunLoop g rnd ds (snd dk) 0 (fst ik) (fst dk) 0 of None \<Rightarrow> None
                    | Some r \<Rightarrow> Some (\<lparr>notes = fst r, algorithm = ''scale-run''\<rparr>, snd r))))"

section \<open>Arpeggio (arpeggios.ts)\<close>

record ArpeggioGenerator = BaseGenerator +
  includePassingTones :: bool
  passingToneFrequency :: real
  arpeggioPattern :: "int list"
  chordTones :: "pitch list"

definition ArpeggioGenerator_new :: "GeneratorConfig \<Rightarrow> ArpeggioGenerator option" where
  "ArpeggioGenerator_new cfg =
     (case BaseGenerator_new cfg of None \<Rightarrow> None
      | Some base \<Rightarrow>
         (case js_filter (\<lambda>note. returned (isChordTone note (key cfg) (scale cfg))) (scaleNotes base) of
            None \<Rightarrow> None
          | Some found \<Rightarrow>
              Some (BaseGenerator.extend base (ArpeggioGenerator.fields True 0.25 [0, 1, 2, 1] found))))"

definition Arpeggio_getPatternForFeel :: "ArpeggioGenerator \<Rightarrow> random \<Rightarrow> nat \<Rightarrow> string \<times> nat" where
  "Arpeggio_getPatternForFeel g rnd k =
     (case rhythmFeel (config g) of
        Swing \<Rightarrow> (''swing-eighths'', k)
      | Syncopated \<Rightarrow> (''syncopated-1'', k)
      | Straight \<Rightarrow> (if rnd k < 0.5 then ''straight-eighths'' else ''straight-quarters'', k + 1))"

text \<open>\<open>getPassingTone\<close>: a scale note one step from the target that is no chord tone, or
  \<open>null\<close> (the outer \<open>None\<close>).\<close>

definition getPassingTone ::
  "ArpeggioGenerator \<Rightarrow> pitch \<Rightarrow> random \<Rightarrow> nat \<Rightarrow> (pitch option \<times> nat) option" where
  "getPassingTone g targetPitch rnd k =
     (let targetMidi = noteToMidi targetPitch;
          targetIndex = findIndex (\<lambda>n. noteToMidi n = targetMidi) (scaleNotes g)
      in if targetIndex = - 1 then Some (None, k)
         else (let direction = (if rnd k < 0.5 then - 1 else 1);
                   passingIndex = targetIndex + direction
               in if 0 \<le> passingIndex \<and> passingIndex < int (length (scaleNotes g))
                  then (let passingNote = js_at (scaleNotes g) passingIndex
                        in case returned (isChordTone passingNote (key (config g)) (scale (config g))) of
                             None \<Rightarrow> None
                           | Some chord \<Rightarrow>
                               if \<not> chord then Some (Some passingNote, k + 1) else Some (None, k + 1))
                  else Some (None, k + 1)))"

text \<open>
  The chord tone of a step: \<open>this.chordTones[Math.max(0, Math.min(baseIndex, length - 1))]\<close>
  with \<open>baseIndex = (chordToneIndex + currentOctaveOffset) % length\<close>. With no chord
  tones the index is \<open>NaN\<close> and the read is \<open>undefined\<close>.
\<close>

definition arpeggioPitch :: "ArpeggioGenerator \<Rightarrow> nat \<Rightarrow> int \<Rightarrow> pitch" where
  "arpeggioPitch g patternIndex currentOctaveOffset =
     (let chordToneIndex = arpeggioPattern g ! (patternIndex mod length (arpeggioPattern g));
          len = int (length (chordTones g))
      in if len = 0 then None
         else (let baseIndex = js_rem (chordToneIndex + currentOctaveOffset) len
               in js_at (chordTones g) (max 0 (min baseIndex (len - 1)))))"

text \<open>
  One pass of the loop of \<open>generate\<close> for the duration \<open>d\<close>: the notes pushed, and the
  loop variables \<open>currentBeat\<close>, \<open>patternIndex\<close>, \<open>currentOctaveOffset\<close> and the draw
  index after it.
\<close>

definition arpeggioStep ::
  "ArpeggioGenerator \<Rightarrow> random \<Rightarrow> real \<Rightarrow> nat \<Rightarrow> real \<Rightarrow> nat \<Rightarrow> int
     \<Rightarrow> (Note list \<times> nat \<times> real \<times> nat \<times> int) option" where
  "arpeggioStep g rnd d k currentBeat patternIndex currentOctaveOffset =
     (let p = arpeggioPitch g patternIndex currentOctaveOffset;
          try = (includePassingTones g \<and> rnd k < passingToneFrequency g \<and> d \<ge> 0.5);
          k1 = (if includePassingTones g then k + 1 else k)
      in case (if try then getPassingTone g p rnd k1 else Some (None, k1)) of
           None \<Rightarrow> None
         | Some pt \<Rightarrow>
            (let k2 = snd pt
             in if try \<and> (case fst pt of None \<Rightarrow> False | Some passingPitch \<Rightarrow> truthy passingPitch)
                then (let passingPitch = the (fst pt);
                          passingDuration = d * 0.4
                      in case applyVelocity g
                                (createNote g passingPitch currentBeat (passingDuration * 0.9) 0.7)
                                currentBeat rnd k2 of
                           None \<Rightarrow> None
                         | Some pn \<Rightarrow>
                            (let passingNote = (fst pn)\<lparr>velocity := velocity (fst pn) * 0.7\<rparr>;
                                 mainBeat = currentBeat + passingDuration
                             in case applyVelocity g
                                       (createNote g p mainBeat ((d - passingDuration) * 0.9) 0.7)
                                       mainBeat rnd (snd pn) of
                                  None \<Rightarrow> None
                                | Some mn \<Rightarrow>
                                    Some ([passingNote, fst mn], snd mn, mainBeat + (d - passingDuration),
                                          patternIndex + 1, currentOctaveOffset)))
                else (case applyVelocity g (createNote g p currentBeat (d * 0.9) 0.7) currentBeat rnd k2 of
                        None \<Rightarrow> None
                      | Some nk \<Rightarrow>
                         (let k3 = snd nk;
                              cycle = ((patternIndex + 1) mod length (arpeggioPattern g) = 0);
                              shift = (cycle \<and> rnd k3 < 0.3);
                              offset =
                                (if shift
                                 then max (- 1) (min 1
                                        (js_rem (currentOctaveOffset + (if rnd (k3 + 1) < 0.5 then 1 else - 1)) 3))
                                 else currentOctaveOffset);
                              k4 = (if shift then k3 + 2 else if cycle then k3 + 1 else k3)
                          in Some ([fst nk], k4, currentBeat + d, patternIndex + 1, offset)))))"

fun arpeggioLoop ::
  "ArpeggioGenerator \<Rightarrow> random \<Rightarrow> real list \<Rightarrow> nat \<Rightarrow> real \<Rightarrow> nat \<Rightarrow> int
     \<Rightarrow> (Note list \<times> nat) option" where
  "arpeggioLoop g rnd [] k currentBeat patternIndex currentOctaveOffset = Some ([], k)"
| "arpeggioLoop g rnd (d # rest) k currentBeat patternIndex currentOctaveOffset =
     (case arpeggioStep g rnd d k currentBeat patternIndex currentOctaveOffset of
        None \<Rightarrow> None
      | Some (ns, k', currentBeat', patternIndex', currentOctaveOffset') \<Rightarrow>
          (case arpeggioLoop g rnd rest k' currentBeat' patternIndex' currentOctaveOffset' of
             None \<Rightarrow> None
           | Some r \<Rightarrow> Some (ns @ fst r, snd r)))"

definition Arpeggio_generate :: "ArpeggioGenerator \<Rightarrow> random \<Rightarrow> nat \<Rightarrow> (GeneratorResult \<times> nat) option" where
  "Arpeggio_generate g rnd k =
     (let totalBeats = lengthBars (config g) * 4;
          pk = Arpeggio_getPatternForFeel g rnd k
      in case RHYTHM_PATTERNS (fst pk) of None \<Rightarrow> None
         | Some pattern \<Rightarrow>
            (case generateRhythmDurations totalBeats pattern 0.15 rnd (snd pk) of None \<Rightarrow> None
             | Some (ds, k1) \<Rightarrow>
                (case arpeggioLoop g rnd ds k1 0 0 0 of None \<Rightarrow> None
                 | Some r \<Rightarrow> Some (\<lparr>notes = fst r, algorithm = ''arpeggio''\<rparr>, snd r))))"

section \<open>Motif development (motif.ts)\<close>

datatype DevelopmentTechnique =
  TransposeUp | TransposeDown | Invert | Retrograde | Augment | Diminish

record MotifGenerator = BaseGenerator +
  motifLength :: nat
  techniques :: "DevelopmentTechnique list"

definition MotifGenerator_new :: "GeneratorConfig \<Rightarrow> MotifGenerator option" where
  "MotifGenerator_new cfg =
     (case BaseGenerator_new cfg of None \<Rightarrow> None
      | Some base \<Rightarrow>
          Some (BaseGenerator.extend base
                  (MotifGenerator.fields 4 [TransposeUp, TransposeDown, Invert, Retrograde])))"

definition Motif_getPatternForFeel :: "MotifGenerator \<Rightarrow> string" where
  "Motif_getPatternForFeel g =
     (case rhythmFeel (config g) of
        Swing \<Rightarrow> ''swing-eighths'' | Syncopated \<Rightarrow> ''syncopated-2'' | Straight \<Rightarrow> ''mixed-1'')"

definition findStartingIndex :: "MotifGenerator \<Rightarrow> int" where
  "findStartingIndex g = int (length (scaleNotes g)) div 2"

definition getMotifMovement :: "random \<Rightarrow> nat \<Rightarrow> int \<times> nat" where
  "getMotifMovement rnd k = ([- 2, - 1, - 1, 0, 1, 1, 2, 3] ! nat \<lfloor>rnd k * 8\<rfloor>, k + 1)"

fun initialMotifLoop ::
  "MotifGenerator \<Rightarrow> random \<Rightarrow> real list \<Rightarrow> nat \<Rightarrow> real \<Rightarrow> int \<Rightarrow> (Note list \<times> nat) option" where
  "initialMotifLoop g rnd [] k currentBeat currentIndex = Some ([], k)"
| "initialMotifLoop g rnd (d # rest) k currentBeat currentIndex =
     (let p = getScaleNoteAt g currentIndex
      in case applyVelocity g (createNote g p currentBeat (d * 0.85) 0.7) currentBeat rnd k of
           None \<Rightarrow> None
         | Some nk \<Rightarrow>
            (let mv = getMotifMovement rnd (snd nk);
                 nextIndex = max 0 (min (int (length (scaleNotes g)) - 1) (currentIndex + fst mv))
             in case initialMotifLoop g rnd rest (snd mv) (currentBeat + d) nextIndex of
                  None \<Rightarrow> None
                | Some r \<Rightarrow> Some (fst nk # fst r, snd r)))"

definition generateInitialMotif :: "MotifGenerator \<Rightarrow> random \<Rightarrow> nat \<Rightarrow> (Note list \<times> nat) option" where
  "generateInitialMotif g rnd k =
     (case RHYTHM_PATTERNS (Motif_getPatternForFeel g) of None \<Rightarrow> None
      | Some pattern \<Rightarrow>
         (case generateRhythmDurations (real (motifLength g)) pattern 0.1 rnd k of None \<Rightarrow> None
          | Some (ds, k1) \<Rightarrow>
              initialMotifLoop g rnd (take (motifLength g) ds) k1 0 (findStartingIndex g)))"

text \<open>
  The six techniques map over the motif with a running \<open>currentTime\<close> (seconds), which
  each step advances by \<open>duration / 0.85 * 0.85\<close>.
\<close>

fun transposeLoop :: "MotifGenerator \<Rightarrow> int \<Rightarrow> Note list \<Rightarrow> real \<Rightarrow> Note list" where
  "transposeLoop g scaleSteps [] currentTime = []"
| "transposeLoop g scaleSteps (note # rest) currentTime =
     (let currentIndex = indexOf (scaleNotes g) (pitch note);
          newIndex = max 0 (min (int (length (scaleNotes g)) - 1) (currentIndex + scaleSteps));
          newPitch = js_at (scaleNotes g) newIndex
      in \<lparr>pitch = newPitch, midi = noteToMidi newPitch, time = currentTime,
          duration = duration note, velocity = velocity note\<rparr>
         # transposeLoop g scaleSteps rest (currentTime + duration note / 0.85 * 0.85))"

definition transpose :: "MotifGenerator \<Rightarrow> Note list \<Rightarrow> int \<Rightarrow> real \<Rightarrow> Note list" where
  "transpose g motif scaleSteps startBeat = transposeLoop g scaleSteps motif (secondsOf g startBeat)"

fun invertLoop :: "MotifGenerator \<Rightarrow> int \<Rightarrow> Note list \<Rightarrow> real \<Rightarrow> Note list" where
  "invertLoop g pivotMidi [] currentTime = []"
| "invertLoop g pivotMidi (note # rest) currentTime =
     (let originalMidi = noteToMidi (pitch note);
          interval = originalMidi - pivotMidi;
          invertedMidi = pivotMidi - interval;
          invertedPitch = findClosestScaleNote (scaleNotes g) invertedMidi
      in \<lparr>pitch = invertedPitch, midi = noteToMidi invertedPitch, time = currentTime,
          duration = duration note, velocity = velocity note\<rparr>
         # invertLoop g pivotMidi rest (currentTime + duration note / 0.85 * 0.85))"

definition invert :: "MotifGenerator \<Rightarrow> Note list \<Rightarrow> real \<Rightarrow> Note list" where
  "invert g motif startBeat =
     (case motif of [] \<Rightarrow> []
      | first # _ \<Rightarrow> invertLoop g (noteToMidi (pitch first)) motif (secondsOf g startBeat))"

text \<open>Retrograde, augmentation and diminution copy pitch and MIDI number; the duration is
  scaled by \<open>factor\<close> (1, 1.5 and 0.75).\<close>

fun scaleLoop :: "real \<Rightarrow> Note list \<Rightarrow> real \<Rightarrow> Note list" where
  "scaleLoop factor [] currentTime = []"
| "scaleLoop factor (note # rest) currentTime =
     (let newDuration = duration note * factor
      in \<lparr>pitch = pitch note, midi = midi note, time = currentTime,
          duration = newDuration, velocity = velocity note\<rparr>
         # scaleLoop factor rest (currentTime + newDuration / 0.85 * 0.85))"

definition retrograde :: "MotifGenerator \<Rightarrow> Note list \<Rightarrow> real \<Rightarrow> Note list" where
  "retrograde g motif startBeat = scaleLoop 1 (rev motif) (secondsOf g startBeat)"

definition augment :: "MotifGenerator \<Rightarrow> Note list \<Rightarrow> real \<Rightarrow> Note list" where
  "augment g motif startBeat = scaleLoop 1.5 motif (secondsOf g startBeat)"

definition diminish :: "MotifGenerator \<Rightarrow> Note list \<Rightarrow> real \<Rightarrow> Note list" where
  "diminish g motif startBeat = scaleLoop 0.75 motif (secondsOf g startBeat)"

text \<open>\<open>applyTechnique\<close>; \<open>None\<close> is a technique read outside the list, which takes the
  \<open>default\<close> branch of the \<open>switch\<close>.\<close>

definition applyTechnique ::
  "MotifGenerator \<Rightarrow> Note list \<Rightarrow> DevelopmentTechnique option \<Rightarrow> real \<Rightarrow> Note list" where
  "applyTechnique g motif technique startBeat =
     (case technique of
        Some TransposeUp \<Rightarrow> transpose g motif 2 startBeat
      | Some TransposeDown \<Rightarrow> transpose g motif (- 2) startBeat
      | Some Invert \<Rightarrow> invert g motif startBeat
      | Some Retrograde \<Rightarrow> retrograde g motif startBeat
      | Some Augment \<Rightarrow> augment g motif startBeat
      | Some Diminish \<Rightarrow> diminish g motif startBeat
      | None \<Rightarrow> transpose g motif 0 startBeat)"

text \<open>The development loop of \<open>generate\<close>: it ends only if the variations have a positive
  length or the motif already fills the phrase.\<close>

partial_function (option) motifLoop ::
  "MotifGenerator \<Rightarrow> Note list \<Rightarrow> real \<Rightarrow> real \<Rightarrow> real \<Rightarrow> nat \<Rightarrow> Note list option" where
  "motifLoop g motif totalBeats motifBeats currentBeat techniqueIndex =
     (if currentBeat < totalBeats - motifBeats
      then (let technique = (if techniques g = [] then None
                             else Some (techniques g ! (techniqueIndex mod length (techniques g))));
                variation = applyTechnique g motif technique currentBeat;
                variationBeats = sum_list (map duration variation) / secondsOf g 1
            in Option.bind
                 (motifLoop g motif totalBeats motifBeats (currentBeat + variationBeats)
                    (techniqueIndex + 1))
                 (\<lambda>r. Some (variation @ r)))
      else Some [])"

declare motifLoop.simps [code]

definition Motif_generate :: "MotifGenerator \<Rightarrow> random \<Rightarrow> nat \<Rightarrow> (GeneratorResult \<times> nat) option" where
  "Motif_generate g rnd k =
     (let totalBeats = lengthBars (config g) * 4
      in case generateInitialMotif g rnd k of None \<Rightarrow> None
         | Some (motif, k1) \<Rightarrow>
            (let motifDuration = sum_list (map duration motif);
                 motifBeats = motifDuration / secondsOf g 1
             in case motifLoop g motif totalBeats motifBeats motifBeats 0 of None \<Rightarrow> None
                | Some rest \<Rightarrow> Some (\<lparr>notes = motif @ rest, algorithm = ''motif''\<rparr>, k1)))"

section \<open>Bebop (bebop.ts)\<close>

datatype ApproachType =
  ChromaticAbove | ChromaticBelow | EnclosureAboveFirst | EnclosureBelowFirst
  | DoubleChromatic | ScaleStep | Direct

record BebopGenerator = BaseGenerator +
  approachFrequency :: real
  enclosureFrequency :: real
  chordTones :: "pitch list"

text \<open>
  The constructor. The chord tones are the scale notes that \<open>isChordTone\<close> accepts; when
  there is none, the notes at the scale indices 0, 2 and 4 (each capped at the last
  index) take their place, \<open>.filter(Boolean)\<close> dropping reads outside the list. The
  constructor is written over an arbitrary scale table, as the theory functions are.
\<close>

definition BebopGenerator_new_in :: "scale_table \<Rightarrow> GeneratorConfig \<Rightarrow> BebopGenerator option" where
  "BebopGenerator_new_in defs cfg =
     (case returned (getScaleNotes_in defs (key cfg) (scale cfg) (octaveRange cfg)) of
        None \<Rightarrow> None
      | Some sn \<Rightarrow>
         (case js_filter (\<lambda>note. returned (isChordTone_in defs note (key cfg) (scale cfg))) sn of
            None \<Rightarrow> None
          | Some found \<Rightarrow>
             (let last = int (length sn) - 1
              in Some (BaseGenerator.extend \<lparr>config = cfg, scaleNotes = sn\<rparr>
                   (BebopGenerator.fields 0.7 0.4
                      (if length found = 0
                       then filter truthy [js_at sn 0, js_at sn (min 2 last), js_at sn (min 4 last)]
                       else found))))))"

definition BebopGenerator_new :: "GeneratorConfig \<Rightarrow> BebopGenerator option" where
  "BebopGenerator_new = BebopGenerator_new_in SCALE_DEFINITIONS"

definition getNextTarget :: "BebopGenerator \<Rightarrow> pitch \<Rightarrow> random \<Rightarrow> nat \<Rightarrow> pitch \<times> nat" where
  "getNextTarget g prevPitch rnd k =
     (let prevMidi = noteToMidi prevPitch;
          candidates = filter (\<lambda>ct. let interval = \<bar>noteToMidi ct - prevMidi\<bar>
                                     in 1 \<le> interval \<and> interval \<le> 7) (chordTones g)
      in if length candidates = 0
         then (js_at (chordTones g) \<lfloor>rnd k * real (length (chordTones g))\<rfloor>, k + 1)
         else (let stepwise = filter (\<lambda>ct. \<bar>noteToMidi ct - prevMidi\<bar> \<le> 3) candidates
               in if 0 < length stepwise
                  then (if rnd k < 0.7
                        then (js_at stepwise \<lfloor>rnd (k + 1) * real (length stepwise)\<rfloor>, k + 2)
                        else (js_at candidates \<lfloor>rnd (k + 1) * real (length candidates)\<rfloor>, k + 2))
                  else (js_at candidates \<lfloor>rnd k * real (length candidates)\<rfloor>, k + 1)))"

text \<open>\<open>planTargets\<close>: one target \<open>{beat, pitch}\<close> (a pair) for each of the beats
  0, 2, 4, ... below \<open>totalBeats\<close>; \<open>prev\<close> is the pitch of the last target so far.\<close>

function planLoop ::
  "BebopGenerator \<Rightarrow> random \<Rightarrow> real \<Rightarrow> real \<Rightarrow> pitch option \<Rightarrow> nat \<Rightarrow> (real \<times> pitch) list \<times> nat" where
  "planLoop g rnd totalBeats beat prev k =
     (if beat < totalBeats
      then (let pk = (case prev of
                        None \<Rightarrow> (js_at (chordTones g) (int (length (chordTones g)) div 2), k)
                      | Some prevPitch \<Rightarrow> getNextTarget g prevPitch rnd k);
                r = planLoop g rnd totalBeats (beat + 2) (Some (fst pk)) (snd pk)
            in ((beat, fst pk) # fst r, snd r))
      else ([], k))"
  by pat_completeness auto
termination
proof (relation "measure (\<lambda>(g, rnd, totalBeats, beat, prev, k). nat \<lceil>totalBeats - beat\<rceil>)")
  show "wf (measure (\<lambda>(g, rnd, totalBeats, beat, prev, k). nat \<lceil>totalBeats - beat\<rceil>))" by simp
next
  fix g :: BebopGenerator and rnd :: random and totalBeats beat :: real
    and prev :: "pitch option" and k :: nat and x :: "pitch \<times> nat"
  assume "beat < totalBeats"
  then have "0 < totalBeats - beat" by simp
  then have "1 \<le> \<lceil>totalBeats - beat\<rceil>" by (simp add: Suc_le_eq)
  moreover have "\<lceil>totalBeats - (beat + 2)\<rceil> = \<lceil>totalBeats - beat\<rceil> - 2"
    by (simp add: algebra_simps ceiling_diff_numeral [symmetric] del: ceiling_diff_numeral)
  ultimately show "((g, rnd, totalBeats, beat + 2, Some (fst x), snd x),
            (g, rnd, totalBeats, beat, prev, k))
        \<in> measure (\<lambda>(g, rnd, totalBeats, beat, prev, k). nat \<lceil>totalBeats - beat\<rceil>)"
    by simp
qed

definition planTargets :: "BebopGenerator \<Rightarrow> real \<Rightarrow> random \<Rightarrow> nat \<Rightarrow> (real \<times> pitch) list \<times> nat" where
  "planTargets g totalBeats rnd k = planLoop g rnd totalBeats 0 None k"

definition selectApproachType :: "BebopGenerator \<Rightarrow> real \<Rightarrow> random \<Rightarrow> nat \<Rightarrow> ApproachType \<times> nat" where
  "selectApproachType g availableBeats rnd k =
     (if availableBeats < 0.5 then (Direct, k)
      else if availableBeats \<ge> 1.5 \<and> rnd k < enclosureFrequency g
      then (if rnd (k + 1) < 0.5 then EnclosureAboveFirst else EnclosureBelowFirst, k + 2)
      else (let k1 = (if availableBeats \<ge> 1.5 then k + 1 else k)
            in if availableBeats \<ge> 1 \<and> rnd k1 < 0.3 then (DoubleChromatic, k1 + 1)
               else (let k2 = (if availableBeats \<ge> 1 then k1 + 1 else k1)
                     in (if rnd k2 < 0.5 then ChromaticAbove else ChromaticBelow, k2 + 1))))"

definition getScaleToneAbove :: "BebopGenerator \<Rightarrow> int \<Rightarrow> pitch" where
  "getScaleToneAbove g m =
     (let index = findIndex (\<lambda>n. noteToMidi n \<ge> m) (scaleNotes g)
      in if 0 \<le> index \<and> index < int (length (scaleNotes g)) - 1
            \<and> noteToMidi (js_at (scaleNotes g) (index + 1)) > m
         then js_at (scaleNotes g) (index + 1)
         else midiToNote (m + 2))"

definition getScaleToneBelow :: "BebopGenerator \<Rightarrow> int \<Rightarrow> pitch" where
  "getScaleToneBelow g m =
     (let index = findIndex (\<lambda>n. noteToMidi n \<ge> m) (scaleNotes g)
      in if 0 < index then js_at (scaleNotes g) (index - 1) else midiToNote (m - 2))"

definition getApproachPitches ::
  "BebopGenerator \<Rightarrow> int \<Rightarrow> ApproachType \<Rightarrow> random \<Rightarrow> nat \<Rightarrow> pitch list \<times> nat" where
  "getApproachPitches g targetMidi approachType rnd k =
     (case approachType of
        ChromaticAbove \<Rightarrow> ([midiToNote (targetMidi + 1)], k)
      | ChromaticBelow \<Rightarrow> ([midiToNote (targetMidi - 1)], k)
      | EnclosureAboveFirst \<Rightarrow> ([getScaleToneAbove g targetMidi, midiToNote (targetMidi - 1)], k)
      | EnclosureBelowFirst \<Rightarrow> ([getScaleToneBelow g targetMidi, midiToNote (targetMidi + 1)], k)
      | DoubleChromatic \<Rightarrow> ([midiToNote (targetMidi + 2), midiToNote (targetMidi + 1)], k)
      | ScaleStep \<Rightarrow> (if rnd k < 0.5 then [getScaleToneAbove g targetMidi]
                       else [getScaleToneBelow g targetMidi], k + 1)
      | Direct \<Rightarrow> ([], k))"

fun approachLoop ::
  "BebopGenerator \<Rightarrow> real \<Rightarrow> bool \<Rightarrow> nat \<Rightarrow> pitch list \<Rightarrow> nat \<Rightarrow> real \<Rightarrow> Note list" where
  "approachLoop g noteDuration useSwing n [] i currentBeat = []"
| "approachLoop g noteDuration useSwing n (p # rest) i currentBeat =
     (let d = (if useSwing \<and> i mod 2 = 0 \<and> i < n - 1 then noteDuration * 1.3
               else if useSwing \<and> i mod 2 = 1 then noteDuration * 0.7
               else noteDuration);
          note = (createNote g p currentBeat (d * 0.9) 0.7)
                   \<lparr>velocity := 0.6 + (real i / real n) * 0.2\<rparr>
      in note # approachLoop g noteDuration useSwing n rest (i + 1) (currentBeat + d))"

definition generateApproach ::
  "BebopGenerator \<Rightarrow> pitch \<Rightarrow> real \<Rightarrow> real \<Rightarrow> random \<Rightarrow> nat \<Rightarrow> Note list \<times> nat" where
  "generateApproach g targetPitch startBeat availableBeats rnd k =
     (let targetMidi = noteToMidi targetPitch
      in if rnd k > approachFrequency g then ([], k + 1)
         else (let tk = selectApproachType g availableBeats rnd (k + 1);
                   ak = getApproachPitches g targetMidi (fst tk) rnd (snd tk);
                   approachPitches = fst ak
               in if length approachPitches = 0 then ([], snd ak)
                  else (let noteDuration = min 0.5 (availableBeats / real (length approachPitches));
                            currentBeat = startBeat
                              + (availableBeats - noteDuration * real (length approachPitches));
                            useSwing = (rhythmFeel (config g) = Swing)
                        in (approachLoop g noteDuration useSwing (length approachPitches)
                              approachPitches 0 currentBeat, snd ak))))"

text \<open>
  One pass of the loop of \<open>generateBebopLine\<close> with the loop index \<open>i\<close>: the note
  pushed, the draw index, the duration of the step and the new \<open>currentMidi\<close>.
\<close>

definition bebopLineStep ::
  "BebopGenerator \<Rightarrow> random \<Rightarrow> nat \<Rightarrow> int \<Rightarrow> nat \<Rightarrow> nat \<Rightarrow> real \<Rightarrow> int
     \<Rightarrow> (Note \<times> nat \<times> real \<times> int) option" where
  "bebopLineStep g rnd noteCount overallDirection i k currentBeat currentMidi =
     (let nextMidi = (if rnd k < 0.15 then currentMidi + overallDirection
                      else if overallDirection > 0
                      then noteToMidi (getScaleToneAbove g currentMidi)
                      else noteToMidi (getScaleToneBelow g currentMidi));
          turn = (rnd (k + 1) < 0.2 \<and> 0 < i \<and> int i < int noteCount - 1);
          nextMidi = (if turn
                      then currentMidi + (overallDirection * (- 1) * (if rnd (k + 2) < 0.5 then 1 else 2))
                      else nextMidi);
          k1 = (if turn then k + 3 else k + 2);
          p = midiToNote nextMidi;
          d = (if rhythmFeel (config g) = Swing
               then (if i mod 2 = 0 then 0.5 * 1.3 else 0.5 * 0.7) else 0.5)
      in case applyVelocity g (createNote g p currentBeat (d * 0.85) 0.7) currentBeat rnd k1 of
           None \<Rightarrow> None
         | Some nk \<Rightarrow> Some (fst nk, snd nk, d, nextMidi))"

text \<open>
  The loop: \<open>n\<close> passes remain. It stops early (\<open>break\<close>) once the cursor comes within
  0.1 beats of \<open>endBeat\<close>, the end of the available time.
\<close>

fun bebopLineLoop ::
  "BebopGenerator \<Rightarrow> random \<Rightarrow> nat \<Rightarrow> int \<Rightarrow> real \<Rightarrow> nat \<Rightarrow> nat \<Rightarrow> nat \<Rightarrow> real \<Rightarrow> int
     \<Rightarrow> (Note list \<times> nat) option" where
  "bebopLineLoop g rnd noteCount overallDirection endBeat 0 i k currentBeat currentMidi = Some ([], k)"
| "bebopLineLoop g rnd noteCount overallDirection endBeat (Suc n) i k currentBeat currentMidi =
     (case bebopLineStep g rnd noteCount overallDirection i k currentBeat currentMidi of
        None \<Rightarrow> None
      | Some (x, k', d, nextMidi) \<Rightarrow>
          if currentBeat + d \<ge> endBeat - 0.1 then Some ([x], k')
          else (case bebopLineLoop g rnd noteCount overallDirection endBeat n (i + 1) k'
                       (currentBeat + d) nextMidi of
                  None \<Rightarrow> None
                | Some r \<Rightarrow> Some (x # fst r, snd r)))"

definition generateBebopLine ::
  "BebopGenerator \<Rightarrow> pitch \<Rightarrow> real \<Rightarrow> real \<Rightarrow> pitch \<Rightarrow> random \<Rightarrow> nat
     \<Rightarrow> (Note list \<times> nat) option" where
  "generateBebopLine g startPitch startBeat availableBeats nextTargetPitch rnd k =
     (if availableBeats < 0.25 then Some ([], k)
      else (let noteCount = nat \<lfloor>availableBeats / 0.5\<rfloor>
            in if noteCount = 0 then Some ([], k)
               else (let currentMidi = noteToMidi startPitch;
                         targetMidi = (if truthy nextTargetPitch then noteToMidi nextTargetPitch
                                       else currentMidi);
                         overallDirection = (if targetMidi > currentMidi then 1
                                             else if targetMidi < currentMidi then - 1
                                             else if rnd k < 0.5 then 1 else - 1);
                         k1 = (if targetMidi = currentMidi then k + 1 else k)
                     in bebopLineLoop g rnd noteCount overallDirection (startBeat + availableBeats)
                          noteCount 0 k1 startBeat currentMidi)))"

text \<open>One pass of the loop of \<open>generate\<close> over the targets: \<open>first\<close> says that this is
  the target of index 0, \<open>rest\<close> are the targets after it.\<close>

definition bebopStep ::
  "BebopGenerator \<Rightarrow> random \<Rightarrow> real \<Rightarrow> real \<times> pitch \<Rightarrow> (real \<times> pitch) list \<Rightarrow> bool \<Rightarrow> nat \<Rightarrow> real
     \<Rightarrow> (Note list \<times> nat \<times> real) option" where
  "bebopStep g rnd totalBeats target rest first k currentBeat =
     (let nextTarget = (case rest of [] \<Rightarrow> None | n # _ \<Rightarrow> Some n);
          beatsUntilTarget = fst target - currentBeat;
          beatsAfterTarget = (case nextTarget of Some n \<Rightarrow> fst n - fst target
                              | None \<Rightarrow> totalBeats - fst target);
          ap = (if beatsUntilTarget > 0 \<and> \<not> first
                then generateApproach g (snd target) currentBeat beatsUntilTarget rnd k
                else ([], k));
          targetDuration = min (if beatsAfterTarget > 1 then 1 else beatsAfterTarget * 0.8) 0.5
      in case applyVelocity g (createNote g (snd target) (fst target) targetDuration 0.85)
                (fst target) rnd (snd ap) of
           None \<Rightarrow> None
         | Some tn \<Rightarrow>
            (let afterTarget = fst target + targetDuration;
                 fillBeats = (case nextTarget of Some n \<Rightarrow> fst n - afterTarget - 0.5
                              | None \<Rightarrow> totalBeats - afterTarget)
             in case (if fillBeats > 0.25
                      then generateBebopLine g (snd target) afterTarget fillBeats
                             (case nextTarget of Some n \<Rightarrow> snd n | None \<Rightarrow> None) rnd (snd tn)
                      else Some ([], snd tn)) of
                  None \<Rightarrow> None
                | Some fl \<Rightarrow>
                   (let cursor = (if fillBeats > 0.25 \<and> 0 < length (fst fl)
                                  then time (last (fst fl)) / secondsOf g 1
                                         + duration (last (fst fl)) / secondsOf g 1
                                  else afterTarget)
                    in Some (fst ap @ [fst tn] @ fst fl, snd fl, cursor))))"

fun bebopLoop ::
  "BebopGenerator \<Rightarrow> random \<Rightarrow> real \<Rightarrow> (real \<times> pitch) list \<Rightarrow> bool \<Rightarrow> nat \<Rightarrow> real
     \<Rightarrow> (Note list \<times> nat) option" where
  "bebopLoop g rnd totalBeats [] first k currentBeat = Some ([], k)"
| "bebopLoop g rnd totalBeats (target # rest) first k currentBeat =
     (case bebopStep g rnd totalBeats target rest first k currentBeat of
        None \<Rightarrow> None
      | Some (ns, k', currentBeat') \<Rightarrow>
          (case bebopLoop g rnd totalBeats rest False k' currentBeat' of
             None \<Rightarrow> None
           | Some r \<Rightarrow> Some (ns @ fst r, snd r)))"

definition Bebop_generate :: "BebopGenerator \<Rightarrow> random \<Rightarrow> nat \<Rightarrow> (GeneratorResult \<times> nat) option" where
  "Bebop_generate g rnd k =
     (let totalBeats = lengthBars (config g) * 4;
          tk = planTargets g totalBeats rnd k
      in case bebopLoop g rnd totalBeats (fst tk) True (snd tk) 0 of None \<Rightarrow> None
         | Some r \<Rightarrow> Some (\<lparr>notes = fst r, algorithm = ''bebop''\<rparr>, snd r))"

section \<open>Call and response (call-response.ts)\<close>

text \<open>
  String tests on a pitch. The scale notes they are applied to are always names; on a
  value that is no string the source would raise a \<open>TypeError\<close>, and the model answers
  \<open>False\<close> there.
\<close>

definition startsWith :: "pitch \<Rightarrow> string \<Rightarrow> bool" where
  "startsWith p x = (case p of None \<Rightarrow> False | Some s \<Rightarrow> take (length x) s = x)"

definition includesChar :: "pitch \<Rightarrow> char \<Rightarrow> bool" where
  "includesChar p c = (case p of None \<Rightarrow> False | Some s \<Rightarrow> c \<in> set s)"

text \<open>\<open>xs.find(P)\<close>: the first entry satisfying \<open>P\<close>, or \<open>undefined\<close>; \<open>a || b\<close> on
  pitches.\<close>

definition js_find :: "(pitch \<Rightarrow> bool) \<Rightarrow> pitch list \<Rightarrow> pitch" where
  "js_find P xs = (case filter P xs of [] \<Rightarrow> None | x # _ \<Rightarrow> x)"

definition orElse :: "pitch \<Rightarrow> pitch \<Rightarrow> pitch" where
  "orElse a b = (if truthy a then a else b)"

datatype ResponseType = Echo | Answer | Mirror | Rhythmic

record CallResponseGenerator = BaseGenerator +
  callLengthBars :: real
  silenceBeats :: real
  responseTypes :: "ResponseType list"
  chordTones :: "pitch list"
  rootNote :: pitch

definition findRootNote :: "GeneratorConfig \<Rightarrow> pitch list \<Rightarrow> pitch" where
  "findRootNote cfg sn =
     (let rootPitch = key cfg;
          candidates = filter (\<lambda>n. startsWith n rootPitch) sn
      in orElse (js_find (\<lambda>n. includesChar n (CHR ''4'')) candidates)
           (orElse (js_find (\<lambda>n. includesChar n (CHR ''3'')) candidates)
              (orElse (js_at candidates (int (length candidates) div 2))
                 (js_at sn (int (length sn) div 2)))))"

definition CallResponseGenerator_new :: "GeneratorConfig \<Rightarrow> CallResponseGenerator option" where
  "CallResponseGenerator_new cfg =
     (case BaseGenerator_new cfg of None \<Rightarrow> None
      | Some base \<Rightarrow>
         (case js_filter (\<lambda>note. returned (isChordTone note (key cfg) (scale cfg))) (scaleNotes base) of
            None \<Rightarrow> None
          | Some found \<Rightarrow>
              Some (BaseGenerator.extend base
                      (CallResponseGenerator.fields 1 0.5 [Echo, Answer, Mirror, Rhythmic] found
                         (findRootNote cfg (scaleNotes base))))))"

definition CallResponse_getPatternForFeel ::
  "CallResponseGenerator \<Rightarrow> random \<Rightarrow> nat \<Rightarrow> string \<times> nat" where
  "CallResponse_getPatternForFeel g rnd k =
     (case rhythmFeel (config g) of
        Swing \<Rightarrow> (''swing-eighths'', k)
      | Syncopated \<Rightarrow> (if rnd k < 0.5 then ''syncopated-1'' else ''syncopated-2'', k + 1)
      | Straight \<Rightarrow> (if rnd k < 0.5 then ''straight-eighths'' else ''mixed-1'', k + 1))"

definition getAlternatePattern :: "random \<Rightarrow> nat \<Rightarrow> string \<times> nat" where
  "getAlternatePattern rnd k =
     ([''straight-quarters'', ''syncopated-1'', ''mixed-1''] ! nat \<lfloor>rnd k * 3\<rfloor>, k + 1)"

text \<open>\<open>Math.max(0, Math.min(this.scaleNotes.length - 1, i))\<close>.\<close>

definition clampIndex :: "'a BaseGenerator_scheme \<Rightarrow> int \<Rightarrow> int" where
  "clampIndex g i = max 0 (min (int (length (scaleNotes g)) - 1) i)"

definition getNextMelodicNote :: "CallResponseGenerator \<Rightarrow> int \<Rightarrow> random \<Rightarrow> nat \<Rightarrow> pitch \<times> nat" where
  "getNextMelodicNote g currentIndex rnd k =
     (if rnd k < 0.7
      then (let direction = (if rnd (k + 1) < 0.5 then 1 else - 1)
            in (js_at (scaleNotes g) (clampIndex g (currentIndex + direction)), k + 2))
      else (let leap = (if rnd (k + 1) < 0.5 then 2 else 3);
                direction = (if rnd (k + 2) < 0.5 then 1 else - 1)
            in (js_at (scaleNotes g) (clampIndex g (currentIndex + direction * leap)), k + 3)))"

definition getNonTonicNote :: "CallResponseGenerator \<Rightarrow> int \<Rightarrow> random \<Rightarrow> nat \<Rightarrow> pitch \<times> nat" where
  "getNonTonicNote g nearIndex rnd k =
     (let sn = scaleNotes g;
          nonRootNotes = map fst (filter (\<lambda>(n, i). \<not> startsWith n (key (config g))
                                            \<and> \<bar>int i - nearIndex\<bar> < 5)
                                   (zip sn [0 ..< length sn]))
      in if 0 < length nonRootNotes
         then (case filter (\<lambda>note. truthy note \<and> note \<in> set nonRootNotes)
                      (map (\<lambda>degree. js_at sn (nearIndex + degree - 3)) [2, 5, 7]) of
                 note # _ \<Rightarrow> (note, k)
               | [] \<Rightarrow> (js_at nonRootNotes \<lfloor>rnd k * real (length nonRootNotes)\<rfloor>, k + 1))
         else (js_at sn (max 0 (nearIndex - 1)), k))"

text \<open>The loop of \<open>generateCall\<close>; the last duration takes the non-tonic note.\<close>

definition callStep ::
  "CallResponseGenerator \<Rightarrow> random \<Rightarrow> real \<Rightarrow> real \<Rightarrow> bool \<Rightarrow> nat \<Rightarrow> real \<Rightarrow> int
     \<Rightarrow> (Note \<times> nat \<times> int) option" where
  "callStep g rnd startBeat d isLast k currentBeat prevIndex =
     (let pk = (if isLast then getNonTonicNote g prevIndex rnd k
                else getNextMelodicNote g prevIndex rnd k);
          pitchIndex = findNoteIndex g (fst pk);
          newIndex = (if 0 \<le> pitchIndex then pitchIndex else prevIndex)
      in case applyVelocity g (createNote g (fst pk) currentBeat (d * 0.9) 0.7)
                (currentBeat - startBeat) rnd (snd pk) of
           None \<Rightarrow> None
         | Some nk \<Rightarrow>
             Some ((fst nk)\<lparr>velocity := min 1 (velocity (fst nk) * 1.1)\<rparr>, snd nk, newIndex))"

fun callLoop ::
  "CallResponseGenerator \<Rightarrow> random \<Rightarrow> real \<Rightarrow> real list \<Rightarrow> nat \<Rightarrow> real \<Rightarrow> int
     \<Rightarrow> (Note list \<times> nat) option" where
  "callLoop g rnd startBeat [] k currentBeat prevIndex = Some ([], k)"
| "callLoop g rnd startBeat (d # rest) k currentBeat prevIndex =
     (case callStep g rnd startBeat d (rest = []) k currentBeat prevIndex of
        None \<Rightarrow> None
      | Some (x, k', newIndex) \<Rightarrow>
          (case callLoop g rnd startBeat rest k' (currentBeat + d) newIndex of
             None \<Rightarrow> None
           | Some r \<Rightarrow> Some (x # fst r, snd r)))"

definition generateCall ::
  "CallResponseGenerator \<Rightarrow> real \<Rightarrow> real \<Rightarrow> random \<Rightarrow> nat \<Rightarrow> (Note list \<times> nat) option" where
  "generateCall g startBeat lengthBeats rnd k =
     (let pk = CallResponse_getPatternForFeel g rnd k
      in case RHYTHM_PATTERNS (fst pk) of None \<Rightarrow> None
         | Some pattern \<Rightarrow>
            (case generateRhythmDurations lengthBeats pattern 0.1 rnd (snd pk) of None \<Rightarrow> None
             | Some (ds, k1) \<Rightarrow>
                 callLoop g rnd startBeat ds k1 startBeat (int (length (scaleNotes g)) div 2)))"

fun echoLoop :: "CallResponseGenerator \<Rightarrow> int \<Rightarrow> Note list \<Rightarrow> real \<Rightarrow> Note list" where
  "echoLoop g octaveShift [] currentBeat = []"
| "echoLoop g octaveShift (callNote # rest) currentBeat =
     (let originalMidi = noteToMidi (pitch callNote);
          newMidi = originalMidi + octaveShift;
          newMidi = (if newMidi < 36 then originalMidi + 12 else newMidi);
          newMidi = (if newMidi > 96 then originalMidi - 12 else newMidi);
          p = midiToNote newMidi;
          durationBeats = duration callNote / secondsOf g 1;
          note = (createNote g p currentBeat (durationBeats * 0.9) 0.7)
                   \<lparr>velocity := velocity callNote * 0.9\<rparr>
      in note # echoLoop g octaveShift rest (currentBeat + durationBeats))"

definition generateEchoResponse ::
  "CallResponseGenerator \<Rightarrow> Note list \<Rightarrow> real \<Rightarrow> random \<Rightarrow> nat \<Rightarrow> Note list \<times> nat" where
  "generateEchoResponse g callNotes startBeat rnd k =
     (let octaveShift = (if rnd k < 0.5 then 12 else - 12)
      in (echoLoop g octaveShift callNotes startBeat, k + 1))"

definition moveTowardTonic ::
  "CallResponseGenerator \<Rightarrow> int \<Rightarrow> int \<Rightarrow> random \<Rightarrow> nat \<Rightarrow> pitch \<times> nat" where
  "moveTowardTonic g currentIndex stepsRemaining rnd k =
     (let rootIndex = findNoteIndex g (rootNote g)
      in if rootIndex < 0 \<or> stepsRemaining \<le> 1 then getNextMelodicNote g currentIndex rnd k
         else (let direction = (if rootIndex > currentIndex then 1 else - 1);
                   step = (if rnd k < 0.6 then 1 else 2)
               in (js_at (scaleNotes g) (clampIndex g (currentIndex + direction * step)), k + 1)))"

definition answerStep ::
  "CallResponseGenerator \<Rightarrow> random \<Rightarrow> real \<Rightarrow> real \<Rightarrow> bool \<Rightarrow> int \<Rightarrow> nat \<Rightarrow> real \<Rightarrow> int
     \<Rightarrow> (Note \<times> nat \<times> int) option" where
  "answerStep g rnd startBeat d isLast stepsRemaining k currentBeat currentIndex =
     (let pk = (if isLast then (rootNote g, k)
                else moveTowardTonic g currentIndex stepsRemaining rnd k);
          newIndex = (if isLast then currentIndex
                      else (let i = findNoteIndex g (fst pk) in if 0 \<le> i then i else currentIndex))
      in case applyVelocity g (createNote g (fst pk) currentBeat (d * 0.9) 0.7)
                (currentBeat - startBeat) rnd (snd pk) of
           None \<Rightarrow> None
         | Some nk \<Rightarrow>
             Some (if isLast then (fst nk)\<lparr>velocity := min 1 (velocity (fst nk) * 1.2)\<rparr>
                   else fst nk, snd nk, newIndex))"

fun answerLoop ::
  "CallResponseGenerator \<Rightarrow> random \<Rightarrow> real \<Rightarrow> real \<Rightarrow> real list \<Rightarrow> nat \<Rightarrow> real \<Rightarrow> int
     \<Rightarrow> (Note list \<times> nat) option" where
  "answerLoop g rnd startBeat lengthBeats [] k currentBeat currentIndex = Some ([], k)"
| "answerLoop g rnd startBeat lengthBeats (d # rest) k currentBeat currentIndex =
     (if currentBeat < startBeat + lengthBeats
      then (case answerStep g rnd startBeat d (rest = []) (int (length rest)) k currentBeat currentIndex of
              None \<Rightarrow> None
            | Some (x, k', newIndex) \<Rightarrow>
                (case answerLoop g rnd startBeat lengthBeats rest k' (currentBeat + d) newIndex of
                   None \<Rightarrow> None
                 | Some r \<Rightarrow> Some (x # fst r, snd r)))
      else Some ([], k))"

text \<open>\<open>generateAnswerResponse\<close> reads the pitch of the last call note: with no call note
  that is a \<open>TypeError\<close>.\<close>

definition generateAnswerResponse ::
  "CallResponseGenerator \<Rightarrow> Note list \<Rightarrow> real \<Rightarrow> real \<Rightarrow> random \<Rightarrow> nat \<Rightarrow> (Note list \<times> nat) option" where
  "generateAnswerResponse g callNotes startBeat lengthBeats rnd k =
     (if callNotes = [] then None
      else (let ds = map (\<lambda>n. duration n / secondsOf g 1) callNotes;
                callEndMidi = noteToMidi (pitch (last callNotes));
                found = findIndex (\<lambda>n. \<bar>noteToMidi n - callEndMidi\<bar> \<le> 2
                                         \<and> noteToMidi n \<noteq> callEndMidi) (scaleNotes g);
                currentIndex = (if found < 0 then int (length (scaleNotes g)) div 2 else found)
            in answerLoop g rnd startBeat lengthBeats ds k startBeat currentIndex))"

fun mirrorLoop :: "CallResponseGenerator \<Rightarrow> int \<Rightarrow> Note list \<Rightarrow> real \<Rightarrow> Note list" where
  "mirrorLoop g pivotMidi [] currentBeat = []"
| "mirrorLoop g pivotMidi (callNote # rest) currentBeat =
     (let originalMidi = noteToMidi (pitch callNote);
          interval = originalMidi - pivotMidi;
          mirroredMidi = pivotMidi - interval;
          p = findClosestScaleNote (scaleNotes g) mirroredMidi;
          durationBeats = duration callNote / secondsOf g 1;
          note = (createNote g p currentBeat (durationBeats * 0.9) 0.7)
                   \<lparr>velocity := velocity callNote\<rparr>
      in note # mirrorLoop g pivotMidi rest (currentBeat + durationBeats))"

definition generateMirrorResponse :: "CallResponseGenerator \<Rightarrow> Note list \<Rightarrow> real \<Rightarrow> Note list" where
  "generateMirrorResponse g callNotes startBeat =
     (case callNotes of [] \<Rightarrow> []
      | first # _ \<Rightarrow> mirrorLoop g (noteToMidi (pitch first)) callNotes startBeat)"

text \<open>The loop of \<open>generateRhythmicResponse\<close>; it runs only when there are call notes
  (without them the new rhythm is empty).\<close>

fun rhythmicLoop ::
  "CallResponseGenerator \<Rightarrow> random \<Rightarrow> Note list \<Rightarrow> real \<Rightarrow> real list \<Rightarrow> nat \<Rightarrow> nat \<Rightarrow> real
     \<Rightarrow> (Note list \<times> nat) option" where
  "rhythmicLoop g rnd callNotes startBeat [] pitchIndex k currentBeat = Some ([], k)"
| "rhythmicLoop g rnd callNotes startBeat (d # rest) pitchIndex k currentBeat =
     (let callNote = callNotes ! (pitchIndex mod length callNotes)
      in case applyVelocity g (createNote g (pitch callNote) currentBeat (d * 0.9) 0.7)
                (currentBeat - startBeat) rnd k of
           None \<Rightarrow> None
         | Some nk \<Rightarrow>
            (case rhythmicLoop g rnd callNotes startBeat rest (pitchIndex + 1) (snd nk) (currentBeat + d) of
               None \<Rightarrow> None
             | Some r \<Rightarrow> Some (fst nk # fst r, snd r)))"

definition generateRhythmicResponse ::
  "CallResponseGenerator \<Rightarrow> Note list \<Rightarrow> real \<Rightarrow> random \<Rightarrow> nat \<Rightarrow> (Note list \<times> nat) option" where
  "generateRhythmicResponse g callNotes startBeat rnd k =
     (let totalDuration = sum_list (map (\<lambda>n. duration n / secondsOf g 1) callNotes);
          pk = getAlternatePattern rnd k
      in case RHYTHM_PATTERNS (fst pk) of None \<Rightarrow> None
         | Some pattern \<Rightarrow>
            (case generateRhythmDurations totalDuration pattern 0.2 rnd (snd pk) of None \<Rightarrow> None
             | Some (ds, k1) \<Rightarrow>
                 (if callNotes = [] \<and> ds \<noteq> [] then None
                  else rhythmicLoop g rnd callNotes startBeat ds 0 k1 startBeat)))"

text \<open>\<open>generateResponse\<close>; \<open>None\<close> is a response type read outside the list
  (the \<open>default\<close> branch).\<close>

definition generateResponse ::
  "CallResponseGenerator \<Rightarrow> Note list \<Rightarrow> ResponseType option \<Rightarrow> real \<Rightarrow> real \<Rightarrow> random \<Rightarrow> nat
     \<Rightarrow> (Note list \<times> nat) option" where
  "generateResponse g callNotes responseType startBeat lengthBeats rnd k =
     (case responseType of
        Some Echo \<Rightarrow> Some (generateEchoResponse g callNotes startBeat rnd k)
      | Some Answer \<Rightarrow> generateAnswerResponse g callNotes startBeat lengthBeats rnd k
      | Some Mirror \<Rightarrow> Some (generateMirrorResponse g callNotes startBeat, k)
      | Some Rhythmic \<Rightarrow> generateRhythmicResponse g callNotes startBeat rnd k
      | None \<Rightarrow> generateAnswerResponse g callNotes startBeat lengthBeats rnd k)"

text \<open>
  One pass of the loop of \<open>generate\<close>: the call, and unless the loop is left
  (\<open>break\<close>, the flag returned), the response; with the notes, the draw index and the
  cursor after the pass.
\<close>

definition callResponseStep ::
  "CallResponseGenerator \<Rightarrow> random \<Rightarrow> real \<Rightarrow> nat \<Rightarrow> real \<Rightarrow> nat
     \<Rightarrow> (Note list \<times> nat \<times> real \<times> bool) option" where
  "callResponseStep g rnd totalBeats k currentBeat responseTypeIndex =
     (let callBeats = callLengthBars g * 4;
          responseBeats = callBeats
      in case generateCall g currentBeat callBeats rnd k of None \<Rightarrow> None
         | Some (callNotes, k1) \<Rightarrow>
            (let afterCall = currentBeat + callBeats + silenceBeats g
             in if afterCall \<ge> totalBeats - 1 then Some (callNotes, k1, afterCall, True)
                else (let responseType =
                            (if responseTypes g = [] then None
                             else Some (responseTypes g ! (responseTypeIndex mod length (responseTypes g))));
                          remainingBeats = min responseBeats (totalBeats - afterCall)
                      in case generateResponse g callNotes responseType afterCall remainingBeats rnd k1 of
                           None \<Rightarrow> None
                         | Some (responseNotes, k2) \<Rightarrow>
                             Some (callNotes @ responseNotes, k2,
                                   afterCall + remainingBeats + silenceBeats g, False))))"

partial_function (option) callResponseLoop ::
  "CallResponseGenerator \<Rightarrow> random \<Rightarrow> real \<Rightarrow> nat \<Rightarrow> real \<Rightarrow> nat \<Rightarrow> (Note list \<times> nat) option" where
  "callResponseLoop g rnd totalBeats k currentBeat responseTypeIndex =
     (if currentBeat < totalBeats - callLengthBars g * 4
      then (case callResponseStep g rnd totalBeats k currentBeat responseTypeIndex of
              None \<Rightarrow> None
            | Some s \<Rightarrow>
                if snd (snd (snd s)) then Some (fst s, fst (snd s))
                else Option.bind
                       (callResponseLoop g rnd totalBeats (fst (snd s)) (fst (snd (snd s)))
                          (responseTypeIndex + 1))
                       (\<lambda>r. Some (fst s @ fst r, snd r)))
      else Some ([], k))"

declare callResponseLoop.simps [code]

definition CallResponse_generate ::
  "CallResponseGenerator \<Rightarrow> random \<Rightarrow> nat \<Rightarrow> (GeneratorResult \<times> nat) option" where
  "CallResponse_generate g rnd k =
     (let totalBeats = lengthBars (config g) * 4
      in case callResponseLoop g rnd totalBeats k 0 0 of None \<Rightarrow> None
         | Some (ns, k') \<Rightarrow> Some (\<lparr>notes = ns, algorithm = ''call-response''\<rparr>, k'))"

section \<open>Sequence (sequence.ts)\<close>

datatype PatternShape = ShapeAscending | ShapeDescending | ShapeTurn | ShapeMordent | ShapeArch

datatype SequenceDirection = SeqAscending | SeqDescending | SeqArch

text \<open>A \<open>PatternInterval\<close>; its field \<open>velocity\<close> is named \<open>patternVelocity\<close> here.\<close>

record PatternInterval =
  scaleDegreeOffset :: int
  durationBeats :: real
  patternVelocity :: real

record SequenceGenerator = BaseGenerator +
  patternLength :: nat
  patternShape :: PatternShape
  sequenceDirection :: SequenceDirection
  transpositionInterval :: int
  repetitions :: int

text \<open>The constructor draws the pattern's length, shape, direction and interval, in this
  order, and sets \<open>repetitions\<close> to \<open>Math.floor(totalBeats / (patternLength * 0.5))\<close>.\<close>

definition SequenceGenerator_new ::
  "GeneratorConfig \<Rightarrow> random \<Rightarrow> nat \<Rightarrow> (SequenceGenerator \<times> nat) option" where
  "SequenceGenerator_new cfg rnd k =
   (case BaseGenerator_new cfg of None \<Rightarrow> None
    | Some base \<Rightarrow>
     (let len = 3 + nat \<lfloor>rnd k * 2\<rfloor>;
          shape = [ShapeAscending, ShapeDescending, ShapeTurn, ShapeMordent, ShapeArch]
                    ! nat \<lfloor>rnd (k + 1) * 5\<rfloor>;
          dir = [SeqAscending, SeqDescending, SeqArch] ! nat \<lfloor>rnd (k + 2) * 3\<rfloor>;
          interval = [1, 2, 3] ! nat \<lfloor>rnd (k + 3) * 3\<rfloor>;
          patternBeats = real len * 0.5;
          totalBeats = lengthBars cfg * 4
      in Some (BaseGenerator.extend base
                 (SequenceGenerator.fields len shape dir interval \<lfloor>totalBeats / patternBeats\<rfloor>),
               k + 4)))"

text \<open>\<open>offsets[i] || 0\<close>: the entry, or 0 outside the list.\<close>

definition offsetAt :: "int list \<Rightarrow> nat \<Rightarrow> int" where
  "offsetAt offsets i = (if i < length offsets then offsets ! i else 0)"

definition generatePattern :: "SequenceGenerator \<Rightarrow> PatternInterval list" where
  "generatePattern g =
     (let len = patternLength g;
          baseDuration = (if rhythmFeel (config g) = Swing then 0.5 else 0.5);
          pattern =
            (case patternShape g of
               ShapeAscending \<Rightarrow>
                 map (\<lambda>i. \<lparr>scaleDegreeOffset = int i, durationBeats = baseDuration,
                           patternVelocity = 0.7 + (if i = 0 then 0.1 else 0)\<rparr>) [0 ..< len]
             | ShapeDescending \<Rightarrow>
                 map (\<lambda>i. \<lparr>scaleDegreeOffset = - int i, durationBeats = baseDuration,
                           patternVelocity = 0.7 + (if i = 0 then 0.1 else 0)\<rparr>) [0 ..< len]
             | ShapeTurn \<Rightarrow>
                 (let turnOffsets = (if len = 3 then [0, 1, - 1] else [0, 1, - 1, 0])
                  in map (\<lambda>i. \<lparr>scaleDegreeOffset = offsetAt turnOffsets i, durationBeats = baseDuration,
                               patternVelocity = 0.7 + (if i = 0 then 0.1 else 0)\<rparr>) [0 ..< len])
             | ShapeMordent \<Rightarrow>
                 (let mordentOffsets = (if len = 3 then [0, 1, 0] else [0, 1, 0, - 1])
                  in map (\<lambda>i. \<lparr>scaleDegreeOffset = offsetAt mordentOffsets i,
                               durationBeats = (if i = 0 then baseDuration * 1.5 else baseDuration * 0.75),
                               patternVelocity = 0.7 + (if i = 0 then 0.1 else - 0.1)\<rparr>) [0 ..< len])
             | ShapeArch \<Rightarrow>
                 (let archOffsets = (if len = 3 then [0, 1, 0] else [0, 1, 2, 1])
                  in map (\<lambda>i. \<lparr>scaleDegreeOffset = offsetAt archOffsets i, durationBeats = baseDuration,
                               patternVelocity = 0.7 + (if i < length archOffsets
                                    \<and> archOffsets ! i = Max (set archOffsets) then 0.1 else 0)\<rparr>)
                       [0 ..< len]))
      in if rhythmFeel (config g) = Swing
         then map (\<lambda>(i, p). p\<lparr>durationBeats := durationBeats p * (if i mod 2 = 0 then 1.33 else 0.67)\<rparr>)
                (zip [0 ..< length pattern] pattern)
         else pattern)"

definition calculateTransposition :: "SequenceGenerator \<Rightarrow> int \<Rightarrow> int \<Rightarrow> int \<Rightarrow> int" where
  "calculateTransposition g rep dir archPeak =
     (let interval = transpositionInterval g
      in case sequenceDirection g of
           SeqAscending \<Rightarrow> rep * interval
         | SeqDescending \<Rightarrow> - rep * interval
         | SeqArch \<Rightarrow> (if rep \<le> archPeak then rep * interval
                        else archPeak * interval - (rep - archPeak) * interval))"

text \<open>
  The two \<open>while\<close> loops of \<open>instantiatePattern\<close> bring the index into
  \<open>[0, length)\<close> by adding and subtracting the length. With no scale notes neither
  ends (\<open>None\<close>); otherwise the result is the index modulo the length.
\<close>

definition wrapIndex :: "int \<Rightarrow> int \<Rightarrow> int option" where
  "wrapIndex len scaleIndex = (if len = 0 then None else Some (scaleIndex mod len))"

fun instantiateLoop ::
  "SequenceGenerator \<Rightarrow> random \<Rightarrow> PatternInterval list \<Rightarrow> int \<Rightarrow> nat \<Rightarrow> real
     \<Rightarrow> (Note list \<times> nat) option" where
  "instantiateLoop g rnd [] startScaleIndex k currentBeat = Some ([], k)"
| "instantiateLoop g rnd (p # rest) startScaleIndex k currentBeat =
     (case wrapIndex (int (length (scaleNotes g))) (startScaleIndex + scaleDegreeOffset p) of
        None \<Rightarrow> None
      | Some wrapped \<Rightarrow>
         (let scaleIndex = max 0 (min (int (length (scaleNotes g)) - 1) wrapped);
              note = (createNote g (js_at (scaleNotes g) scaleIndex) currentBeat
                        (durationBeats p * 0.9) 0.7)\<lparr>velocity := patternVelocity p\<rparr>
          in case applyVelocity g note currentBeat rnd k of
               None \<Rightarrow> None
             | Some nk \<Rightarrow>
                (case instantiateLoop g rnd rest startScaleIndex (snd nk)
                        (currentBeat + durationBeats p) of
                   None \<Rightarrow> None
                 | Some r \<Rightarrow> Some (fst nk # fst r, snd r))))"

definition instantiatePattern ::
  "SequenceGenerator \<Rightarrow> PatternInterval list \<Rightarrow> int \<Rightarrow> real \<Rightarrow> random \<Rightarrow> nat
     \<Rightarrow> (Note list \<times> nat) option" where
  "instantiatePattern g pattern startScaleIndex startBeat rnd k =
     instantiateLoop g rnd pattern startScaleIndex k startBeat"

text \<open>The loop of \<open>generate\<close>: \<open>n\<close> repetitions remain, \<open>rep\<close> is the loop index.\<close>

fun sequenceLoop ::
  "SequenceGenerator \<Rightarrow> random \<Rightarrow> PatternInterval list \<Rightarrow> real \<Rightarrow> int \<Rightarrow> int \<Rightarrow> nat \<Rightarrow> int \<Rightarrow> int
     \<Rightarrow> nat \<Rightarrow> real \<Rightarrow> (Note list \<times> nat) option" where
  "sequenceLoop g rnd pattern patternDuration startIndex archPeak 0 rep dir k currentBeat = Some ([], k)"
| "sequenceLoop g rnd pattern patternDuration startIndex archPeak (Suc n) rep dir k currentBeat =
     (let transposition = calculateTransposition g rep dir archPeak
      in case instantiatePattern g pattern (startIndex + transposition) currentBeat rnd k of
           None \<Rightarrow> None
         | Some rn \<Rightarrow>
            (case sequenceLoop g rnd pattern patternDuration startIndex archPeak n (rep + 1)
                    (if sequenceDirection g = SeqArch \<and> rep = archPeak then - 1 else dir)
                    (snd rn) (currentBeat + patternDuration) of
               None \<Rightarrow> None
             | Some r \<Rightarrow> Some (fst rn @ fst r, snd r)))"

definition Sequence_generate :: "SequenceGenerator \<Rightarrow> random \<Rightarrow> nat \<Rightarrow> (GeneratorResult \<times> nat) option" where
  "Sequence_generate g rnd k =
     (let totalBeats = lengthBars (config g) * 4;
          pattern = generatePattern g;
          patternDuration = sum_list (map durationBeats pattern);
          maxReps = \<lfloor>totalBeats / patternDuration\<rfloor>;
          reps = min (repetitions g) maxReps;
          startIndex = int (length (scaleNotes g)) div 3;
          dir = (if sequenceDirection g = SeqDescending then - 1 else 1);
          archPeak = reps div 2
      in case sequenceLoop g rnd pattern patternDuration startIndex archPeak (nat reps) 0 dir k 0 of
           None \<Rightarrow> None
         | Some (ns, k') \<Rightarrow> Some (\<lparr>notes = ns, algorithm = ''sequence''\<rparr>, k'))"

section \<open>Blues (blues.ts)\<close>

definition BLUES_SCALE_INTERVALS :: "int list" where
  "BLUES_SCALE_INTERVALS = [0, 3, 5, 6, 7, 10]"

definition BLUE_NOTE_INTERVALS :: "int list" where
  "BLUE_NOTE_INTERVALS = [3, 6, 10]"

datatype PhraseType = Question | Answering

record BluesGenerator = BaseGenerator +
  bendFrequency :: real
  turnaround :: bool
  boxPosition :: int
  shuffleFeel :: bool
  bluesNotes :: "pitch list"
  blueNoteSet :: "int set"

definition buildBluesScale :: "GeneratorConfig \<Rightarrow> pitch list" where
  "buildBluesScale cfg =
     concat (map (\<lambda>octave.
         let rootMidi = getRootMidi (key cfg) octave
         in map midiToNote
              (filter (\<lambda>m. 36 \<le> m \<and> m \<le> 96)
                 (map (\<lambda>interval. rootMidi + interval) BLUES_SCALE_INTERVALS)))
       [fst (octaveRange cfg) .. snd (octaveRange cfg)])"

definition buildBlueNoteSet :: "GeneratorConfig \<Rightarrow> int set" where
  "buildBlueNoteSet cfg =
     set (concat (map (\<lambda>octave.
         let rootMidi = getRootMidi (key cfg) octave
         in map (\<lambda>interval. rootMidi + interval) BLUE_NOTE_INTERVALS)
       [fst (octaveRange cfg) .. snd (octaveRange cfg)]))"

text \<open>The constructor draws the box position, and the shuffle feel unless the rhythm
  feel is swing.\<close>

definition BluesGenerator_new ::
  "GeneratorConfig \<Rightarrow> random \<Rightarrow> nat \<Rightarrow> (BluesGenerator \<times> nat) option" where
  "BluesGenerator_new cfg rnd k =
     (case BaseGenerator_new cfg of None \<Rightarrow> None
      | Some base \<Rightarrow>
         (let box = \<lfloor>rnd k * 3\<rfloor>;
              shuffle = (rhythmFeel cfg = Swing \<or> rnd (k + 1) < 0.5);
              k' = (if rhythmFeel cfg = Swing then k + 1 else k + 2)
          in Some (BaseGenerator.extend base
                     (BluesGenerator.fields 0.3 (lengthBars cfg \<ge> 4) box shuffle
                        (buildBluesScale cfg) (buildBlueNoteSet cfg)),
                   k')))"

definition getBoxStartIndex :: "BluesGenerator \<Rightarrow> int \<Rightarrow> int \<Rightarrow> int" where
  "getBoxStartIndex g box defaultIndex =
     (let targetIndex = \<lfloor>real (length (bluesNotes g)) * (0.3 + of_int box * 0.2)\<rfloor>
      in max 0 (min (int (length (bluesNotes g)) - 1) targetIndex))"

definition getNextBluesNote :: "BluesGenerator \<Rightarrow> int \<Rightarrow> real \<Rightarrow> random \<Rightarrow> nat \<Rightarrow> pitch \<times> nat" where
  "getNextBluesNote g currentIndex beatInPhrase rnd k =
     (if rnd k < 0.2 then (js_at (bluesNotes g) currentIndex, k + 1)
      else (let step = (if rnd (k + 1) < 0.7 then 1 else 2);
                direction = (if rnd (k + 2) < 0.5 then 1 else - 1);
                newIndex = max 0 (min (int (length (bluesNotes g)) - 1) (currentIndex + step * direction))
            in (js_at (bluesNotes g) newIndex, k + 3)))"

text \<open>\<open>s.replace(x, y)\<close> with a one-character \<open>x\<close>: the first occurrence is replaced;
  \<open>s.replace(/\d+/, '')\<close>: the first run of digits is removed.\<close>

fun replaceChar :: "char \<Rightarrow> string \<Rightarrow> string \<Rightarrow> string" where
  "replaceChar x y [] = []"
| "replaceChar x y (c # cs) = (if c = x then y @ cs else c # replaceChar x y cs)"

fun removeDigits :: "string \<Rightarrow> string" where
  "removeDigits [] = []"
| "removeDigits (c # cs) = (if isDigit c then dropWhile isDigit cs else c # removeDigits cs)"

definition isRootName :: "pitch \<Rightarrow> string \<Rightarrow> bool" where
  "isRootName note rootPitch =
     (case note of None \<Rightarrow> False
      | Some s \<Rightarrow>
          replaceChar (CHR ''b'') ''flat'' (replaceChar (CHR ''#'') ''sharp'' (removeDigits s))
            = replaceChar (CHR ''b'') ''flat'' (replaceChar (CHR ''#'') ''sharp'' rootPitch)
          \<or> startsWith note rootPitch)"

fun rootLoop ::
  "string \<Rightarrow> int \<Rightarrow> pitch list \<Rightarrow> int \<Rightarrow> pitch option \<Rightarrow> int option \<Rightarrow> pitch option" where
  "rootLoop rootPitch nearIndex [] i closestRoot closestDist = closestRoot"
| "rootLoop rootPitch nearIndex (note # rest) i closestRoot closestDist =
     (if isRootName note rootPitch \<and> lessInf \<bar>i - nearIndex\<bar> closestDist
      then rootLoop rootPitch nearIndex rest (i + 1) (Some note) (Some \<bar>i - nearIndex\<bar>)
      else rootLoop rootPitch nearIndex rest (i + 1) closestRoot closestDist)"

definition getRootNote :: "BluesGenerator \<Rightarrow> int \<Rightarrow> pitch" where
  "getRootNote g nearIndex =
     (case rootLoop (key (config g)) nearIndex (bluesNotes g) 0 None None of
        None \<Rightarrow> js_at (bluesNotes g) 0
      | Some closestRoot \<Rightarrow> orElse closestRoot (js_at (bluesNotes g) 0))"

definition getQuestionEndNote :: "BluesGenerator \<Rightarrow> int \<Rightarrow> random \<Rightarrow> nat \<Rightarrow> pitch \<times> nat" where
  "getQuestionEndNote g nearIndex rnd k =
     (let rootMidi = getRootMidi (key (config g)) 4
      in case filter (\<lambda>targetPitch. let idx = indexOf (bluesNotes g) targetPitch
                                     in 0 \<le> idx \<and> \<bar>idx - nearIndex\<bar> < 5)
                (map (\<lambda>interval. midiToNote (rootMidi + interval)) [7, 10]) of
           targetPitch # _ \<Rightarrow> (targetPitch, k)
         | [] \<Rightarrow>
            (let nonRoot = filter (\<lambda>n. \<not> startsWith n (key (config g))) (bluesNotes g)
             in if 0 < length nonRoot
                then (js_at nonRoot \<lfloor>rnd k * real (length nonRoot)\<rfloor>, k + 1)
                else (js_at (bluesNotes g) nearIndex, k)))"

definition applyBluesVelocity :: "Note \<Rightarrow> real \<Rightarrow> bool \<Rightarrow> random \<Rightarrow> nat \<Rightarrow> Note \<times> nat" where
  "applyBluesVelocity note beatPosition isBlueNote rnd k =
     (let v = 0.7;
          v = (if isDownbeat beatPosition then v + 0.15 else v);
          v = (if isBlueNote then v + 0.05 else v);
          v = v + (rnd k * 0.1 - 0.05)
      in (note\<lparr>velocity := min 1 (max 0.4 v)\<rparr>, k + 1))"

definition createBend :: "BluesGenerator \<Rightarrow> pitch \<Rightarrow> real \<Rightarrow> real \<Rightarrow> Note list" where
  "createBend g targetPitch startBeat totalDuration =
     (let targetMidi = noteToMidi targetPitch;
          bendFromPitch = midiToNote (targetMidi - 1);
          graceDuration = 0.1;
          mainDuration = totalDuration - graceDuration;
          graceNote = (createNote g bendFromPitch startBeat graceDuration 0.7)\<lparr>velocity := 0.6\<rparr>;
          mainNote = (createNote g targetPitch (startBeat + graceDuration) (mainDuration * 0.9) 0.7)
                       \<lparr>velocity := 0.85\<rparr>
      in [graceNote, mainNote])"

text \<open>One pass of the loop of \<open>generateBluesPhrase\<close> for the duration \<open>d\<close> at loop
  index \<open>i\<close>, of \<open>n\<close> durations in all.\<close>

definition bluesStep ::
  "BluesGenerator \<Rightarrow> random \<Rightarrow> real \<Rightarrow> PhraseType \<Rightarrow> real \<Rightarrow> nat \<Rightarrow> nat \<Rightarrow> nat \<Rightarrow> real \<Rightarrow> int
     \<Rightarrow> Note list \<times> nat \<times> int" where
  "bluesStep g rnd startBeat phraseType d i n k currentBeat prevIndex =
     (let isLast = (int i = int n - 1);
          beatInPhrase = currentBeat - startBeat
      in if rnd k < 0.1 \<and> 0 < i \<and> int i < int n - 1 then ([], k + 1, prevIndex)
         else (let pk = (if isLast \<and> phraseType = Answering then (getRootNote g prevIndex, k + 1)
                         else if isLast \<and> phraseType = Question
                         then getQuestionEndNote g prevIndex rnd (k + 1)
                         else getNextBluesNote g prevIndex beatInPhrase rnd (k + 1));
                   pitchIndex = indexOf (bluesNotes g) (fst pk);
                   newIndex = (if 0 \<le> pitchIndex then pitchIndex else prevIndex);
                   isBlueNote = (noteToMidi (fst pk) \<in> blueNoteSet g);
                   bend = (isBlueNote \<and> rnd (snd pk) < bendFrequency g \<and> d \<ge> 0.5);
                   k1 = (if isBlueNote then snd pk + 1 else snd pk)
               in if bend then (createBend g (fst pk) currentBeat d, k1, newIndex)
                  else (let nk = applyBluesVelocity (createNote g (fst pk) currentBeat (d * 0.9) 0.7)
                                   beatInPhrase isBlueNote rnd k1
                        in ([fst nk], snd nk, newIndex))))"

fun bluesPhraseLoop ::
  "BluesGenerator \<Rightarrow> random \<Rightarrow> real \<Rightarrow> PhraseType \<Rightarrow> nat \<Rightarrow> real list \<Rightarrow> nat \<Rightarrow> nat \<Rightarrow> real \<Rightarrow> int
     \<Rightarrow> Note list \<times> nat" where
  "bluesPhraseLoop g rnd startBeat phraseType n [] i k currentBeat prevIndex = ([], k)"
| "bluesPhraseLoop g rnd startBeat phraseType n (d # rest) i k currentBeat prevIndex =
     (case bluesStep g rnd startBeat phraseType d i n k currentBeat prevIndex of
        (ns, k', newIndex) \<Rightarrow>
          (let r = bluesPhraseLoop g rnd startBeat phraseType n rest (i + 1) k' (currentBeat + d) newIndex
           in (ns @ fst r, snd r)))"

definition generateBluesPhrase ::
  "BluesGenerator \<Rightarrow> real \<Rightarrow> real \<Rightarrow> PhraseType \<Rightarrow> random \<Rightarrow> nat \<Rightarrow> (Note list \<times> nat) option" where
  "generateBluesPhrase g startBeat lengthBeats phraseType rnd k =
     (case RHYTHM_PATTERNS (if shuffleFeel g then ''swing-eighths'' else ''straight-eighths'') of
        None \<Rightarrow> None
      | Some pattern \<Rightarrow>
         (case generateRhythmDurations lengthBeats pattern 0.15 rnd k of None \<Rightarrow> None
          | Some (ds, k1) \<Rightarrow>
             (let prevIndex = getBoxStartIndex g (boxPosition g) (int (length (bluesNotes g)) div 2)
              in Some (bluesPhraseLoop g rnd startBeat phraseType (length ds) ds 0 k1 startBeat prevIndex))))"

fun turnaroundLoop :: "BluesGenerator \<Rightarrow> real \<Rightarrow> nat \<Rightarrow> int list \<Rightarrow> nat \<Rightarrow> real \<Rightarrow> Note list" where
  "turnaroundLoop g noteDuration n [] i currentBeat = []"
| "turnaroundLoop g noteDuration n (m # rest) i currentBeat =
     (let d = (if shuffleFeel g
               then (if i mod 2 = 0 then noteDuration * 1.33 else noteDuration * 0.67)
               else noteDuration);
          note = (createNote g (midiToNote m) currentBeat (d * 0.9) 0.7)
                   \<lparr>velocity := (if int i < int n - 1 then 0.7 else 0.9)\<rparr>
      in note # turnaroundLoop g noteDuration n rest (i + 1) (currentBeat + d))"

definition generateTurnaround :: "BluesGenerator \<Rightarrow> real \<Rightarrow> real \<Rightarrow> Note list" where
  "generateTurnaround g startBeat lengthBeats =
     (let rootMidi = getRootMidi (key (config g)) 4;
          turnaroundMidis = [rootMidi + 9, rootMidi + 8, rootMidi + 7, rootMidi];
          noteDuration = lengthBeats / real (length turnaroundMidis)
      in turnaroundLoop g noteDuration (length turnaroundMidis) turnaroundMidis 0 startBeat)"

partial_function (option) bluesLoop ::
  "BluesGenerator \<Rightarrow> random \<Rightarrow> real \<Rightarrow> nat \<Rightarrow> real \<Rightarrow> PhraseType \<Rightarrow> (Note list \<times> nat) option" where
  "bluesLoop g rnd totalBeats k currentBeat phraseType =
     (if currentBeat < totalBeats
      then (let remainingBeats = totalBeats - currentBeat
            in if turnaround g \<and> remainingBeats \<le> 4
               then Some (generateTurnaround g currentBeat remainingBeats, k)
               else (let phraseLength = min 4 remainingBeats
                     in case generateBluesPhrase g currentBeat phraseLength phraseType rnd k of
                          None \<Rightarrow> None
                        | Some ph \<Rightarrow>
                            Option.bind
                              (bluesLoop g rnd totalBeats (snd ph) (currentBeat + phraseLength)
                                 (if phraseType = Question then Answering else Question))
                              (\<lambda>r. Some (fst ph @ fst r, snd r))))
      else Some ([], k))"

declare bluesLoop.simps [code]

definition Blues_generate :: "BluesGenerator \<Rightarrow> random \<Rightarrow> nat \<Rightarrow> (GeneratorResult \<times> nat) option" where
  "Blues_generate g rnd k =
     (let totalBeats = lengthBars (config g) * 4
      in case bluesLoop g rnd totalBeats k 0 Question of None \<Rightarrow> None
         | Some (ns, k') \<Rightarrow> Some (\<lparr>notes = ns, algorithm = ''blues''\<rparr>, k'))"

section \<open>Assembly (generators/index.ts)\<close>

datatype Generator =
  GScaleRun ScaleRunGenerator
  | GArpeggio ArpeggioGenerator
  | GMotif MotifGenerator
  | GBebop BebopGenerator
  | GCallResponse CallResponseGenerator
  | GSequence SequenceGenerator
  | GBlues BluesGenerator

text \<open>\<open>createGenerator\<close>: the algorithm tag is a string at run time; the constructors of
  the sequence and blues generators draw.\<close>

definition createGenerator ::
  "string \<Rightarrow> GeneratorConfig \<Rightarrow> random \<Rightarrow> nat \<Rightarrow> (Generator \<times> nat) option" where
  "createGenerator alg cfg rnd k =
     (if alg = ''scale-run'' then map_option (\<lambda>g. (GScaleRun g, k)) (ScaleRunGenerator_new cfg)
      else if alg = ''arpeggio'' then map_option (\<lambda>g. (GArpeggio g, k)) (ArpeggioGenerator_new cfg)
      else if alg = ''motif'' then map_option (\<lambda>g. (GMotif g, k)) (MotifGenerator_new cfg)
      else if alg = ''bebop'' then map_option (\<lambda>g. (GBebop g, k)) (BebopGenerator_new cfg)
      else if alg = ''call-response''
      then map_option (\<lambda>g. (GCallResponse g, k)) (CallResponseGenerator_new cfg)
      else if alg = ''sequence''
      then map_option (\<lambda>gk. (GSequence (fst gk), snd gk)) (SequenceGenerator_new cfg rnd k)
      else if alg = ''blues''
      then map_option (\<lambda>gk. (GBlues (fst gk), snd gk)) (BluesGenerator_new cfg rnd k)
      else map_option (\<lambda>g. (GScaleRun g, k)) (ScaleRunGenerator_new cfg))"

text \<open>The method \<open>generate\<close>, by the generator's class.\<close>

definition generate :: "Generator \<Rightarrow> random \<Rightarrow> nat \<Rightarrow> (GeneratorResult \<times> nat) option" where
  "generate gen rnd k =
     (case gen of
        GScaleRun g \<Rightarrow> ScaleRun_generate g rnd k
      | GArpeggio g \<Rightarrow> Arpeggio_generate g rnd k
      | GMotif g \<Rightarrow> Motif_generate g rnd k
      | GBebop g \<Rightarrow> Bebop_generate g rnd k
      | GCallResponse g \<Rightarrow> CallResponse_generate g rnd k
      | GSequence g \<Rightarrow> Sequence_generate g rnd k
      | GBlues g \<Rightarrow> Blues_generate g rnd k)"

text \<open>
  A valid configuration: positive tempo and length, a scale listed in
  \<open>SCALE_DEFINITIONS\<close>, and a non-empty scale-note list. A velocity within the range
  \<open>[0.3, 1]\<close>.
\<close>

definition validConfig :: "GeneratorConfig \<Rightarrow> bool" where
  "validConfig cfg =
     (0 < tempo cfg \<and> 0 < lengthBars cfg \<and>
      (case SCALE_DEFINITIONS (scale cfg) of Own definition \<Rightarrow> True | _ \<Rightarrow> False) \<and>
      (case getScaleNotes (key cfg) (scale cfg) (octaveRange cfg) of
         Inl e \<Rightarrow> False | Inr sn \<Rightarrow> sn \<noteq> []))"

definition velocityInRange :: "Note \<Rightarrow> bool" where
  "velocityInRange n = (0.3 \<le> velocity n \<and> velocity n \<le> 1)"

text \<open>A run of a method that returns notes, each with a velocity within the range.\<close>

definition returnsInRange :: "(Note list \<times> nat) option \<Rightarrow> bool" where
  "returnsInRange r = (case r of None \<Rightarrow> False | Some (ns, k) \<Rightarrow> list_all velocityInRange ns)"

record Sequence =
  "notes" :: "Note list"
  key :: string
  scale :: string
  tempo :: real
  lengthBars :: real
  algorithm :: string

definition generateLick :: "string \<Rightarrow> GeneratorConfig \<Rightarrow> random \<Rightarrow> nat \<Rightarrow> (Sequence \<times> nat) option" where
  "generateLick alg cfg rnd k =
     (case createGenerator alg cfg rnd k of None \<Rightarrow> None
      | Some gk \<Rightarrow>
         (case generate (fst gk) rnd (snd gk) of None \<Rightarrow> None
          | Some (result, k') \<Rightarrow>
              Some (\<lparr>notes = GeneratorResult.notes result,
                     key = GeneratorConfig.key cfg,
                     scale = GeneratorConfig.scale cfg,
                     tempo = GeneratorConfig.tempo cfg,
                     lengthBars = GeneratorConfig.lengthBars cfg,
                     algorithm = GeneratorResult.algorithm result\<rparr>, k')))"

section \<open>Facts about the conversions and tables\<close>

lemma roundtrip_all: "list_all (\<lambda>m. tonal_midi (midiToNote m) = Some m) [0..127]"
  by code_simp

lemma tonal_midi_midiToNote:
  assumes "0 \<le> m" "m \<le> 127" shows "tonal_midi (midiToNote m) = Some m"
proof -
  have "m \<in> set [0..127]" using assms by (simp only: set_upto atLeastAtMost_iff)
  with roundtrip_all [unfolded list_all_iff] show ?thesis by (rule bspec)
qed

lemma noteToMidi_midiToNote: "0 \<le> m \<Longrightarrow> m \<le> 127 \<Longrightarrow> noteToMidi (midiToNote m) = m"
  by (simp add: noteToMidi_def tonal_midi_midiToNote)

lemma tonal_midi_range: "tonal_midi p = Some m \<Longrightarrow> 0 \<le> m \<and> m \<le> 127"
  by (auto simp: tonal_midi_def Let_def split: option.splits prod.splits if_splits)

lemma noteToMidi_range: "0 \<le> noteToMidi p \<and> noteToMidi p \<le> 127"
  using tonal_midi_range [of p] by (auto simp: noteToMidi_def split: option.splits)

lemma js_rem_mod: "js_rem (js_rem x 12 + 12) 12 = x mod 12"
proof (cases "0 \<le> x")
  case True
  then show ?thesis by (simp add: js_rem_def)
next
  case False
  then have neg: "x < 0" by simp
  have a: "- ((- x) mod 12) + 12 \<ge> 0" using pos_mod_bound [of 12 "- x"] by simp
  have b: "(- ((- x) mod 12) + 12) mod 12 = x mod 12"
    by (metis add.inverse_inverse mod_add_self2 mod_minus_eq)
  show ?thesis using neg a b by (simp add: js_rem_def)
qed

lemma KEYS_roots_all:
  "list_all (\<lambda>ky. list_all (\<lambda>oct. tonal_midi (Some (ky @ show_int oct)) =
      (let h = indexOf KEYS ky + 12 * (oct + 1) in if h \<le> 127 then Some h else None)) [-1..9]) KEYS"
  by code_simp

lemma KEYS_root:
  assumes "ky \<in> set KEYS" "-1 \<le> oct" "oct \<le> 9"
  shows "tonal_midi (Some (ky @ show_int oct)) =
      (let h = indexOf KEYS ky + 12 * (oct + 1) in if h \<le> 127 then Some h else None)"
proof -
  have "oct \<in> set [-1..9]" using assms by (simp only: set_upto atLeastAtMost_iff)
  with KEYS_roots_all [unfolded list_all_iff] assms(1) show ?thesis by blast
qed

lemma indexOf_KEYS: "ky \<in> set KEYS \<Longrightarrow> 0 \<le> indexOf KEYS ky \<and> indexOf KEYS ky \<le> 11"
  by (auto simp: KEYS_def)

lemma table_entries:
  "SCALE_DEFINITIONS s = Own d \<longleftrightarrow> map_of SCALE_ENTRIES s = Some d"
  by (simp add: SCALE_DEFINITIONS_def split: option.splits)

lemma table_intervals:
  "SCALE_DEFINITIONS s = Own d \<Longrightarrow>
     sorted_wrt (<) (intervals d) \<and> (\<forall>i \<in> set (intervals d). 0 \<le> i \<and> i \<le> 11)"
  unfolding table_entries by (auto simp: SCALE_ENTRIES_def split: if_splits)

lemma digits_nonempty: "digits n \<noteq> []"
  by (subst digits.simps) simp

lemma digits_single: "digits n = [c] \<Longrightarrow> n < 10 \<and> c = ''0123456789'' ! n"
  by (subst (asm) digits.simps) (auto simp: digits_nonempty split: if_splits)

lemma digits_four: "digits n = ''4'' \<Longrightarrow> n = 4"
proof -
  assume a: "digits n = ''4''"
  then have n: "n < 10" and c: "''0123456789'' ! n = CHR ''4''"
    using digits_single [of n "CHR ''4''"] by auto
  from n c show ?thesis by (auto simp: eval_nat_numeral less_Suc_eq)
qed

lemma show_int_four: "show_int i = ''4'' \<Longrightarrow> i = 4"
  using digits_four [of "nat i"] by (auto simp: show_int_def split: if_splits)

lemma FLATS_C: "0 \<le> r \<Longrightarrow> r < 12 \<Longrightarrow> FLATS ! nat r @ s = ''C4'' \<Longrightarrow> r = 0 \<and> s = ''4''"
proof -
  assume a: "0 \<le> r" "r < 12" "FLATS ! nat r @ s = ''C4''"
  define k where "k = nat r"
  have k: "k < 12" using a by (simp add: k_def)
  from k a(3) have "k = 0 \<and> s = ''4''"
    unfolding k_def [symmetric] by (auto simp: eval_nat_numeral less_Suc_eq FLATS_def)
  with a(1) show ?thesis by (simp add: k_def)
qed

lemma js_rem_bounds: "js_rem a 12 < 12"
proof (cases "0 \<le> a")
  case True
  then show ?thesis by (simp add: js_rem_def)
next
  case False
  have "0 \<le> (- a) mod 12" by simp
  with False show ?thesis by (simp add: js_rem_def)
qed

lemma midiToNote_60: "midiToNote 60 = Some ''C4''"
  by code_simp

lemma midiToNote_C4: "midiToNote m = Some ''C4'' \<longleftrightarrow> m = 60"
proof
  assume "m = 60"
  then show "midiToNote m = Some ''C4''" by (simp add: midiToNote_60)
next
  assume a: "midiToNote m = Some ''C4''"
  define r where "r = js_rem m 12"
  from a have r0: "0 \<le> r" and s: "FLATS ! nat r @ show_int (m div 12 - 1) = ''C4''"
    by (auto simp: midiToNote_def tonal_fromMidi_def Let_def r_def split: if_splits)
  have "r < 12" unfolding r_def by (rule js_rem_bounds)
  from FLATS_C [OF r0 this s] have r: "r = 0" and o: "show_int (m div 12 - 1) = ''4''" by auto
  from show_int_four [OF o] have d: "m div 12 = 5" by simp
  have pos: "0 \<le> m"
  proof (rule ccontr)
    assume "\<not> 0 \<le> m"
    then have "m div 12 < 0" by (simp add: div_neg_pos_less0)
    with d show False by simp
  qed
  with r have "m mod 12 = 0" by (simp add: r_def js_rem_def)
  with d show "m = 60" by presburger
qed

lemma no_letter_root:
  assumes "ky \<noteq> []" "\<not> isLetter (hd ky)"
  shows "getRootMidi ky octave = 60"
proof -
  obtain c cs where k: "ky = c # cs" using assms(1) by (cases ky) auto
  with assms(2) have "\<not> isLetter c" by simp
  then have "fst (tokenizeNote (ky @ show_int octave)) = []"
    by (simp add: tokenizeNote_def k Let_def)
  then have "tonal_midi (Some (ky @ show_int octave)) = None"
    by (cases "tokenizeNote (ky @ show_int octave)") (simp add: tonal_midi_def)
  then show ?thesis by (simp add: getRootMidi_def noteToMidi_def)
qed

lemma indexOf_absent: "x \<notin> set xs \<Longrightarrow> indexOf xs x = -1"
  by (induction xs) (auto simp: Let_def)

lemma indexOf_present:
  "x \<in> set xs \<Longrightarrow> \<exists>i < length xs. indexOf xs x = int i \<and> xs ! i = x \<and> (\<forall>j < i. xs ! j \<noteq> x)"
proof (induction xs)
  case Nil
  then show ?case by simp
next
  case (Cons y ys)
  show ?case
  proof (cases "y = x")
    case True
    then show ?thesis by (intro exI [of _ 0]) simp
  next
    case False
    with Cons.prems have "x \<in> set ys" by simp
    from Cons.IH [OF this] obtain i where i: "i < length ys" "indexOf ys x = int i" "ys ! i = x"
      "\<forall>j < i. ys ! j \<noteq> x" by blast
    have "\<forall>j < Suc i. (y # ys) ! j \<noteq> x"
      using False i(4) by (auto simp: nth_Cons split: nat.splits)
    with i False show ?thesis by (intro exI [of _ "Suc i"]) (simp add: Let_def)
  qed
qed

lemma sorted_blocks:
  fixes B :: "int \<Rightarrow> int list"
  assumes "\<And>oct. lo \<le> oct \<Longrightarrow> oct \<le> hi \<Longrightarrow>
     sorted_wrt (<) (B oct) \<and> (\<forall>x \<in> set (B oct). c + 12 * oct \<le> x \<and> x < c + 12 * oct + 12)"
  shows "sorted_wrt (<) (concat (map B [lo..hi]))"
  using assms
proof (induction "nat (hi - lo + 1)" arbitrary: lo)
  case 0
  then show ?case by simp
next
  case (Suc n)
  then have le: "lo \<le> hi" by linarith
  have n: "n = nat (hi - (lo + 1) + 1)" using Suc.hyps(2) by linarith
  have rest: "sorted_wrt (<) (concat (map B [lo + 1..hi]))"
    by (rule Suc.hyps(1) [OF n]) (use Suc.prems in auto)
  have here: "sorted_wrt (<) (B lo)" using Suc.prems [of lo] le by simp
  have cross: "x < y" if "x \<in> set (B lo)" "y \<in> set (concat (map B [lo + 1..hi]))" for x y
  proof -
    from that(2) obtain oct where o: "lo + 1 \<le> oct" "oct \<le> hi" "y \<in> set (B oct)" by auto
    have "x < c + 12 * lo + 12" using Suc.prems [of lo] le that(1) by simp
    moreover have "c + 12 * oct \<le> y" using Suc.prems [of oct] o by simp
    ultimately show ?thesis using o(1) by arith
  qed
  have "[lo..hi] = lo # [lo + 1..hi]" using le by (simp add: upto_rec1)
  then show ?case using rest here cross by (simp add: sorted_wrt_append)
qed

lemma sorted_shift_filter:
  "sorted_wrt (<) (xs :: int list) \<Longrightarrow> sorted_wrt (<) (filter P (map (\<lambda>i. r + i) xs))"
  by (induction xs) auto

lemma getScaleNotes_Own:
  assumes "SCALE_DEFINITIONS scaleName = Own d"
  shows "getScaleNotes ky scaleName (lo, hi) =
     Inr (concat (map (\<lambda>octave. map midiToNote (filter (\<lambda>midi. 0 \<le> midi \<and> midi \<le> 127)
        (map (\<lambda>interval. getRootMidi ky octave + interval) (intervals d)))) [lo..hi]))"
  using assms by (simp add: getScaleNotes_def getScaleNotes_in_def)

lemma getScaleNotes_midis:
  assumes "SCALE_DEFINITIONS scaleName = Own d" "getScaleNotes ky scaleName (lo, hi) = Inr sn"
  shows "map noteToMidi sn =
     concat (map (\<lambda>octave. filter (\<lambda>midi. 0 \<le> midi \<and> midi \<le> 127)
        (map (\<lambda>interval. getRootMidi ky octave + interval) (intervals d))) [lo..hi])"
proof -
  have "map noteToMidi (map midiToNote (filter (\<lambda>midi. 0 \<le> midi \<and> midi \<le> 127) xs)) =
        filter (\<lambda>midi. 0 \<le> midi \<and> midi \<le> 127) xs" for xs
    by (induction xs) (auto simp: noteToMidi_midiToNote)
  then show ?thesis
    using assms(2) unfolding getScaleNotes_Own [OF assms(1)]
    by (auto simp: map_concat comp_def)
qed

lemma getScaleNotes_sorted:
  assumes ky: "ky \<in> set KEYS" and d: "SCALE_DEFINITIONS scaleName = Own d"
    and lo: "-1 \<le> lo" and hi: "hi \<le> 9"
    and top: "tonal_midi (Some (ky @ show_int hi)) \<noteq> None"
    and sn: "getScaleNotes ky scaleName (lo, hi) = Inr sn"
  shows "sorted_wrt (<) (map noteToMidi sn)"
proof (cases "lo \<le> hi")
  case False
  then show ?thesis by (simp add: getScaleNotes_midis [OF d sn])
next
  case True
  define c where "c = indexOf KEYS ky + 12"
  have toph: "indexOf KEYS ky + 12 * (hi + 1) \<le> 127"
    using top KEYS_root [OF ky, of hi] lo hi True by (auto simp: Let_def split: if_splits)
  have root: "getRootMidi ky oct = c + 12 * oct" if "lo \<le> oct" "oct \<le> hi" for oct
  proof -
    have "indexOf KEYS ky + 12 * (oct + 1) \<le> 127" using toph that by arith
    then show ?thesis
      using KEYS_root [OF ky, of oct] that lo hi
      by (simp add: getRootMidi_def noteToMidi_def Let_def c_def)
  qed
  have blocks: "sorted_wrt (<) (concat (map (\<lambda>octave. filter (\<lambda>midi. 0 \<le> midi \<and> midi \<le> 127)
        (map (\<lambda>interval. getRootMidi ky octave + interval) (intervals d))) [lo..hi]))"
  proof (rule sorted_blocks [where c = c], intro conjI ballI)
    fix oct assume o: "lo \<le> oct" "oct \<le> hi"
    have s: "sorted_wrt (<) (intervals d)" using table_intervals [OF d] by simp
    show "sorted_wrt (<) (filter (\<lambda>midi. 0 \<le> midi \<and> midi \<le> 127)
            (map (\<lambda>interval. getRootMidi ky oct + interval) (intervals d)))"
      by (rule sorted_shift_filter [OF s])
    fix x assume "x \<in> set (filter (\<lambda>midi. 0 \<le> midi \<and> midi \<le> 127)
            (map (\<lambda>interval. getRootMidi ky oct + interval) (intervals d)))"
    then obtain i where i: "i \<in> set (intervals d)" "x = getRootMidi ky oct + i" by auto
    have "0 \<le> i \<and> i \<le> 11" using table_intervals [OF d] i(1) by blast
    then show "c + 12 * oct \<le> x" "x < c + 12 * oct + 12" using i(2) root [OF o] by simp_all
  qed
  show ?thesis by (simp add: getScaleNotes_midis [OF d sn] blocks)
qed

lemma getScaleNotes_clipped:
  assumes "getScaleNotes ky scaleName (lo, hi) = Inr sn" "n \<in> set sn"
  shows "\<exists>m. 0 \<le> m \<and> m \<le> 127 \<and> n = midiToNote m \<and> tonal_midi n = Some m"
proof (cases "SCALE_DEFINITIONS scaleName")
  case Absent
  with assms show ?thesis by (simp add: getScaleNotes_def getScaleNotes_in_def)
next
  case Inherited
  with assms show ?thesis by (simp add: getScaleNotes_def getScaleNotes_in_def split: if_splits)
next
  case (Own d)
  from assms obtain m where "0 \<le> m" "m \<le> 127" "n = midiToNote m"
    unfolding getScaleNotes_Own [OF Own] by auto
  then show ?thesis using tonal_midi_midiToNote [of m] by blast
qed

section \<open>Pitch conversion and the middle-C fallback\<close>

text \<open>
  Claim C10. \<open>midiToNote\<close> is \<open>TonalNote.fromMidi(midi) ?? 'C4'\<close>, and the claim has it
  return \<open>'C4'\<close> for a MIDI number without a note name. At the number \<open>-1\<close> the library
  answers the number \<open>NaN\<close>, which \<open>??\<close> lets through: \<open>midiToNote(-1)\<close> is no string,
  and not \<open>'C4'\<close>. At 128, outside the MIDI range, the result is \<open>'Ab9'\<close>, a name that
  is no MIDI pitch.
\<close>

theorem midiToNote_minus_one:
  "tonal_fromMidi (- 1) = JNaN \<and> midiToNote (- 1) = None \<and> midiToNote (- 1) \<noteq> Some ''C4'' \<and>
   midiToNote 128 = Some ''Ab9'' \<and> tonal_midi (Some ''Ab9'') = None"
  by code_simp

section \<open>The scale table\<close>

text \<open>
  What holds of every table that \<open>getScaleNotes\<close> returns: each note is the name of a MIDI
  number within 0..127 and reads back as that number. For each of the twelve \<open>KEYS\<close>,
  each listed scale and each octave range within \<open>-1..9\<close> whose top root is a MIDI
  pitch, the MIDI numbers are strictly ascending.
\<close>

lemma getScaleNotes_in_range:
  assumes "getScaleNotes ky scaleName (lo, hi) = Inr sn"
  shows "(\<forall>n \<in> set sn. \<exists>m. 0 \<le> m \<and> m \<le> 127 \<and> n = midiToNote m \<and> tonal_midi n = Some m) \<and>
   (ky \<in> set KEYS \<and> (\<exists>d. SCALE_DEFINITIONS scaleName = Own d) \<and> - 1 \<le> lo \<and> hi \<le> 9 \<and>
    tonal_midi (Some (ky @ show_int hi)) \<noteq> None \<longrightarrow>
      sorted_wrt (<) (map noteToMidi sn))"
proof (intro conjI ballI impI)
  fix n assume "n \<in> set sn"
  with assms show "\<exists>m. 0 \<le> m \<and> m \<le> 127 \<and> n = midiToNote m \<and> tonal_midi n = Some m"
    by (rule getScaleNotes_clipped)
next
  assume a: "ky \<in> set KEYS \<and> (\<exists>d. SCALE_DEFINITIONS scaleName = Own d) \<and> - 1 \<le> lo \<and> hi \<le> 9 \<and>
    tonal_midi (Some (ky @ show_int hi)) \<noteq> None"
  then obtain d where "SCALE_DEFINITIONS scaleName = Own d" by blast
  with a assms show "sorted_wrt (<) (map noteToMidi sn)"
    by (intro getScaleNotes_sorted [of ky scaleName d lo hi sn]) simp_all
qed

text \<open>
  Claim C4. \<open>getScaleNotes("C", "major", [4,4])\<close> is the list C4, D4, E4, F4, G4, A4, B4,
  and C4 is MIDI 60. For the key C, the listed scale \<open>major\<close> and the octave range
  \<open>[9, 10]\<close> the table is not ascending: the name \<open>C10\<close> is no MIDI pitch, so the root
  of octave 10 is the fallback 60 of \<open>noteToMidi\<close>, and the notes C4 to B4 follow the five
  notes of octave 9 that the clip at 127 lets through.
\<close>

theorem getScaleNotes_octave_10:
  "getScaleNotes ''C'' ''major'' (4, 4) =
     Inr [Some ''C4'', Some ''D4'', Some ''E4'', Some ''F4'', Some ''G4'', Some ''A4'', Some ''B4''] \<and>
   noteToMidi (Some ''C4'') = 60 \<and>
   tonal_midi (Some ''C10'') = None \<and> getRootMidi ''C'' 10 = 60 \<and>
   getScaleNotes ''C'' ''major'' (9, 10) =
     Inr [Some ''C9'', Some ''D9'', Some ''E9'', Some ''F9'', Some ''G9'',
          Some ''C4'', Some ''D4'', Some ''E4'', Some ''F4'', Some ''G4'', Some ''A4'', Some ''B4''] \<and>
   map noteToMidi [Some ''C9'', Some ''D9'', Some ''E9'', Some ''F9'', Some ''G9'',
          Some ''C4'', Some ''D4'', Some ''E4'', Some ''F4'', Some ''G4'', Some ''A4'', Some ''B4''] =
     [120, 122, 124, 125, 127, 60, 62, 64, 65, 67, 69, 71] \<and>
   \<not> sorted_wrt (<) [120, 122, 124, 125, 127, 60, 62, 64, 65, 67, 69, 71 :: int]"
proof -
  have a: "getScaleNotes ''C'' ''major'' (4, 4) =
     Inr [Some ''C4'', Some ''D4'', Some ''E4'', Some ''F4'', Some ''G4'', Some ''A4'', Some ''B4'']"
    by code_simp
  have b: "noteToMidi (Some ''C4'') = 60" by code_simp
  have c: "tonal_midi (Some ''C10'') = None" by code_simp
  have d: "getRootMidi ''C'' 10 = 60" by code_simp
  have e: "getScaleNotes ''C'' ''major'' (9, 10) =
     Inr [Some ''C9'', Some ''D9'', Some ''E9'', Some ''F9'', Some ''G9'',
          Some ''C4'', Some ''D4'', Some ''E4'', Some ''F4'', Some ''G4'', Some ''A4'', Some ''B4'']"
    by code_simp
  have f: "map noteToMidi [Some ''C9'', Some ''D9'', Some ''E9'', Some ''F9'', Some ''G9'',
          Some ''C4'', Some ''D4'', Some ''E4'', Some ''F4'', Some ''G4'', Some ''A4'', Some ''B4''] =
     [120, 122, 124, 125, 127, 60, 62, 64, 65, 67, 69, 71]"
    by code_simp
  have g: "\<not> sorted_wrt (<) [120, 122, 124, 125, 127, 60, 62, 64, 65, 67, 69, 71 :: int]" by simp
  show ?thesis using a b c d e f g by (intro conjI)
qed

section \<open>Scale degrees and chord tones\<close>

text \<open>
  Claim C7, as amended. For a listed scale, let the interval of a pitch be its MIDI
  distance from the key's root modulo 12. When the interval is one of the scale's
  intervals, \<open>getScaleDegree\<close> returns the 1-indexed position of its first occurrence;
  when it is not, the result is \<open>null\<close>: the match is exact, and no nearest degree is
  looked for. \<open>isChordTone\<close> holds exactly when a degree is returned and the scale's
  chord tones list it.
\<close>

theorem getScaleDegree_exact:
  assumes "SCALE_DEFINITIONS scaleName = Own d"
  shows "(let interval = (noteToMidi note - noteToMidi (Some (ky @ ''0''))) mod 12 in
      (interval \<notin> set (intervals d) \<longrightarrow> getScaleDegree note ky scaleName = Inr None) \<and>
      (interval \<in> set (intervals d) \<longrightarrow>
         (\<exists>i < length (intervals d).
            getScaleDegree note ky scaleName = Inr (Some (int i + 1)) \<and>
            intervals d ! i = interval \<and> (\<forall>j < i. intervals d ! j \<noteq> interval)))) \<and>
    isChordTone note ky scaleName =
       Inr (\<exists>degree. getScaleDegree note ky scaleName = Inr (Some degree) \<and>
              degree \<in> set (ScaleDefinition.chordTones d))"
proof -
  define interval where "interval = (noteToMidi note - noteToMidi (Some (ky @ ''0''))) mod 12"
  have g: "getScaleDegree note ky scaleName =
     Inr (if 0 \<le> indexOf (intervals d) interval then Some (indexOf (intervals d) interval + 1) else None)"
    using assms by (simp add: getScaleDegree_def getScaleDegree_in_def Let_def js_rem_mod interval_def)
  have absent: "getScaleDegree note ky scaleName = Inr None" if "interval \<notin> set (intervals d)"
    using indexOf_absent [OF that] g by simp
  have present: "\<exists>i < length (intervals d).
            getScaleDegree note ky scaleName = Inr (Some (int i + 1)) \<and>
            intervals d ! i = interval \<and> (\<forall>j < i. intervals d ! j \<noteq> interval)"
    if "interval \<in> set (intervals d)"
  proof -
    from indexOf_present [OF that] obtain i where i: "i < length (intervals d)"
      "indexOf (intervals d) interval = int i" "intervals d ! i = interval"
      "\<forall>j < i. intervals d ! j \<noteq> interval" by blast
    then show ?thesis using g by (intro exI [of _ i]) simp
  qed
  have pos: "degree \<noteq> 0" if "getScaleDegree note ky scaleName = Inr (Some degree)" for degree
    using that g by (auto split: if_splits)
  have chord: "isChordTone note ky scaleName =
       Inr (\<exists>degree. getScaleDegree note ky scaleName = Inr (Some degree) \<and>
              degree \<in> set (ScaleDefinition.chordTones d))"
    using assms pos g
    by (auto simp: isChordTone_def isChordTone_in_def getScaleDegree_def
          split: option.splits sum.splits if_splits)
  show ?thesis
    unfolding Let_def interval_def [symmetric] using absent present chord by blast
qed

theorem getScaleDegree_exact_witness:
  "SCALE_DEFINITIONS ''major'' =
     Own \<lparr>ScaleDefinition.name = ''Major'', intervals = [0, 2, 4, 5, 7, 9, 11],
          ScaleDefinition.chordTones = [1, 3, 5, 7]\<rparr> \<and>
   getScaleDegree (Some ''E4'') ''C'' ''major'' = Inr (Some 3) \<and>
   isChordTone (Some ''E4'') ''C'' ''major'' = Inr True \<and>
   getScaleDegree (Some ''F4'') ''C'' ''major'' = Inr (Some 4) \<and>
   isChordTone (Some ''F4'') ''C'' ''major'' = Inr False"
proof -
  have d: "SCALE_DEFINITIONS ''major'' =
     Own \<lparr>ScaleDefinition.name = ''Major'', intervals = [0, 2, 4, 5, 7, 9, 11],
          ScaleDefinition.chordTones = [1, 3, 5, 7]\<rparr>"
    by (simp add: SCALE_DEFINITIONS_def SCALE_ENTRIES_def)
  have e: "getScaleDegree (Some ''E4'') ''C'' ''major'' = Inr (Some 3)" by code_simp
  have f: "getScaleDegree (Some ''F4'') ''C'' ''major'' = Inr (Some 4)" by code_simp
  show ?thesis
    using getScaleDegree_exact [OF d, of "Some ''E4''" "''C''"]
      getScaleDegree_exact [OF d, of "Some ''F4''" "''C''"] d e f
    by simp
qed

text \<open>
  Against C7 as stated: D flat 4 in C major is a pitch for which no degree is returned,
  neither an exact nor a nearest one.
\<close>

theorem getScaleDegree_total_counterexample:
  "SCALE_DEFINITIONS ''major'' \<noteq> Absent \<and> SCALE_DEFINITIONS ''major'' \<noteq> Inherited \<and>
   noteToMidi (Some ''Db4'') = 61 \<and>
   getScaleDegree (Some ''Db4'') ''C'' ''major'' = Inr None"
proof -
  have a: "SCALE_DEFINITIONS ''major'' \<noteq> Absent \<and> SCALE_DEFINITIONS ''major'' \<noteq> Inherited"
    by (simp add: SCALE_DEFINITIONS_def SCALE_ENTRIES_def)
  have b: "noteToMidi (Some ''Db4'') = 61" by code_simp
  have c: "getScaleDegree (Some ''Db4'') ''C'' ''major'' = Inr None" by code_simp
  show ?thesis using a b c by simp
qed

section \<open>The closest scale note\<close>

lemma closestIndexLoop_Some:
  "(closestIndexLoop xs t i ci (Some cd) = ci \<and> (\<forall>x \<in> set xs. cd \<le> \<bar>noteToMidi x - t\<bar>)) \<or>
   (\<exists>k < length xs. closestIndexLoop xs t i ci (Some cd) = i + int k \<and>
       \<bar>noteToMidi (xs ! k) - t\<bar> < cd \<and>
       (\<forall>j < length xs. \<bar>noteToMidi (xs ! k) - t\<bar> \<le> \<bar>noteToMidi (xs ! j) - t\<bar>) \<and>
       (\<forall>j < k. \<bar>noteToMidi (xs ! k) - t\<bar> < \<bar>noteToMidi (xs ! j) - t\<bar>))"
proof (induction xs arbitrary: i ci cd)
  case Nil
  then show ?case by simp
next
  case (Cons x xs)
  define dx where "dx = \<bar>noteToMidi x - t\<bar>"
  show ?case
  proof (cases "dx < cd")
    case True
    then have step: "closestIndexLoop (x # xs) t i ci (Some cd) = closestIndexLoop xs t (i + 1) i (Some dx)"
      by (simp add: lessInf_def dx_def)
    from Cons.IH [of "i + 1" i dx] show ?thesis
    proof (elim disjE conjE exE)
      assume a: "closestIndexLoop xs t (i + 1) i (Some dx) = i" "\<forall>y \<in> set xs. dx \<le> \<bar>noteToMidi y - t\<bar>"
      have "\<forall>j < length (x # xs). \<bar>noteToMidi ((x # xs) ! 0) - t\<bar> \<le> \<bar>noteToMidi ((x # xs) ! j) - t\<bar>"
        using a(2) by (auto simp: nth_Cons dx_def split: nat.splits)
      then show ?thesis using True step a(1) unfolding dx_def
        by (intro disjI2 exI [of _ 0]) simp
    next
      fix k assume k: "k < length xs" "closestIndexLoop xs t (i + 1) i (Some dx) = i + 1 + int k"
        "\<bar>noteToMidi (xs ! k) - t\<bar> < dx"
        "\<forall>j < length xs. \<bar>noteToMidi (xs ! k) - t\<bar> \<le> \<bar>noteToMidi (xs ! j) - t\<bar>"
        "\<forall>j < k. \<bar>noteToMidi (xs ! k) - t\<bar> < \<bar>noteToMidi (xs ! j) - t\<bar>"
      have m: "\<forall>j < length (x # xs). \<bar>noteToMidi ((x # xs) ! Suc k) - t\<bar> \<le> \<bar>noteToMidi ((x # xs) ! j) - t\<bar>"
        using k(3,4) by (auto simp: nth_Cons dx_def split: nat.splits)
      have f: "\<forall>j < Suc k. \<bar>noteToMidi ((x # xs) ! Suc k) - t\<bar> < \<bar>noteToMidi ((x # xs) ! j) - t\<bar>"
        using k(3,5) by (auto simp: nth_Cons dx_def split: nat.splits)
      show ?thesis using True step k(1,2,3) m f
        by (intro disjI2 exI [of _ "Suc k"]) simp
    qed
  next
    case False
    then have step: "closestIndexLoop (x # xs) t i ci (Some cd) = closestIndexLoop xs t (i + 1) ci (Some cd)"
      by (simp add: lessInf_def dx_def)
    from Cons.IH [of "i + 1" ci cd] show ?thesis
    proof (elim disjE conjE exE)
      assume a: "closestIndexLoop xs t (i + 1) ci (Some cd) = ci" "\<forall>y \<in> set xs. cd \<le> \<bar>noteToMidi y - t\<bar>"
      then show ?thesis using False step unfolding dx_def by (intro disjI1) simp
    next
      fix k assume k: "k < length xs" "closestIndexLoop xs t (i + 1) ci (Some cd) = i + 1 + int k"
        "\<bar>noteToMidi (xs ! k) - t\<bar> < cd"
        "\<forall>j < length xs. \<bar>noteToMidi (xs ! k) - t\<bar> \<le> \<bar>noteToMidi (xs ! j) - t\<bar>"
        "\<forall>j < k. \<bar>noteToMidi (xs ! k) - t\<bar> < \<bar>noteToMidi (xs ! j) - t\<bar>"
      have m: "\<forall>j < length (x # xs). \<bar>noteToMidi ((x # xs) ! Suc k) - t\<bar> \<le> \<bar>noteToMidi ((x # xs) ! j) - t\<bar>"
        using k(3,4) False by (auto simp: nth_Cons dx_def split: nat.splits)
      have f: "\<forall>j < Suc k. \<bar>noteToMidi ((x # xs) ! Suc k) - t\<bar> < \<bar>noteToMidi ((x # xs) ! j) - t\<bar>"
        using k(3,5) False by (auto simp: nth_Cons dx_def split: nat.splits)
      show ?thesis using step k(1,2,3) m f
        by (intro disjI2 exI [of _ "Suc k"]) simp
    qed
  qed
qed

lemma closestIndexLoop_first_min:
  assumes "xs \<noteq> []"
  shows "\<exists>k < length xs. closestIndexLoop xs t 0 0 None = int k \<and>
       (\<forall>j < length xs. \<bar>noteToMidi (xs ! k) - t\<bar> \<le> \<bar>noteToMidi (xs ! j) - t\<bar>) \<and>
       (\<forall>j < k. \<bar>noteToMidi (xs ! k) - t\<bar> < \<bar>noteToMidi (xs ! j) - t\<bar>)"
proof -
  obtain x ys where xs: "xs = x # ys" using assms by (cases xs) auto
  define dx where "dx = \<bar>noteToMidi x - t\<bar>"
  have step: "closestIndexLoop xs t 0 0 None = closestIndexLoop ys t 1 0 (Some dx)"
    by (simp add: xs lessInf_def dx_def)
  from closestIndexLoop_Some [of ys t 1 0 dx] show ?thesis
  proof (elim disjE conjE exE)
    assume a: "closestIndexLoop ys t 1 0 (Some dx) = 0" "\<forall>y \<in> set ys. dx \<le> \<bar>noteToMidi y - t\<bar>"
    have "\<forall>j < length xs. \<bar>noteToMidi (xs ! 0) - t\<bar> \<le> \<bar>noteToMidi (xs ! j) - t\<bar>"
      using a(2) by (auto simp: xs nth_Cons dx_def split: nat.splits)
    then show ?thesis using step a(1) by (intro exI [of _ 0]) (simp add: xs)
  next
    fix k assume k: "k < length ys" "closestIndexLoop ys t 1 0 (Some dx) = 1 + int k"
      "\<bar>noteToMidi (ys ! k) - t\<bar> < dx"
      "\<forall>j < length ys. \<bar>noteToMidi (ys ! k) - t\<bar> \<le> \<bar>noteToMidi (ys ! j) - t\<bar>"
      "\<forall>j < k. \<bar>noteToMidi (ys ! k) - t\<bar> < \<bar>noteToMidi (ys ! j) - t\<bar>"
    have m: "\<forall>j < length xs. \<bar>noteToMidi (xs ! Suc k) - t\<bar> \<le> \<bar>noteToMidi (xs ! j) - t\<bar>"
      using k(3,4) by (auto simp: xs nth_Cons dx_def split: nat.splits)
    have f: "\<forall>j < Suc k. \<bar>noteToMidi (xs ! Suc k) - t\<bar> < \<bar>noteToMidi (xs ! j) - t\<bar>"
      using k(3,5) by (auto simp: xs nth_Cons dx_def split: nat.splits)
    show ?thesis using step k(1,2) m f by (intro exI [of _ "Suc k"]) (simp add: xs)
  qed
qed

lemma closestLoop_index:
  "closestLoop xs t (all ! nat ci) cd =
     all ! nat (closestIndexLoop xs t (int (length pre)) ci cd)"
  if "all = pre @ xs" for pre
  using that
proof (induction xs arbitrary: pre ci cd)
  case Nil
  then show ?case by simp
next
  case (Cons x xs)
  have all: "all = (pre @ [x]) @ xs" using Cons.prems by simp
  have x: "all ! nat (int (length pre)) = x" using Cons.prems by simp
  have l: "int (length (pre @ [x])) = int (length pre) + 1" by simp
  show ?case
    using Cons.IH [OF all, of "int (length pre)" "Some \<bar>noteToMidi x - t\<bar>"] Cons.IH [OF all, of ci cd]
    unfolding l x by (simp add: Let_def)
qed

lemma findClosestScaleNote_index:
  "sn \<noteq> [] \<Longrightarrow>
   findClosestScaleNote sn t = sn ! nat (closestIndexLoop sn t 0 0 None)"
  using closestLoop_index [of sn "[]" sn t 0 None]
  by (simp add: findClosestScaleNote_def js_at_def)

text \<open>
  Claim C8. For a non-empty scale-note list and any target MIDI number,
  \<open>findClosestScaleNote\<close> returns the note at the first index whose MIDI distance to
  the target is the least of the list. The search in the fallback branch of
  \<open>getNeighboringNotes\<close> (the note is not in the scale) finds the same first closest
  index, and the function returns the notes just below and above it.
\<close>

theorem closest_scale_note:
  assumes "sn \<noteq> []"
  shows "\<exists>k < length sn.
     findClosestScaleNote sn targetMidi = sn ! k \<and>
     (\<forall>j < length sn.
        \<bar>noteToMidi (sn ! k) - targetMidi\<bar> \<le> \<bar>noteToMidi (sn ! j) - targetMidi\<bar>) \<and>
     (\<forall>j < k.
        \<bar>noteToMidi (sn ! k) - targetMidi\<bar> < \<bar>noteToMidi (sn ! j) - targetMidi\<bar>) \<and>
     (getScaleNotes ky scaleName octs = Inr sn \<and> note \<notin> set sn \<and>
      targetMidi = noteToMidi note \<longrightarrow>
        getNeighboringNotes note ky scaleName octs =
          Inr (if 0 < k then sn ! (k - 1) else None,
               if k + 1 < length sn then sn ! (k + 1) else None))"
proof -
  from closestIndexLoop_first_min [OF assms, of targetMidi] obtain k where k:
    "k < length sn" "closestIndexLoop sn targetMidi 0 0 None = int k"
    "\<forall>j < length sn.
        \<bar>noteToMidi (sn ! k) - targetMidi\<bar> \<le> \<bar>noteToMidi (sn ! j) - targetMidi\<bar>"
    "\<forall>j < k. \<bar>noteToMidi (sn ! k) - targetMidi\<bar> < \<bar>noteToMidi (sn ! j) - targetMidi\<bar>"
    by blast
  have c: "findClosestScaleNote sn targetMidi = sn ! k"
    using findClosestScaleNote_index [OF assms, of targetMidi] k(2) by simp
  have n: "getNeighboringNotes note ky scaleName octs =
          Inr (if 0 < k then sn ! (k - 1) else None,
               if k + 1 < length sn then sn ! (k + 1) else None)"
    if "getScaleNotes ky scaleName octs = Inr sn" "note \<notin> set sn"
      "targetMidi = noteToMidi note"
  proof -
    have i: "indexOf sn note = - 1"
      using indexOf_absent that(2) by metis
    have below: "0 < k \<Longrightarrow> js_at sn (int k - 1) = sn ! (k - 1)"
      using k(1) by (simp add: js_at_def nat_diff_distrib')
    have above: "k + 1 < length sn \<Longrightarrow> js_at sn (int k + 1) = sn ! (k + 1)"
      by (simp add: js_at_def nat_add_distrib)
    have lt: "int k < int (length sn) - 1 \<longleftrightarrow> k + 1 < length sn" by linarith
    show ?thesis
      using i k(2) below above lt that(1,3)
      by (simp add: getNeighboringNotes_def Let_def)
  qed
  show ?thesis using k(1,3,4) c n by blast
qed

theorem closest_scale_note_witness:
  "[Some ''C4'', Some ''E4'', Some ''G4''] \<noteq> [] \<and>
   (\<exists>k < length [Some ''C4'', Some ''E4'', Some ''G4''].
      findClosestScaleNote [Some ''C4'', Some ''E4'', Some ''G4''] 62 =
        [Some ''C4'', Some ''E4'', Some ''G4''] ! k) \<and>
   findClosestScaleNote [Some ''C4'', Some ''E4'', Some ''G4''] 62 = Some ''C4'' \<and>
   findClosestScaleNote [Some ''C4'', Some ''E4'', Some ''G4''] 66 = Some ''G4'' \<and>
   getScaleNotes ''C'' ''major'' (4, 4) =
     Inr [Some ''C4'', Some ''D4'', Some ''E4'', Some ''F4'', Some ''G4'', Some ''A4'', Some ''B4''] \<and>
   getNeighboringNotes (Some ''Db4'') ''C'' ''major'' (4, 4) = Inr (None, Some ''D4'')"
proof -
  have a: "findClosestScaleNote [Some ''C4'', Some ''E4'', Some ''G4''] 62 = Some ''C4''" by code_simp
  have b: "findClosestScaleNote [Some ''C4'', Some ''E4'', Some ''G4''] 66 = Some ''G4''" by code_simp
  have c: "getScaleNotes ''C'' ''major'' (4, 4) =
     Inr [Some ''C4'', Some ''D4'', Some ''E4'', Some ''F4'', Some ''G4'', Some ''A4'', Some ''B4'']"
    by code_simp
  have d: "getNeighboringNotes (Some ''Db4'') ''C'' ''major'' (4, 4) = Inr (None, Some ''D4'')"
    by code_simp
  have ne: "[Some ''C4'', Some ''E4'', Some ''G4''] \<noteq> []" by simp
  from closest_scale_note [OF ne, of 62 "''C''" "''major''" "(4, 4)" "Some ''Db4''"]
  have e: "\<exists>k < length [Some ''C4'', Some ''E4'', Some ''G4''].
      findClosestScaleNote [Some ''C4'', Some ''E4'', Some ''G4''] 62 =
        [Some ''C4'', Some ''E4'', Some ''G4''] ! k" by blast
  show ?thesis using a b c d e ne by (intro conjI)
qed

section \<open>The rhythm plan\<close>

lemma adjustments_bounds:
  assumes "0 \<le> (r::real)" "r < 1"
  shows "1 / 2 \<le> adjustments ! nat \<lfloor>r * 5\<rfloor> \<and> adjustments ! nat \<lfloor>r * 5\<rfloor> \<le> 2"
proof -
  have "0 \<le> \<lfloor>r * 5\<rfloor>" using assms by simp
  moreover have "\<lfloor>r * 5\<rfloor> < 5" using assms by (simp add: floor_less_iff)
  ultimately have "nat \<lfloor>r * 5\<rfloor> < 5" by linarith
  then show ?thesis
    by (auto simp: adjustments_def eval_nat_numeral less_Suc_eq)
qed

lemma rhythmLoop_done:
  "\<not> currentBeat < totalBeats \<Longrightarrow>
   rhythmLoop totalBeats pat variation rnd k currentBeat patternIndex = Some ([], k)"
  by (subst rhythmLoop.simps) simp

lemma rhythmLoop_empty:
  "currentBeat < totalBeats \<Longrightarrow>
   rhythmLoop totalBeats [] variation rnd k currentBeat patternIndex = None"
  by (subst rhythmLoop.simps) simp

lemma rhythmLoop_returns:
  assumes pat: "pat \<noteq> []" "\<forall>d \<in> set pat. 0 < d" and rnd: "draws rnd"
  shows "currentBeat \<le> totalBeats \<Longrightarrow>
     \<exists>ds k'. rhythmLoop totalBeats pat variation rnd k currentBeat patternIndex = Some (ds, k') \<and>
        (\<forall>d \<in> set ds. 0 < d) \<and> sum_list ds = totalBeats - currentBeat"
proof -
  define m where "m = Min (set pat) / 2"
  have m0: "0 < m" using pat by (simp add: m_def)
  have mle: "2 * m \<le> d" if "d \<in> set pat" for d
    using that by (simp add: m_def)
  show "currentBeat \<le> totalBeats \<Longrightarrow>
     \<exists>ds k'. rhythmLoop totalBeats pat variation rnd k currentBeat patternIndex = Some (ds, k') \<and>
        (\<forall>d \<in> set ds. 0 < d) \<and> sum_list ds = totalBeats - currentBeat"
  proof (induction "nat \<lceil>(totalBeats - currentBeat) / m\<rceil>" arbitrary: currentBeat k patternIndex
      rule: less_induct)
    case less
    show ?case
    proof (cases "currentBeat < totalBeats")
      case False
      with less.prems have "totalBeats - currentBeat = 0" by simp
      with False show ?thesis by (simp add: rhythmLoop_done)
    next
      case True
      define d0 where "d0 = pat ! (patternIndex mod length pat)"
      define varied where "varied \<longleftrightarrow> 0 < variation \<and> rnd k < variation"
      define d1 where "d1 = (if varied then d0 * adjustments ! nat \<lfloor>rnd (k + 1) * 5\<rfloor> else d0)"
      define k1 where "k1 = (if varied then k + 2 else if 0 < variation then k + 1 else k)"
      define d2 where "d2 = (if currentBeat + d1 > totalBeats then totalBeats - currentBeat else d1)"
      have step: "rhythmLoop totalBeats pat variation rnd k currentBeat patternIndex =
          Option.bind (rhythmLoop totalBeats pat variation rnd k1 (currentBeat + d2) (patternIndex + 1))
            (\<lambda>r. Some (d2 # fst r, snd r))"
        using True pat(1)
        by (subst rhythmLoop.simps) (simp add: Let_def d0_def varied_def d1_def k1_def d2_def)
      have "d0 \<in> set pat" using pat(1) by (simp add: d0_def)
      then have d0: "2 * m \<le> d0" by (rule mle)
      have adj: "1 / 2 \<le> adjustments ! nat \<lfloor>rnd (k + 1) * 5\<rfloor>"
        using adjustments_bounds [of "rnd (k + 1)"] rnd by (simp add: draws_def)
      have half: "d0 * (1 / 2) \<le> d0 * adjustments ! nat \<lfloor>rnd (k + 1) * 5\<rfloor>"
        using adj d0 m0 by (intro mult_left_mono) simp_all
      have d1: "m \<le> d1"
      proof (cases varied)
        case True
        have "m \<le> d0 * (1 / 2)" using d0 by simp
        from this half have "m \<le> d0 * adjustments ! nat \<lfloor>rnd (k + 1) * 5\<rfloor>"
          by (rule order_trans)
        moreover have "d1 = d0 * adjustments ! nat \<lfloor>rnd (k + 1) * 5\<rfloor>"
          using True by (simp add: d1_def)
        ultimately show ?thesis by (simp only:)
      next
        case False
        then show ?thesis using d0 m0 by (simp add: d1_def)
      qed
      have d2pos: "0 < d2" using d1 m0 True by (simp add: d2_def)
      have d2le: "currentBeat + d2 \<le> totalBeats" by (simp add: d2_def)
      have dec: "nat \<lceil>(totalBeats - (currentBeat + d2)) / m\<rceil> < nat \<lceil>(totalBeats - currentBeat) / m\<rceil>"
      proof -
        have pos: "0 < (totalBeats - currentBeat) / m" using True m0 by simp
        then have one: "1 \<le> \<lceil>(totalBeats - currentBeat) / m\<rceil>" by (simp add: Suc_le_eq)
        show ?thesis
        proof (cases "currentBeat + d1 > totalBeats")
          case True
          then have "totalBeats - (currentBeat + d2) = 0" by (simp add: d2_def)
          then show ?thesis using one by simp
        next
          case False
          then have e: "d2 = d1" by (simp add: d2_def)
          have "(totalBeats - (currentBeat + d2)) / m \<le> (totalBeats - currentBeat) / m - 1"
            using d1 m0 by (simp add: e field_simps)
          then have "\<lceil>(totalBeats - (currentBeat + d2)) / m\<rceil> \<le> \<lceil>(totalBeats - currentBeat) / m - 1\<rceil>"
            by (rule ceiling_mono)
          then have "\<lceil>(totalBeats - (currentBeat + d2)) / m\<rceil> \<le> \<lceil>(totalBeats - currentBeat) / m\<rceil> - 1"
            by simp
          then show ?thesis using one by linarith
        qed
      qed
      from less.hyps [OF dec d2le, of k1 "patternIndex + 1"] obtain ds k' where r:
        "rhythmLoop totalBeats pat variation rnd k1 (currentBeat + d2) (patternIndex + 1) = Some (ds, k')"
        "\<forall>d \<in> set ds. 0 < d" "sum_list ds = totalBeats - (currentBeat + d2)"
        by blast
      show ?thesis
        using step r d2pos by (intro exI [of _ "d2 # ds"] exI [of _ k']) simp
    qed
  qed
qed

lemma sum_list_take_le:
  "\<forall>d \<in> set ds. 0 < (d::real) \<Longrightarrow> sum_list (take n ds) \<le> sum_list ds"
proof (induction ds arbitrary: n)
  case Nil
  then show ?case by simp
next
  case (Cons d ds)
  have "0 \<le> sum_list ds" using Cons.prems by (intro sum_list_nonneg) auto
  with Cons show ?case by (cases n) (auto intro: add_mono)
qed

text \<open>
  Claim C3, as amended. For every \<open>totalBeats > 0\<close>, every non-empty pattern of
  strictly positive durations, every variation amount and all outcomes of the random
  draws, \<open>generateRhythmDurations\<close> returns; the durations returned are all strictly
  positive and sum to \<open>totalBeats\<close> exactly, and no partial sum exceeds \<open>totalBeats\<close>.
\<close>

theorem generateRhythmDurations_exact:
  assumes "0 < totalBeats" "durations pattern \<noteq> []" "\<forall>d \<in> set (durations pattern). 0 < d"
    and "draws rnd"
  shows "\<exists>ds k'. generateRhythmDurations totalBeats pattern variation rnd k = Some (ds, k') \<and>
     (\<forall>d \<in> set ds. 0 < d) \<and> sum_list ds = totalBeats \<and>
     (\<forall>n \<le> length ds. sum_list (take n ds) \<le> totalBeats)"
proof -
  from rhythmLoop_returns [OF assms(2,3,4), of 0 totalBeats variation k 0] assms(1)
  obtain ds k' where r: "rhythmLoop totalBeats (durations pattern) variation rnd k 0 0 = Some (ds, k')"
    "\<forall>d \<in> set ds. 0 < d" "sum_list ds = totalBeats" by auto
  have "sum_list (take n ds) \<le> totalBeats" for n
    using sum_list_take_le [OF r(2), of n] r(3) by simp
  with r show ?thesis by (simp add: generateRhythmDurations_def)
qed

theorem generateRhythmDurations_exact_witness:
  "(0::real) < 2 \<and>
   generateRhythmDurations 2 \<lparr>name = ''Mixed 1'', feel = Straight, durations = [1, 0.5, 0.5, 0.5, 0.5, 1]\<rparr>
      0.1 (\<lambda>_. 0) 0 = Some ([0.5, 0.25, 0.25, 0.25, 0.25, 0.5], 12) \<and>
   (\<exists>ds k'. generateRhythmDurations 2
        \<lparr>name = ''Mixed 1'', feel = Straight, durations = [1, 0.5, 0.5, 0.5, 0.5, 1]\<rparr>
        0.1 (\<lambda>_. 0) 0 = Some (ds, k') \<and> sum_list ds = 2)"
proof -
  have e: "generateRhythmDurations 2
      \<lparr>name = ''Mixed 1'', feel = Straight, durations = [1, 0.5, 0.5, 0.5, 0.5, 1]\<rparr>
      0.1 (\<lambda>_. 0) 0 = Some ([0.5, 0.25, 0.25, 0.25, 0.25, 0.5], 12)"
    by (simp add: generateRhythmDurations_def rhythmLoop.simps adjustments_def Let_def)
  have d: "draws (\<lambda>_. 0)" by (simp add: draws_def)
  from generateRhythmDurations_exact [of 2
      "\<lparr>name = ''Mixed 1'', feel = Straight, durations = [1, 0.5, 0.5, 0.5, 0.5, 1]\<rparr>"
      "\<lambda>_. 0" "0.1" 0] d
  have "\<exists>ds k'. generateRhythmDurations 2
        \<lparr>name = ''Mixed 1'', feel = Straight, durations = [1, 0.5, 0.5, 0.5, 0.5, 1]\<rparr>
        0.1 (\<lambda>_. 0) 0 = Some (ds, k') \<and> sum_list ds = 2"
    by auto
  with e show ?thesis by simp
qed

text \<open>
  Against C3 as stated: the empty pattern is a pattern whose durations are all strictly
  positive, and for it no list of positive numbers summing to \<open>totalBeats\<close> comes back
  (the source returns \<open>[undefined]\<close>).
\<close>

theorem generateRhythmDurations_empty_counterexample:
  "set (durations \<lparr>name = ''empty'', feel = Straight, durations = []\<rparr>) = {} \<and>
   (0::real) < 4 \<and>
   generateRhythmDurations 4 \<lparr>name = ''empty'', feel = Straight, durations = []\<rparr> 0.2
     (\<lambda>_. 0) 0 = None"
  by (simp add: generateRhythmDurations_def rhythmLoop_empty)

section \<open>Generators: returning, and the velocity of every note\<close>

lemma table_patterns:
  "RHYTHM_PATTERNS n = Some p \<Longrightarrow> durations p \<noteq> [] \<and> (\<forall>d \<in> set (durations p). 0 < d)"
  by (auto simp: RHYTHM_PATTERNS_def split: if_splits)

lemma rhythm_returns:
  assumes "draws rnd" "RHYTHM_PATTERNS n = Some p"
  shows "\<exists>ds k'. generateRhythmDurations tb p v rnd k = Some (ds, k') \<and>
     (\<forall>d \<in> set ds. 0 < d) \<and> (0 < tb \<longrightarrow> sum_list ds = tb \<and> ds \<noteq> [])"
proof (cases "0 < tb")
  case True
  from table_patterns [OF assms(2)] have p: "durations p \<noteq> []" "\<forall>d \<in> set (durations p). 0 < d"
    by auto
  from rhythmLoop_returns [OF p assms(1), of 0 tb v k 0] True
  obtain ds k' where r: "rhythmLoop tb (durations p) v rnd k 0 0 = Some (ds, k')"
    "\<forall>d \<in> set ds. 0 < d" "sum_list ds = tb" by auto
  from r(3) True have "ds \<noteq> []" by auto
  with r show ?thesis by (simp add: generateRhythmDurations_def)
next
  case False
  then show ?thesis by (simp add: generateRhythmDurations_def rhythmLoop_done)
qed

lemma isChordTone_returns:
  assumes "SCALE_DEFINITIONS s \<noteq> Inherited"
  shows "\<exists>b. returned (isChordTone p ky s) = Some b"
  using assms
  by (cases "SCALE_DEFINITIONS s")
     (auto simp: returned_def isChordTone_def isChordTone_in_def getScaleDegree_in_def Let_def
        split: sum.splits option.splits)

lemma applyVelocity_returns:
  assumes "draws rnd" "SCALE_DEFINITIONS (GeneratorConfig.scale (config g)) \<noteq> Inherited"
  shows "\<exists>x. applyVelocity g n b rnd k = Some (x, k + 1) \<and>
     0.6 \<le> velocity x \<and> velocity x \<le> 0.95"
proof -
  have r: "0 \<le> rnd k" "rnd k < 1" using assms(1) by (simp_all add: draws_def)
  from isChordTone_returns [OF assms(2)] obtain c where
    c: "returned (isChordTone (pitch n) (GeneratorConfig.key (config g))
          (GeneratorConfig.scale (config g))) = Some c" by blast
  show ?thesis using r by (auto simp: applyVelocity_def c Let_def)
qed

lemma applyVelocity_range:
  assumes "draws rnd" "SCALE_DEFINITIONS (GeneratorConfig.scale (config g)) \<noteq> Inherited"
  shows "\<exists>x. applyVelocity g n b rnd k = Some (x, k + 1) \<and> velocityInRange x"
  using applyVelocity_returns [OF assms, of n b k] by (auto simp: velocityInRange_def)

lemma returnsInRange_Some [simp]:
  "returnsInRange (Some (ns, k)) = list_all velocityInRange ns"
  by (simp add: returnsInRange_def)

lemma returnsInRange_None [simp]: "\<not> returnsInRange None"
  by (simp add: returnsInRange_def)

lemma returnsInRange_cons [simp]:
  "returnsInRange (case f of None \<Rightarrow> None | Some r \<Rightarrow> Some (x # fst r, snd r))
     = (velocityInRange x \<and> returnsInRange f)"
  by (auto simp: returnsInRange_def split: option.splits)

lemma returnsInRange_append [simp]:
  "returnsInRange (case f of None \<Rightarrow> None | Some r \<Rightarrow> Some (xs @ fst r, snd r))
     = (list_all velocityInRange xs \<and> returnsInRange f)"
  by (auto simp: returnsInRange_def split: option.splits)

lemma returnsInRange_iff:
  "returnsInRange f \<longleftrightarrow> (\<exists>ns k. f = Some (ns, k) \<and> list_all velocityInRange ns)"
  by (auto simp: returnsInRange_def split: option.splits)

lemma scaleRunLoop_returns:
  assumes "draws rnd" "SCALE_DEFINITIONS (GeneratorConfig.scale (config g)) \<noteq> Inherited"
  shows "returnsInRange (scaleRunLoop g rnd ds k cb ci cd nr)"
proof (induction ds arbitrary: k cb ci cd nr)
  case Nil
  then show ?case by simp
next
  case (Cons d ds)
  from applyVelocity_range [OF assms] obtain x where
    x: "applyVelocity g (createNote g (getScaleNoteAt g ci) cb (d * 0.9) 0.7) cb rnd (k + 1)
          = Some (x, k + 1 + 1)" "velocityInRange x"
    by blast
  show ?case using x Cons by (simp add: Let_def)
qed

lemma generate_result:
  assumes "returnsInRange f"
  shows "\<exists>res k'. (case f of None \<Rightarrow> None
            | Some r \<Rightarrow> Some (\<lparr>GeneratorResult.notes = fst r, algorithm = a\<rparr>, snd r)) = Some (res, k') \<and>
     GeneratorResult.algorithm res = a \<and> list_all velocityInRange (GeneratorResult.notes res)"
  using assms by (auto simp: returnsInRange_iff)

lemma ScaleRun_total:
  assumes "draws rnd" "SCALE_DEFINITIONS (GeneratorConfig.scale (config g)) \<noteq> Inherited"
  shows "\<exists>res k'. ScaleRun_generate g rnd k = Some (res, k') \<and>
     GeneratorResult.algorithm res = ''scale-run'' \<and>
     list_all velocityInRange (GeneratorResult.notes res)"
proof -
  obtain n k0 where pk: "ScaleRun_getPatternForFeel g rnd k = (n, k0)" by (cases "ScaleRun_getPatternForFeel g rnd k")
  have "RHYTHM_PATTERNS n \<noteq> None"
    using pk by (auto simp: ScaleRun_getPatternForFeel_def RHYTHM_PATTERNS_def split: feel.splits if_splits)
  then obtain p where p: "RHYTHM_PATTERNS n = Some p" by auto
  from rhythm_returns [OF assms(1) p] obtain ds k1 where
    r: "generateRhythmDurations (GeneratorConfig.lengthBars (config g) * 4) p 0.2 rnd k0 = Some (ds, k1)"
    by blast
  have "ScaleRun_generate g rnd k =
     (case scaleRunLoop g rnd ds (snd (getInitialDirection g rnd (snd (getStartingIndex g rnd k1)))) 0
             (fst (getStartingIndex g rnd k1))
             (fst (getInitialDirection g rnd (snd (getStartingIndex g rnd k1)))) 0 of
        None \<Rightarrow> None
      | Some r \<Rightarrow> Some (\<lparr>GeneratorResult.notes = fst r, algorithm = ''scale-run''\<rparr>, snd r))"
    using pk p r by (simp add: ScaleRun_generate_def Let_def)
  then show ?thesis
    by (simp only: generate_result [OF scaleRunLoop_returns [OF assms]])
qed

lemma passing_velocity:
  assumes "0.6 \<le> velocity x" "velocity x \<le> 0.95"
  shows "velocityInRange (x\<lparr>velocity := velocity x * 7 / 10\<rparr>)"
  using assms by (simp add: velocityInRange_def)

lemma getPassingTone_returns:
  assumes "SCALE_DEFINITIONS (GeneratorConfig.scale (config g)) \<noteq> Inherited"
  shows "\<exists>pt. getPassingTone g p rnd k = Some pt"
proof -
  from isChordTone_returns [OF assms] obtain b where
    "returned (isChordTone (js_at (scaleNotes g)
        (findIndex (\<lambda>n. noteToMidi n = noteToMidi p) (scaleNotes g) + (if rnd k < 0.5 then - 1 else 1)))
        (GeneratorConfig.key (config g)) (GeneratorConfig.scale (config g))) = Some b"
    by blast
  then show ?thesis unfolding getPassingTone_def Let_def by simp
qed

lemma arpeggioStep_returns:
  assumes "draws rnd" "SCALE_DEFINITIONS (GeneratorConfig.scale (config g)) \<noteq> Inherited"
  shows "\<exists>ns k' cb' ix' off'. arpeggioStep g rnd d k cb ix off = Some (ns, k', cb', ix', off') \<and>
     list_all velocityInRange ns"
proof -
  define p where "p = arpeggioPitch g ix off"
  define tp where "tp = (includePassingTones g \<and> rnd k < passingToneFrequency g \<and> d \<ge> 0.5)"
  define k1 where "k1 = (if includePassingTones g then k + 1 else k)"
  from getPassingTone_returns [OF assms(2), of p rnd k1]
  obtain pt where pt: "(if tp then getPassingTone g p rnd k1 else Some (None, k1)) = Some pt"
    by (cases tp) auto
  show ?thesis
  proof (cases "tp \<and> (case fst pt of None \<Rightarrow> False | Some pp \<Rightarrow> truthy pp)")
    case True
    from applyVelocity_returns [OF assms] obtain x where
      x: "applyVelocity g (createNote g (the (fst pt)) cb (d * 0.4 * 0.9) 0.7) cb rnd (snd pt)
            = Some (x, snd pt + 1)" "0.6 \<le> velocity x" "velocity x \<le> 0.95"
      by blast
    from applyVelocity_range [OF assms] obtain y where
      y: "applyVelocity g (createNote g p (cb + d * 0.4) ((d - d * 0.4) * 0.9) 0.7) (cb + d * 0.4) rnd
            (snd pt + 1) = Some (y, snd pt + 1 + 1)" "velocityInRange y"
      by blast
    have "arpeggioStep g rnd d k cb ix off =
       Some ([x\<lparr>velocity := velocity x * 0.7\<rparr>, y], snd pt + 1 + 1, cb + d * 0.4 + (d - d * 0.4),
             ix + 1, off)"
      unfolding arpeggioStep_def Let_def p_def [symmetric] tp_def [symmetric] k1_def [symmetric] pt
      using x(1) y(1) by (simp add: if_P [OF True])
    then show ?thesis using passing_velocity [OF x(2,3)] y(2) by simp
  next
    case False
    from applyVelocity_range [OF assms] obtain x where
      x: "applyVelocity g (createNote g p cb (d * 0.9) 0.7) cb rnd (snd pt) = Some (x, snd pt + 1)"
         "velocityInRange x"
      by blast
    have "\<exists>k' off'. arpeggioStep g rnd d k cb ix off = Some ([x], k', cb + d, ix + 1, off')"
      unfolding arpeggioStep_def Let_def p_def [symmetric] tp_def [symmetric] k1_def [symmetric] pt
      using x(1) by (simp add: if_not_P [OF False])
    then show ?thesis using x(2) by auto
  qed
qed

lemma arpeggioLoop_returns:
  assumes "draws rnd" "SCALE_DEFINITIONS (GeneratorConfig.scale (config g)) \<noteq> Inherited"
  shows "returnsInRange (arpeggioLoop g rnd ds k cb ix off)"
proof (induction ds arbitrary: k cb ix off)
  case Nil
  then show ?case by simp
next
  case (Cons d ds)
  from arpeggioStep_returns [OF assms, of d k cb ix off] obtain ns k' cb' ix' off' where
    s: "arpeggioStep g rnd d k cb ix off = Some (ns, k', cb', ix', off')" "list_all velocityInRange ns"
    by blast
  show ?case using s Cons by simp
qed

lemma Arpeggio_total:
  assumes "draws rnd" "SCALE_DEFINITIONS (GeneratorConfig.scale (config g)) \<noteq> Inherited"
  shows "\<exists>res k'. Arpeggio_generate g rnd k = Some (res, k') \<and>
     GeneratorResult.algorithm res = ''arpeggio'' \<and>
     list_all velocityInRange (GeneratorResult.notes res)"
proof -
  obtain n k0 where pk: "Arpeggio_getPatternForFeel g rnd k = (n, k0)"
    by (cases "Arpeggio_getPatternForFeel g rnd k")
  have "RHYTHM_PATTERNS n \<noteq> None"
    using pk by (auto simp: Arpeggio_getPatternForFeel_def RHYTHM_PATTERNS_def split: feel.splits if_splits)
  then obtain p where p: "RHYTHM_PATTERNS n = Some p" by auto
  from rhythm_returns [OF assms(1) p] obtain ds k1 where
    r: "generateRhythmDurations (GeneratorConfig.lengthBars (config g) * 4) p 0.15 rnd k0 = Some (ds, k1)"
    by blast
  have "Arpeggio_generate g rnd k =
     (case arpeggioLoop g rnd ds k1 0 0 0 of None \<Rightarrow> None
      | Some r \<Rightarrow> Some (\<lparr>GeneratorResult.notes = fst r, algorithm = ''arpeggio''\<rparr>, snd r))"
    using pk p r by (simp add: Arpeggio_generate_def Let_def)
  then show ?thesis
    by (simp only: generate_result [OF arpeggioLoop_returns [OF assms]])
qed
lemma initialMotifLoop_returns:
  assumes "draws rnd" "SCALE_DEFINITIONS (GeneratorConfig.scale (config g)) \<noteq> Inherited"
  shows "\<exists>ns k'. initialMotifLoop g rnd ds k cb ci = Some (ns, k') \<and>
     list_all velocityInRange ns \<and> map duration ns = map (\<lambda>d. secondsOf g (d * 0.85)) ds"
proof (induction ds arbitrary: k cb ci)
  case Nil
  then show ?case by simp
next
  case (Cons d ds)
  from applyVelocity_range [OF assms] obtain x where
    x: "applyVelocity g (createNote g (getScaleNoteAt g ci) cb (d * 0.85) 0.7) cb rnd k = Some (x, k + 1)"
       "velocityInRange x"
    by blast
  have dx: "duration x = secondsOf g (d * 0.85)"
    using x(1) by (auto simp: applyVelocity_def createNote_def Let_def split: option.splits)
  from Cons obtain ns k' where
    r: "initialMotifLoop g rnd ds (snd (getMotifMovement rnd (k + 1))) (cb + d)
          (max 0 (min (int (length (scaleNotes g)) - 1) (ci + fst (getMotifMovement rnd (k + 1)))))
        = Some (ns, k')"
       "list_all velocityInRange ns" "map duration ns = map (\<lambda>d. secondsOf g (d * 0.85)) ds"
    by blast
  have "initialMotifLoop g rnd (d # ds) k cb ci = Some (x # ns, k')"
    using x(1) r(1) by (simp add: Let_def)
  then show ?case using x(2) r(2,3) dx by simp
qed

lemma transposeLoop_maps:
  "map velocity (transposeLoop g s ns t) = map velocity ns \<and>
   map duration (transposeLoop g s ns t) = map duration ns"
  by (induction ns arbitrary: t) (simp_all add: Let_def)

lemma invertLoop_maps:
  "map velocity (invertLoop g s ns t) = map velocity ns \<and>
   map duration (invertLoop g s ns t) = map duration ns"
  by (induction ns arbitrary: t) (simp_all add: Let_def)

lemma scaleLoop_maps:
  "map velocity (scaleLoop f ns t) = map velocity ns"
  by (induction ns arbitrary: t) (simp_all add: Let_def)

lemma velocityInRange_map:
  "list_all velocityInRange ns = list_all (\<lambda>v. 0.3 \<le> v \<and> v \<le> 1) (map velocity ns)"
  by (induction ns) (simp_all add: velocityInRange_def)

lemma scaleLoop_sum:
  "sum_list (map duration (scaleLoop f ns t)) = sum_list (map duration ns) * f"
  by (induction ns arbitrary: t) (simp_all add: Let_def algebra_simps)

lemma invert_maps:
  "map velocity (invert g motif b) = map velocity motif \<and>
   map duration (invert g motif b) = map duration motif"
proof (cases motif)
  case Nil
  then show ?thesis by (simp add: invert_def)
next
  case (Cons first rest)
  have "invert g motif b = invertLoop g (noteToMidi (pitch first)) motif (secondsOf g b)"
    unfolding invert_def Cons by simp
  then show ?thesis by (simp only: invertLoop_maps)
qed

lemma applyTechnique_maps:
  "set (map velocity (applyTechnique g motif technique b)) = set (map velocity motif) \<and>
   (sum_list (map duration (applyTechnique g motif technique b)) = sum_list (map duration motif) * 1 \<or>
    sum_list (map duration (applyTechnique g motif technique b)) = sum_list (map duration motif) * (3 / 2) \<or>
    sum_list (map duration (applyTechnique g motif technique b)) = sum_list (map duration motif) * (3 / 4))"
proof (cases technique)
  case None
  then show ?thesis by (simp add: applyTechnique_def transpose_def transposeLoop_maps)
next
  case (Some t)
  then show ?thesis
    by (cases t)
       (simp_all add: applyTechnique_def transpose_def retrograde_def augment_def diminish_def
          transposeLoop_maps invert_maps scaleLoop_maps scaleLoop_sum rev_map [symmetric])
qed

lemma applyTechnique_velocity:
  assumes "list_all velocityInRange motif"
  shows "list_all velocityInRange (applyTechnique g motif technique b)"
proof -
  have "list_all (\<lambda>v. 0.3 \<le> v \<and> v \<le> 1) (map velocity motif)"
    using assms by (simp only: velocityInRange_map)
  then have "list_all (\<lambda>v. 0.3 \<le> v \<and> v \<le> 1) (map velocity (applyTechnique g motif technique b))"
    using applyTechnique_maps [of g motif technique b] by (simp only: list_all_iff)
  then show ?thesis by (simp only: velocityInRange_map)
qed

lemma applyTechnique_duration:
  assumes "0 \<le> sum_list (map duration motif)"
  shows "3 / 4 * sum_list (map duration motif)
         \<le> sum_list (map duration (applyTechnique g motif technique b))"
  using assms applyTechnique_maps [of g motif technique b] by auto

lemma motifLoop_returns:
  assumes c: "0 < c"
    and d: "\<And>technique b. c \<le> sum_list (map duration (applyTechnique g motif technique b)) / secondsOf g 1"
    and v: "list_all velocityInRange motif"
  shows "\<exists>r. motifLoop g motif tb mb cb ti = Some r \<and> list_all velocityInRange r"
proof (induction "nat \<lceil>(tb - mb - cb) / c\<rceil>" arbitrary: cb ti rule: less_induct)
  case less
  show ?case
  proof (cases "cb < tb - mb")
    case False
    then show ?thesis by (subst motifLoop.simps) simp
  next
    case True
    define technique where "technique =
      (if techniques g = [] then None else Some (techniques g ! (ti mod length (techniques g))))"
    define variation where "variation = applyTechnique g motif technique cb"
    define vb where "vb = sum_list (map duration variation) / secondsOf g 1"
    have vb: "c \<le> vb" unfolding vb_def variation_def by (rule d)
    have pos: "0 < (tb - mb - cb) / c" using True c by simp
    have "(tb - mb - (cb + vb)) / c \<le> (tb - mb - cb) / c - 1"
      using vb c by (simp add: field_simps)
    then have "\<lceil>(tb - mb - (cb + vb)) / c\<rceil> \<le> \<lceil>(tb - mb - cb) / c\<rceil> - 1"
      by (metis ceiling_diff_one ceiling_mono)
    moreover have "0 < \<lceil>(tb - mb - cb) / c\<rceil>" using pos by simp
    ultimately have "nat \<lceil>(tb - mb - (cb + vb)) / c\<rceil> < nat \<lceil>(tb - mb - cb) / c\<rceil>"
      by linarith
    from less [OF this, of "ti + 1"] obtain r where
      r: "motifLoop g motif tb mb (cb + vb) (ti + 1) = Some r" "list_all velocityInRange r"
      by blast
    have vv: "list_all velocityInRange variation"
      unfolding variation_def by (rule applyTechnique_velocity [OF v])
    have "motifLoop g motif tb mb cb ti = Some (variation @ r)"
      using True r(1)
      by (subst motifLoop.simps) (simp add: Let_def technique_def variation_def vb_def)
    with vv r(2) show ?thesis by simp
  qed
qed

lemma secondsOf_pos:
  "0 < GeneratorConfig.tempo (config g) \<Longrightarrow> 0 < b \<Longrightarrow> 0 < secondsOf g b"
  by (simp add: secondsOf_def beatsToSeconds_def)

lemma sum_list_pos_real:
  "ds \<noteq> [] \<Longrightarrow> \<forall>d \<in> set ds. 0 < (d :: real) \<Longrightarrow> 0 < sum_list ds"
  by (induction ds) (auto intro: add_pos_nonneg sum_list_nonneg less_imp_le)

lemma Motif_total:
  assumes r: "draws rnd" and t: "0 < GeneratorConfig.tempo (config g)" and m: "0 < motifLength g"
    and s: "SCALE_DEFINITIONS (GeneratorConfig.scale (config g)) \<noteq> Inherited"
  shows "\<exists>res k'. Motif_generate g rnd k = Some (res, k') \<and>
     GeneratorResult.algorithm res = ''motif'' \<and>
     list_all velocityInRange (GeneratorResult.notes res)"
proof -
  have "RHYTHM_PATTERNS (Motif_getPatternForFeel g) \<noteq> None"
    by (simp add: Motif_getPatternForFeel_def RHYTHM_PATTERNS_def split: feel.splits)
  then obtain p where p: "RHYTHM_PATTERNS (Motif_getPatternForFeel g) = Some p" by auto
  from rhythm_returns [OF r p, of "real (motifLength g)" "0.1" k] m obtain ds k1 where
    ds: "generateRhythmDurations (real (motifLength g)) p 0.1 rnd k = Some (ds, k1)"
        "\<forall>d \<in> set ds. 0 < d" "ds \<noteq> []"
    by auto
  define ds' where "ds' = take (motifLength g) ds"
  from initialMotifLoop_returns [OF r s, of ds' k1 0 "findStartingIndex g"] obtain motif k2 where
    im: "initialMotifLoop g rnd ds' k1 0 (findStartingIndex g) = Some (motif, k2)"
    and v: "list_all velocityInRange motif"
    and md: "map duration motif = map (\<lambda>d. secondsOf g (d * 0.85)) ds'"
    by blast
  have gi: "generateInitialMotif g rnd k = Some (motif, k2)"
    using p ds(1) im by (simp add: generateInitialMotif_def ds'_def)
  have ne: "ds' \<noteq> []" using ds(3) m by (simp add: ds'_def)
  have ps: "\<forall>d \<in> set ds'. 0 < d" using ds(2) unfolding ds'_def by (meson in_set_takeD)
  have "0 < sum_list (map duration motif)"
    unfolding md using ne ps by (intro sum_list_pos_real) (auto intro: secondsOf_pos [OF t])
  then have S: "0 < sum_list (map duration motif)" .
  have one: "0 < secondsOf g 1" using secondsOf_pos [OF t, of 1] by simp
  define c where "c = 3 / 4 * sum_list (map duration motif) / secondsOf g 1"
  have c: "0 < c" unfolding c_def using S one by simp
  have d: "c \<le> sum_list (map duration (applyTechnique g motif technique b)) / secondsOf g 1"
    for technique b
    unfolding c_def using applyTechnique_duration [of motif g technique b] S one
    by (simp add: field_simps)
  from motifLoop_returns [OF c d v] obtain rest where
    rest: "motifLoop g motif (GeneratorConfig.lengthBars (config g) * 4)
             (sum_list (map duration motif) / secondsOf g 1)
             (sum_list (map duration motif) / secondsOf g 1) 0 = Some rest"
          "list_all velocityInRange rest"
    by blast
  show ?thesis
    using gi rest v by (simp add: Motif_generate_def Let_def)
qed
lemma approachLoop_velocity:
  "i + length ps \<le> n \<Longrightarrow> list_all velocityInRange (approachLoop g nd sw n ps i cb)"
proof (induction ps arbitrary: i cb)
  case Nil
  then show ?case by simp
next
  case (Cons p ps)
  then have "i < n" by simp
  then have "0 \<le> real i / real n" "real i / real n \<le> 1" by simp_all
  then have "velocityInRange (x\<lparr>velocity := 0.6 + (real i / real n) * 0.2\<rparr>)" for x
    by (simp add: velocityInRange_def)
  moreover have "list_all velocityInRange (approachLoop g nd sw n ps (i + 1) (cb + d))" for d
    using Cons.prems by (intro Cons.IH) simp
  ultimately show ?case by (simp add: Let_def del: Note.simps)
qed

lemma generateApproach_velocity:
  "list_all velocityInRange (fst (generateApproach g tp sb ab rnd k))"
  by (simp add: generateApproach_def Let_def approachLoop_velocity)

lemma applyVelocity_cases:
  assumes "draws rnd" "SCALE_DEFINITIONS (GeneratorConfig.scale (config g)) \<noteq> Inherited"
  shows "case applyVelocity g n b rnd j of None \<Rightarrow> False | Some nk \<Rightarrow> velocityInRange (fst nk)"
  using applyVelocity_range [OF assms, of n b j] by auto

lemma returnsInRange_cases:
  "returnsInRange f \<Longrightarrow> case f of None \<Rightarrow> False | Some r \<Rightarrow> list_all velocityInRange (fst r)"
  by (auto simp: returnsInRange_iff)

lemma bebopLineStep_returns:
  assumes "draws rnd" "SCALE_DEFINITIONS (GeneratorConfig.scale (config g)) \<noteq> Inherited"
  shows "\<exists>x k' d nm. bebopLineStep g rnd nc od i k cb cm = Some (x, k', d, nm) \<and> velocityInRange x"
proof -
  obtain n b j where e: "bebopLineStep g rnd nc od i k cb cm =
     (case applyVelocity g n b rnd j of None \<Rightarrow> None
      | Some nk \<Rightarrow> Some (fst nk, snd nk,
          if rhythmFeel (config g) = Swing then (if i mod 2 = 0 then 0.5 * 1.3 else 0.5 * 0.7) else 0.5,
          if rnd (k + 1) < 0.2 \<and> 0 < i \<and> int i < int nc - 1
          then cm + (od * (- 1) * (if rnd (k + 2) < 0.5 then 1 else 2))
          else (if rnd k < 0.15 then cm + od
                else if od > 0 then noteToMidi (getScaleToneAbove g cm)
                else noteToMidi (getScaleToneBelow g cm))))"
    unfolding bebopLineStep_def Let_def by blast
  from applyVelocity_range [OF assms, of n b j] obtain x where
    "applyVelocity g n b rnd j = Some (x, j + 1)" "velocityInRange x" by blast
  then show ?thesis unfolding e by simp
qed

lemma bebopLineLoop_returns:
  assumes "draws rnd" "SCALE_DEFINITIONS (GeneratorConfig.scale (config g)) \<noteq> Inherited"
  shows "returnsInRange (bebopLineLoop g rnd nc od eb n i k cb cm)"
proof (induction n arbitrary: i k cb cm)
  case 0
  then show ?case by simp
next
  case (Suc n)
  from bebopLineStep_returns [OF assms, of nc od i k cb cm] obtain x k' d nm where
    s: "bebopLineStep g rnd nc od i k cb cm = Some (x, k', d, nm)" "velocityInRange x"
    by blast
  show ?case using s Suc by simp
qed

lemma generateBebopLine_returns:
  assumes "draws rnd" "SCALE_DEFINITIONS (GeneratorConfig.scale (config g)) \<noteq> Inherited"
  shows "returnsInRange (generateBebopLine g sp sb ab nt rnd k)"
  by (simp add: generateBebopLine_def Let_def bebopLineLoop_returns [OF assms])

lemma bebopStep_returns:
  assumes "draws rnd" "SCALE_DEFINITIONS (GeneratorConfig.scale (config g)) \<noteq> Inherited"
  shows "\<exists>ns k' cb'. bebopStep g rnd tb target rest first k cb = Some (ns, k', cb') \<and>
     list_all velocityInRange ns"
proof -
  have a1: "applyVelocity g n b rnd j \<noteq> None" for n b j
    using applyVelocity_range [OF assms, of n b j] by auto
  have a2: "velocityInRange (fst nk)" if "applyVelocity g n b rnd j = Some nk" for n b j nk
    using applyVelocity_range [OF assms, of n b j] that by auto
  have b1: "generateBebopLine g sp sb ab nt rnd j \<noteq> None" for sp sb ab nt j
    using generateBebopLine_returns [OF assms, of sp sb ab nt j] by (auto simp: returnsInRange_iff)
  have b2: "list_all velocityInRange (fst r)"
    if "generateBebopLine g sp sb ab nt rnd j = Some r" for sp sb ab nt j r
    using generateBebopLine_returns [OF assms, of sp sb ab nt j] that
    by (auto simp: returnsInRange_iff)
  have "case bebopStep g rnd tb target rest first k cb of None \<Rightarrow> False
        | Some s \<Rightarrow> list_all velocityInRange (fst s)"
    unfolding bebopStep_def Let_def
    by (auto simp: a1 b1 generateApproach_velocity split: option.split dest: a2 b2)
  then show ?thesis by (cases "bebopStep g rnd tb target rest first k cb") auto
qed

lemma bebopLoop_returns:
  assumes "draws rnd" "SCALE_DEFINITIONS (GeneratorConfig.scale (config g)) \<noteq> Inherited"
  shows "returnsInRange (bebopLoop g rnd tb ts first k cb)"
proof (induction ts arbitrary: first k cb)
  case Nil
  then show ?case by simp
next
  case (Cons target rest)
  from bebopStep_returns [OF assms, of tb target rest first k cb] obtain ns k' cb' where
    s: "bebopStep g rnd tb target rest first k cb = Some (ns, k', cb')" "list_all velocityInRange ns"
    by blast
  show ?case using s Cons by simp
qed

lemma Bebop_total:
  assumes "draws rnd" "SCALE_DEFINITIONS (GeneratorConfig.scale (config g)) \<noteq> Inherited"
  shows "\<exists>res k'. Bebop_generate g rnd k = Some (res, k') \<and>
     GeneratorResult.algorithm res = ''bebop'' \<and>
     list_all velocityInRange (GeneratorResult.notes res)"
  unfolding Bebop_generate_def Let_def
  by (rule generate_result [OF bebopLoop_returns [OF assms]])
lemma callStep_returns:
  assumes "draws rnd" "SCALE_DEFINITIONS (GeneratorConfig.scale (config g)) \<noteq> Inherited"
  shows "\<exists>x k' ni. callStep g rnd sb d isLast k cb pidx = Some (x, k', ni) \<and>
     0.6 \<le> velocity x \<and> velocity x \<le> 1"
proof -
  have a1: "applyVelocity g n b rnd j \<noteq> None" for n b j
    using applyVelocity_returns [OF assms, of n b j] by auto
  have a2: "6 \<le> velocity (fst nk) * 11" if "applyVelocity g n b rnd j = Some nk" for n b j nk
    using applyVelocity_returns [OF assms, of n b j] that by auto
  have "case callStep g rnd sb d isLast k cb pidx of None \<Rightarrow> False
        | Some s \<Rightarrow> 0.6 \<le> velocity (fst s) \<and> velocity (fst s) \<le> 1"
    unfolding callStep_def Let_def
    by (auto simp: a1 split: option.split dest: a2)
  then show ?thesis by (cases "callStep g rnd sb d isLast k cb pidx") auto
qed

lemma callLoop_returns:
  assumes "draws rnd" "SCALE_DEFINITIONS (GeneratorConfig.scale (config g)) \<noteq> Inherited"
  shows "\<exists>ns k'. callLoop g rnd sb ds k cb pidx = Some (ns, k') \<and>
     list_all (\<lambda>n. 0.6 \<le> velocity n \<and> velocity n \<le> 1) ns \<and> length ns = length ds"
proof (induction ds arbitrary: k cb pidx)
  case Nil
  then show ?case by simp
next
  case (Cons d ds)
  from callStep_returns [OF assms, of sb d "ds = []" k cb pidx] obtain x k' ni where
    s: "callStep g rnd sb d (ds = []) k cb pidx = Some (x, k', ni)"
       "0.6 \<le> velocity x" "velocity x \<le> 1"
    by blast
  from Cons [of k' "cb + d" ni] obtain ns k2 where
    r: "callLoop g rnd sb ds k' (cb + d) ni = Some (ns, k2)"
       "list_all (\<lambda>n. 0.6 \<le> velocity n \<and> velocity n \<le> 1) ns" "length ns = length ds"
    by blast
  show ?case using s r by simp
qed

lemma generateCall_returns:
  assumes "draws rnd" "SCALE_DEFINITIONS (GeneratorConfig.scale (config g)) \<noteq> Inherited" "0 < lb"
  shows "\<exists>ns k'. generateCall g sb lb rnd k = Some (ns, k') \<and> ns \<noteq> [] \<and>
     list_all (\<lambda>n. 0.6 \<le> velocity n \<and> velocity n \<le> 1) ns"
proof -
  obtain n k0 where pk: "CallResponse_getPatternForFeel g rnd k = (n, k0)"
    by (cases "CallResponse_getPatternForFeel g rnd k")
  have "RHYTHM_PATTERNS n \<noteq> None"
    using pk by (auto simp: CallResponse_getPatternForFeel_def RHYTHM_PATTERNS_def
        split: feel.splits if_splits)
  then obtain p where p: "RHYTHM_PATTERNS n = Some p" by auto
  from rhythm_returns [OF assms(1) p, of lb "0.1" k0] assms(3) obtain ds k1 where
    r: "generateRhythmDurations lb p 0.1 rnd k0 = Some (ds, k1)" "ds \<noteq> []"
    by auto
  from callLoop_returns [OF assms(1,2), of sb ds k1 sb "int (length (scaleNotes g)) div 2"]
  obtain ns k' where
    c: "callLoop g rnd sb ds k1 sb (int (length (scaleNotes g)) div 2) = Some (ns, k')"
       "list_all (\<lambda>n. 0.6 \<le> velocity n \<and> velocity n \<le> 1) ns" "length ns = length ds"
    by blast
  have "generateCall g sb lb rnd k = Some (ns, k')"
    using pk p r(1) c(1) by (simp add: generateCall_def Let_def)
  moreover have "ns \<noteq> []" using c(3) r(2) by auto
  ultimately show ?thesis using c(2) by blast
qed

lemma echoLoop_velocity:
  "list_all (\<lambda>n. 0.6 \<le> velocity n \<and> velocity n \<le> 1) ns \<Longrightarrow>
   list_all velocityInRange (echoLoop g sh ns cb)"
proof (induction ns arbitrary: cb)
  case Nil
  then show ?case by simp
next
  case (Cons c ns)
  then have "0.6 \<le> velocity c" "velocity c \<le> 1" by simp_all
  then have "velocityInRange (x\<lparr>velocity := velocity c * 0.9\<rparr>)" for x
    by (simp add: velocityInRange_def)
  moreover have "list_all velocityInRange (echoLoop g sh ns b)" for b
    using Cons by simp
  ultimately show ?case by (simp add: Let_def del: Note.simps)
qed

lemma mirrorLoop_velocity:
  "list_all (\<lambda>n. 0.6 \<le> velocity n \<and> velocity n \<le> 1) ns \<Longrightarrow>
   list_all velocityInRange (mirrorLoop g pm ns cb)"
proof (induction ns arbitrary: cb)
  case Nil
  then show ?case by simp
next
  case (Cons c ns)
  then have "0.6 \<le> velocity c" "velocity c \<le> 1" by simp_all
  then have "velocityInRange (x\<lparr>velocity := velocity c\<rparr>)" for x
    by (simp add: velocityInRange_def)
  moreover have "list_all velocityInRange (mirrorLoop g pm ns b)" for b
    using Cons by simp
  ultimately show ?case by (simp add: Let_def del: Note.simps)
qed

lemma answerStep_returns:
  assumes "draws rnd" "SCALE_DEFINITIONS (GeneratorConfig.scale (config g)) \<noteq> Inherited"
  shows "\<exists>x k' ni. answerStep g rnd sb d isLast sr k cb ci = Some (x, k', ni) \<and> velocityInRange x"
proof -
  have a1: "applyVelocity g n b rnd j \<noteq> None" for n b j
    using applyVelocity_returns [OF assms, of n b j] by auto
  have a2: "velocityInRange (fst nk) \<and>
      velocityInRange ((fst nk)\<lparr>velocity := min 1 (velocity (fst nk) * 6 / 5)\<rparr>)"
    if "applyVelocity g n b rnd j = Some nk" for n b j nk
    using applyVelocity_returns [OF assms, of n b j] that by (auto simp: velocityInRange_def)
  have "case answerStep g rnd sb d isLast sr k cb ci of None \<Rightarrow> False
        | Some s \<Rightarrow> velocityInRange (fst s)"
    unfolding answerStep_def Let_def
    by (auto simp: a1 split: option.split dest: a2 simp del: Note.simps)
  then show ?thesis by (cases "answerStep g rnd sb d isLast sr k cb ci") auto
qed

lemma answerLoop_returns:
  assumes "draws rnd" "SCALE_DEFINITIONS (GeneratorConfig.scale (config g)) \<noteq> Inherited"
  shows "returnsInRange (answerLoop g rnd sb lb ds k cb ci)"
proof (induction ds arbitrary: k cb ci)
  case Nil
  then show ?case by simp
next
  case (Cons d ds)
  from answerStep_returns [OF assms, of sb d "ds = []" "int (length ds)" k cb ci] obtain x k' ni where
    s: "answerStep g rnd sb d (ds = []) (int (length ds)) k cb ci = Some (x, k', ni)"
       "velocityInRange x"
    by blast
  show ?case using s Cons by simp
qed

lemma rhythmicLoop_returns:
  assumes "draws rnd" "SCALE_DEFINITIONS (GeneratorConfig.scale (config g)) \<noteq> Inherited"
  shows "returnsInRange (rhythmicLoop g rnd cn sb ds i k cb)"
proof (induction ds arbitrary: i k cb)
  case Nil
  then show ?case by simp
next
  case (Cons d ds)
  from applyVelocity_range [OF assms] obtain x where
    x: "applyVelocity g (createNote g (pitch (cn ! (i mod length cn))) cb (d * 0.9) 0.7) (cb - sb) rnd k
          = Some (x, k + 1)" "velocityInRange x"
    by blast
  show ?case using x Cons by (simp add: Let_def)
qed

lemma getAlternatePattern_listed:
  assumes "draws rnd"
  shows "RHYTHM_PATTERNS (fst (getAlternatePattern rnd k)) \<noteq> None"
proof -
  have "0 \<le> rnd k" "rnd k < 1" using assms by (simp_all add: draws_def)
  then have "0 \<le> rnd k * 3" "rnd k * 3 < 3" by simp_all
  then have "\<lfloor>rnd k * 3\<rfloor> < 3" by (simp add: floor_less_iff)
  then have "nat \<lfloor>rnd k * 3\<rfloor> < 3" by linarith
  then have "nat \<lfloor>rnd k * 3\<rfloor> = 0 \<or> nat \<lfloor>rnd k * 3\<rfloor> = 1 \<or> nat \<lfloor>rnd k * 3\<rfloor> = 2"
    by (simp add: eval_nat_numeral less_Suc_eq)
  then show ?thesis
    unfolding getAlternatePattern_def by (auto simp: RHYTHM_PATTERNS_def)
qed

lemma generateResponse_returns:
  assumes r: "draws rnd" and s: "SCALE_DEFINITIONS (GeneratorConfig.scale (config g)) \<noteq> Inherited"
    and ne: "ns \<noteq> []"
    and v: "list_all (\<lambda>n. 0.6 \<le> velocity n \<and> velocity n \<le> 1) ns"
  shows "returnsInRange (generateResponse g ns rt sb lb rnd k)"
proof -
  have echo: "returnsInRange (Some (generateEchoResponse g ns sb rnd k))"
    by (simp add: generateEchoResponse_def Let_def echoLoop_velocity [OF v])
  have answer: "returnsInRange (generateAnswerResponse g ns sb lb rnd k)"
    using ne by (simp add: generateAnswerResponse_def Let_def answerLoop_returns [OF r s])
  have mirror: "list_all velocityInRange (generateMirrorResponse g ns sb)"
  proof (cases ns)
    case Nil
    with ne show ?thesis by simp
  next
    case (Cons first rest)
    have "generateMirrorResponse g ns sb = mirrorLoop g (noteToMidi (pitch first)) ns sb"
      unfolding generateMirrorResponse_def Cons by simp
    then show ?thesis by (simp only: mirrorLoop_velocity [OF v])
  qed
  have rhythmic: "returnsInRange (generateRhythmicResponse g ns sb rnd k)"
  proof -
    from getAlternatePattern_listed [OF r, of k] obtain p where
      p: "RHYTHM_PATTERNS (fst (getAlternatePattern rnd k)) = Some p" by auto
    from rhythm_returns [OF r p] obtain ds k1 where
      d: "generateRhythmDurations (sum_list (map (\<lambda>n. duration n / secondsOf g 1) ns)) p 0.2 rnd
            (snd (getAlternatePattern rnd k)) = Some (ds, k1)"
      by blast
    show ?thesis
      using p d ne
      by (simp add: generateRhythmicResponse_def Let_def rhythmicLoop_returns [OF r s])
  qed
  show ?thesis
  proof (cases rt)
    case None
    with answer show ?thesis by (simp add: generateResponse_def)
  next
    case (Some t)
    with echo answer mirror rhythmic show ?thesis
      by (cases t) (simp_all add: generateResponse_def)
  qed
qed

lemma callResponseStep_returns:
  assumes r: "draws rnd" and sc: "SCALE_DEFINITIONS (GeneratorConfig.scale (config g)) \<noteq> Inherited"
    and c: "0 < callLengthBars g" and s: "0 \<le> silenceBeats g"
  shows "\<exists>ns k' cb' brk. callResponseStep g rnd tb k cb rti = Some (ns, k', cb', brk) \<and>
     list_all velocityInRange ns \<and> (\<not> brk \<longrightarrow> cb + callLengthBars g * 4 \<le> cb')"
proof -
  from generateCall_returns [OF r sc, of "callLengthBars g * 4" cb k] c obtain cn k1 where
    cn: "generateCall g cb (callLengthBars g * 4) rnd k = Some (cn, k1)" "cn \<noteq> []"
        "list_all (\<lambda>n. 0.6 \<le> velocity n \<and> velocity n \<le> 1) cn"
    by auto
  have cv: "list_all velocityInRange cn"
    using cn(3) unfolding list_all_iff velocityInRange_def by auto
  define ac where "ac = cb + callLengthBars g * 4 + silenceBeats g"
  show ?thesis
  proof (cases "ac \<ge> tb - 1")
    case True
    then have "callResponseStep g rnd tb k cb rti = Some (cn, k1, ac, True)"
      using cn(1) by (simp add: callResponseStep_def Let_def ac_def)
    with cv show ?thesis by blast
  next
    case False
    define rt where "rt = (if responseTypes g = [] then None
       else Some (responseTypes g ! (rti mod length (responseTypes g))))"
    define rem where "rem = min (callLengthBars g * 4) (tb - ac)"
    from generateResponse_returns [OF r sc cn(2) cn(3), of rt ac rem k1] obtain rs k2 where
      rs: "generateResponse g cn rt ac rem rnd k1 = Some (rs, k2)" "list_all velocityInRange rs"
      unfolding returnsInRange_iff by blast
    have "0 \<le> rem" using False c by (simp add: rem_def)
    then have "cb + callLengthBars g * 4 \<le> ac + rem + silenceBeats g"
      using s by (simp add: ac_def)
    moreover have "callResponseStep g rnd tb k cb rti
        = Some (cn @ rs, k2, ac + rem + silenceBeats g, False)"
      using cn(1) rs(1) False
      by (simp add: callResponseStep_def Let_def ac_def rt_def rem_def)
    ultimately show ?thesis using cv rs(2) by auto
  qed
qed

lemma callResponseLoop_returns:
  assumes r: "draws rnd" and sc: "SCALE_DEFINITIONS (GeneratorConfig.scale (config g)) \<noteq> Inherited"
    and c: "0 < callLengthBars g" and s: "0 \<le> silenceBeats g"
  shows "\<exists>ns k'. callResponseLoop g rnd tb k cb rti = Some (ns, k') \<and> list_all velocityInRange ns"
proof (induction "nat \<lceil>(tb - cb) / (callLengthBars g * 4)\<rceil>" arbitrary: k cb rti rule: less_induct)
  case less
  define q where "q = callLengthBars g * 4"
  have q: "0 < q" using c by (simp add: q_def)
  show ?case
  proof (cases "cb < tb - q")
    case False
    then show ?thesis by (subst callResponseLoop.simps) (simp add: q_def)
  next
    case True
    from callResponseStep_returns [OF r sc c s, of tb k cb rti] obtain ns k' cb' brk where
      st: "callResponseStep g rnd tb k cb rti = Some (ns, k', cb', brk)"
          "list_all velocityInRange ns" "\<not> brk \<longrightarrow> cb + q \<le> cb'"
      unfolding q_def by blast
    show ?thesis
    proof (cases brk)
      case True
      with st \<open>cb < tb - q\<close> show ?thesis
        by (subst callResponseLoop.simps) (simp add: q_def)
    next
      case False
      with st(3) have adv: "cb + q \<le> cb'" by simp
      have pos: "0 < (tb - cb) / q" using True q by simp
      have "(tb - cb') / q \<le> (tb - cb - q) / q"
        using adv q by (intro divide_right_mono) simp_all
      also have "\<dots> = (tb - cb) / q - 1" using q by (simp add: diff_divide_distrib)
      finally have "(tb - cb') / q \<le> (tb - cb) / q - 1" .
      then have "\<lceil>(tb - cb') / q\<rceil> \<le> \<lceil>(tb - cb) / q\<rceil> - 1"
        by (metis ceiling_diff_one ceiling_mono)
      moreover have "0 < \<lceil>(tb - cb) / q\<rceil>" using pos by simp
      ultimately have "nat \<lceil>(tb - cb') / q\<rceil> < nat \<lceil>(tb - cb) / q\<rceil>" by linarith
      from less [unfolded q_def [symmetric], OF this, of k' "rti + 1"] obtain ms k2 where
        ms: "callResponseLoop g rnd tb k' cb' (rti + 1) = Some (ms, k2)"
            "list_all velocityInRange ms"
        by blast
      have "callResponseLoop g rnd tb k cb rti = Some (ns @ ms, k2)"
        using True st(1) False ms(1)
        by (subst callResponseLoop.simps) (simp add: q_def)
      with st(2) ms(2) show ?thesis by simp
    qed
  qed
qed

lemma CallResponse_total:
  assumes "draws rnd" "SCALE_DEFINITIONS (GeneratorConfig.scale (config g)) \<noteq> Inherited"
    "0 < callLengthBars g" "0 \<le> silenceBeats g"
  shows "\<exists>res k'. CallResponse_generate g rnd k = Some (res, k') \<and>
     GeneratorResult.algorithm res = ''call-response'' \<and>
     list_all velocityInRange (GeneratorResult.notes res)"
proof -
  from callResponseLoop_returns [OF assms, of "GeneratorConfig.lengthBars (config g) * 4" k 0 0]
  obtain ns k' where
    "callResponseLoop g rnd (GeneratorConfig.lengthBars (config g) * 4) k 0 0 = Some (ns, k')"
    "list_all velocityInRange ns" by blast
  then show ?thesis by (simp add: CallResponse_generate_def Let_def)
qed

lemma instantiateLoop_returns:
  assumes "draws rnd" "scaleNotes g \<noteq> []"
    and sc: "SCALE_DEFINITIONS (GeneratorConfig.scale (config g)) \<noteq> Inherited"
  shows "\<exists>ns k'. instantiateLoop g rnd ps si k cb = Some (ns, k') \<and> list_all velocityInRange ns"
proof (induction ps arbitrary: k cb)
  case Nil
  then show ?case by simp
next
  case (Cons p ps)
  have w: "wrapIndex (int (length (scaleNotes g))) i
      = Some (i mod int (length (scaleNotes g)))" for i
    using assms(2) by (simp add: wrapIndex_def)
  from applyVelocity_range [OF assms(1) sc] obtain x where
    x: "applyVelocity g
     ((createNote g (js_at (scaleNotes g)
          (max 0 (min (int (length (scaleNotes g)) - 1)
             ((si + scaleDegreeOffset p) mod int (length (scaleNotes g))))))
        cb (durationBeats p * 0.9) 0.7)\<lparr>velocity := patternVelocity p\<rparr>) cb rnd k = Some (x, k + 1)"
     "velocityInRange x"
    by blast
  from Cons [of "k + 1" "cb + durationBeats p"] obtain ns k' where
    r: "instantiateLoop g rnd ps si (k + 1) (cb + durationBeats p) = Some (ns, k')"
       "list_all velocityInRange ns"
    by blast
  have "instantiateLoop g rnd (p # ps) si k cb = Some (x # ns, k')"
    using r(1) x(1) by (simp add: w Let_def del: Note.simps)
  then show ?case using r(2) x(2) by simp
qed

lemma sequenceLoop_returns:
  assumes "draws rnd" "scaleNotes g \<noteq> []"
    "SCALE_DEFINITIONS (GeneratorConfig.scale (config g)) \<noteq> Inherited"
  shows "\<exists>ns k'. sequenceLoop g rnd ps pd si ap n rep dir k cb = Some (ns, k') \<and>
     list_all velocityInRange ns"
proof (induction n arbitrary: rep dir k cb)
  case 0
  then show ?case by simp
next
  case (Suc n)
  from instantiateLoop_returns [OF assms, of ps "si + calculateTransposition g rep dir ap" k cb]
  obtain ms k1 where
    m: "instantiatePattern g ps (si + calculateTransposition g rep dir ap) cb rnd k = Some (ms, k1)"
       "list_all velocityInRange ms"
    unfolding instantiatePattern_def by blast
  from Suc [of "rep + 1" "if sequenceDirection g = SeqArch \<and> rep = ap then - 1 else dir" k1 "cb + pd"]
  obtain ns k2 where
    r: "sequenceLoop g rnd ps pd si ap n (rep + 1)
          (if sequenceDirection g = SeqArch \<and> rep = ap then - 1 else dir) k1 (cb + pd) = Some (ns, k2)"
       "list_all velocityInRange ns"
    by blast
  have "sequenceLoop g rnd ps pd si ap (Suc n) rep dir k cb = Some (ms @ ns, k2)"
    using m(1) r(1) by (simp add: Let_def)
  with m(2) r(2) show ?case by simp
qed

lemma Sequence_total:
  assumes "draws rnd" "scaleNotes g \<noteq> []"
    "SCALE_DEFINITIONS (GeneratorConfig.scale (config g)) \<noteq> Inherited"
  shows "\<exists>res k'. Sequence_generate g rnd k = Some (res, k') \<and>
     GeneratorResult.algorithm res = ''sequence'' \<and>
     list_all velocityInRange (GeneratorResult.notes res)"
proof -
  define reps where "reps = min (repetitions g)
     \<lfloor>GeneratorConfig.lengthBars (config g) * 4 / sum_list (map durationBeats (generatePattern g))\<rfloor>"
  from sequenceLoop_returns [OF assms, of "generatePattern g"
      "sum_list (map durationBeats (generatePattern g))" "int (length (scaleNotes g)) div 3"
      "reps div 2" "nat reps" 0 "if sequenceDirection g = SeqDescending then - 1 else 1" k 0]
  obtain ns k' where
    "sequenceLoop g rnd (generatePattern g) (sum_list (map durationBeats (generatePattern g)))
       (int (length (scaleNotes g)) div 3) (reps div 2) (nat reps) 0
       (if sequenceDirection g = SeqDescending then - 1 else 1) k 0 = Some (ns, k')"
    "list_all velocityInRange ns" by blast
  then show ?thesis by (simp add: Sequence_generate_def Let_def reps_def)
qed

lemma applyBluesVelocity_range:
  "velocityInRange (fst (applyBluesVelocity n b blue rnd k))"
proof -
  have "0.3 \<le> min 1 (max 0.4 v) \<and> min 1 (max 0.4 v) \<le> 1" for v :: real
    by (simp add: min_def max_def)
  then show ?thesis
    unfolding applyBluesVelocity_def Let_def velocityInRange_def by simp
qed

lemma createBend_velocity:
  "list_all velocityInRange (createBend g p sb td)"
  by (simp add: createBend_def Let_def velocityInRange_def)

lemma bluesStep_velocity:
  "list_all velocityInRange (fst (bluesStep g rnd sb pt d i n k cb pidx))"
  unfolding bluesStep_def Let_def
  by (simp add: applyBluesVelocity_range createBend_velocity)

lemma bluesPhraseLoop_velocity:
  "list_all velocityInRange (fst (bluesPhraseLoop g rnd sb pt n ds i k cb pidx))"
proof (induction ds arbitrary: i k cb pidx)
  case Nil
  then show ?case by simp
next
  case (Cons d ds)
  obtain ns k' ni where s: "bluesStep g rnd sb pt d i n k cb pidx = (ns, k', ni)"
    by (cases "bluesStep g rnd sb pt d i n k cb pidx") auto
  have "list_all velocityInRange ns"
    using bluesStep_velocity [of g rnd sb pt d i n k cb pidx] s by simp
  with Cons s show ?case by (simp add: Let_def)
qed

lemma generateBluesPhrase_returns:
  assumes "draws rnd"
  shows "\<exists>ns k'. generateBluesPhrase g sb lb pt rnd k = Some (ns, k') \<and> list_all velocityInRange ns"
proof -
  define n where "n = (if shuffleFeel g then ''swing-eighths'' else ''straight-eighths'')"
  have "RHYTHM_PATTERNS n \<noteq> None" by (simp add: n_def RHYTHM_PATTERNS_def)
  then obtain p where p: "RHYTHM_PATTERNS n = Some p" by auto
  from rhythm_returns [OF assms p] obtain ds k1 where
    d: "generateRhythmDurations lb p 0.15 rnd k = Some (ds, k1)" by blast
  show ?thesis
    using p d unfolding n_def
    by (simp add: generateBluesPhrase_def Let_def bluesPhraseLoop_velocity prod_eq_iff)
qed

lemma turnaroundLoop_velocity:
  "list_all velocityInRange (turnaroundLoop g nd n ms i cb)"
proof (induction ms arbitrary: i cb)
  case Nil
  then show ?case by simp
next
  case (Cons m ms)
  have "velocityInRange (x\<lparr>velocity := (if int i < int n - 1 then 0.7 else 0.9)\<rparr>)" for x
    by (simp add: velocityInRange_def)
  with Cons show ?case by (simp add: Let_def del: Note.simps)
qed

lemma bluesLoop_returns:
  assumes "draws rnd"
  shows "\<exists>ns k'. bluesLoop g rnd tb k cb pt = Some (ns, k') \<and> list_all velocityInRange ns"
proof (induction "nat \<lceil>tb - cb\<rceil>" arbitrary: k cb pt rule: less_induct)
  case less
  show ?case
  proof (cases "cb < tb")
    case False
    then show ?thesis by (subst bluesLoop.simps) simp
  next
    case True
    show ?thesis
    proof (cases "turnaround g \<and> tb - cb \<le> 4")
      case True
      with \<open>cb < tb\<close> show ?thesis
        by (subst bluesLoop.simps)
           (simp add: Let_def generateTurnaround_def turnaroundLoop_velocity del: turnaroundLoop.simps)
    next
      case False
      define pl where "pl = min 4 (tb - cb)"
      from generateBluesPhrase_returns [OF assms, of g cb pl pt k] obtain ph k1 where
        ph: "generateBluesPhrase g cb pl pt rnd k = Some (ph, k1)" "list_all velocityInRange ph"
        by blast
      have "0 < \<lceil>tb - cb\<rceil>" using True by simp
      moreover have "\<lceil>tb - (cb + pl)\<rceil> < \<lceil>tb - cb\<rceil>"
      proof (cases "tb - cb \<le> 4")
        case True
        then have "tb - (cb + pl) = 0" by (simp add: pl_def)
        with \<open>0 < \<lceil>tb - cb\<rceil>\<close> show ?thesis by simp
      next
        case False
        then have "tb - (cb + pl) = (tb - cb) - 4" by (simp add: pl_def)
        then have "\<lceil>tb - (cb + pl)\<rceil> = \<lceil>tb - cb\<rceil> - 4"
          by (simp only: ceiling_diff_numeral)
        then show ?thesis by simp
      qed
      ultimately have "nat \<lceil>tb - (cb + pl)\<rceil> < nat \<lceil>tb - cb\<rceil>" by linarith
      from less [OF this, of k1 "if pt = Question then Answering else Question"] obtain ms k2 where
        ms: "bluesLoop g rnd tb k1 (cb + pl) (if pt = Question then Answering else Question)
               = Some (ms, k2)" "list_all velocityInRange ms"
        by blast
      have "bluesLoop g rnd tb k cb pt = Some (ph @ ms, k2)"
        using True False ph(1) ms(1)
        by (subst bluesLoop.simps) (auto simp: Let_def pl_def)
      with ph(2) ms(2) show ?thesis by simp
    qed
  qed
qed

lemma Blues_total:
  assumes "draws rnd"
  shows "\<exists>res k'. Blues_generate g rnd k = Some (res, k') \<and>
     GeneratorResult.algorithm res = ''blues'' \<and>
     list_all velocityInRange (GeneratorResult.notes res)"
proof -
  from bluesLoop_returns [OF assms, of g "GeneratorConfig.lengthBars (config g) * 4" k 0 Question]
  obtain ns k' where
    "bluesLoop g rnd (GeneratorConfig.lengthBars (config g) * 4) k 0 Question = Some (ns, k')"
    "list_all velocityInRange ns" by blast
  then show ?thesis by (simp add: Blues_generate_def Let_def)
qed

lemma js_filter_returns:
  assumes "\<And>x. \<exists>b. P x = Some b"
  shows "\<exists>ys. js_filter P xs = Some ys"
proof (induction xs)
  case Nil
  then show ?case by simp
next
  case (Cons x xs)
  from assms [of x] obtain b where "P x = Some b" by blast
  with Cons show ?case by auto
qed

lemma validConfig_scale:
  assumes "validConfig cfg"
  shows "SCALE_DEFINITIONS (GeneratorConfig.scale cfg) \<noteq> Inherited \<and>
     (\<exists>sn. BaseGenerator_new cfg = Some \<lparr>config = cfg, scaleNotes = sn\<rparr> \<and> sn \<noteq> [])"
  using assms
  by (auto simp: validConfig_def BaseGenerator_new_def returned_def split: property.splits sum.splits)

lemma chordTones_found:
  assumes "SCALE_DEFINITIONS (GeneratorConfig.scale cfg) \<noteq> Inherited"
  shows "\<exists>found. js_filter (\<lambda>note. returned (isChordTone note (GeneratorConfig.key cfg)
     (GeneratorConfig.scale cfg))) sn = Some found"
  by (rule js_filter_returns) (rule isChordTone_returns [OF assms])

lemma ScaleRunGenerator_new_valid:
  assumes "validConfig cfg"
  shows "\<exists>g. ScaleRunGenerator_new cfg = Some g \<and> config g = cfg"
  using validConfig_scale [OF assms]
  by (auto simp: ScaleRunGenerator_new_def BaseGenerator.defs ScaleRunGenerator.defs)

lemma ArpeggioGenerator_new_valid:
  assumes "validConfig cfg"
  shows "\<exists>g. ArpeggioGenerator_new cfg = Some g \<and> config g = cfg"
proof -
  from validConfig_scale [OF assms] obtain sn where
    b: "BaseGenerator_new cfg = Some \<lparr>config = cfg, scaleNotes = sn\<rparr>"
    and s: "SCALE_DEFINITIONS (GeneratorConfig.scale cfg) \<noteq> Inherited" by blast
  from chordTones_found [OF s, of sn] obtain found where
    "js_filter (\<lambda>note. returned (isChordTone note (GeneratorConfig.key cfg)
       (GeneratorConfig.scale cfg))) sn = Some found" by blast
  with b show ?thesis
    by (simp add: ArpeggioGenerator_new_def BaseGenerator.defs ArpeggioGenerator.defs)
qed

lemma MotifGenerator_new_valid:
  assumes "validConfig cfg"
  shows "\<exists>g. MotifGenerator_new cfg = Some g \<and> config g = cfg \<and> motifLength g = 4"
  using validConfig_scale [OF assms]
  by (auto simp: MotifGenerator_new_def BaseGenerator.defs MotifGenerator.defs)

lemma BebopGenerator_new_valid:
  assumes "validConfig cfg"
  shows "\<exists>g. BebopGenerator_new cfg = Some g \<and> config g = cfg"
proof -
  from validConfig_scale [OF assms] obtain sn where
    b: "BaseGenerator_new cfg = Some \<lparr>config = cfg, scaleNotes = sn\<rparr>"
    and s: "SCALE_DEFINITIONS (GeneratorConfig.scale cfg) \<noteq> Inherited" by blast
  from b have sn: "returned (getScaleNotes_in SCALE_DEFINITIONS (GeneratorConfig.key cfg)
      (GeneratorConfig.scale cfg) (octaveRange cfg)) = Some sn"
    by (auto simp: BaseGenerator_new_def getScaleNotes_def split: option.splits)
  from chordTones_found [OF s, of sn] obtain found where
    "js_filter (\<lambda>note. returned (isChordTone_in SCALE_DEFINITIONS note (GeneratorConfig.key cfg)
       (GeneratorConfig.scale cfg))) sn = Some found"
    unfolding isChordTone_def by blast
  with sn show ?thesis
    by (simp add: BebopGenerator_new_def BebopGenerator_new_in_def Let_def BaseGenerator.defs
          BebopGenerator.defs)
qed

lemma CallResponseGenerator_new_valid:
  assumes "validConfig cfg"
  shows "\<exists>g. CallResponseGenerator_new cfg = Some g \<and> config g = cfg \<and>
     callLengthBars g = 1 \<and> silenceBeats g = 0.5"
proof -
  from validConfig_scale [OF assms] obtain sn where
    b: "BaseGenerator_new cfg = Some \<lparr>config = cfg, scaleNotes = sn\<rparr>"
    and s: "SCALE_DEFINITIONS (GeneratorConfig.scale cfg) \<noteq> Inherited" by blast
  from chordTones_found [OF s, of sn] obtain found where
    "js_filter (\<lambda>note. returned (isChordTone note (GeneratorConfig.key cfg)
       (GeneratorConfig.scale cfg))) sn = Some found" by blast
  with b show ?thesis
    by (simp add: CallResponseGenerator_new_def BaseGenerator.defs CallResponseGenerator.defs)
qed

lemma SequenceGenerator_new_valid:
  assumes "validConfig cfg"
  shows "\<exists>g k'. SequenceGenerator_new cfg rnd k = Some (g, k') \<and> config g = cfg \<and>
     scaleNotes g \<noteq> []"
  using validConfig_scale [OF assms]
  by (auto simp: SequenceGenerator_new_def Let_def BaseGenerator.defs SequenceGenerator.defs)

lemma BluesGenerator_new_valid:
  assumes "validConfig cfg"
  shows "\<exists>g k'. BluesGenerator_new cfg rnd k = Some (g, k') \<and> config g = cfg"
  using validConfig_scale [OF assms]
  by (auto simp: BluesGenerator_new_def Let_def BaseGenerator.defs BluesGenerator.defs)
lemma generateLick_valid:
  assumes v: "validConfig cfg" and r: "draws rnd"
  shows "\<exists>gen k0 res k'.
     createGenerator alg cfg rnd k = Some (gen, k0) \<and> generate gen rnd k0 = Some (res, k') \<and>
     GeneratorResult.algorithm res =
       (if alg \<in> {''scale-run'', ''arpeggio'', ''motif'', ''bebop'', ''call-response'',
                   ''sequence'', ''blues''} then alg else ''scale-run'') \<and>
     list_all velocityInRange (GeneratorResult.notes res)"
proof -
  have t: "0 < GeneratorConfig.tempo cfg" using v by (simp add: validConfig_def)
  have s: "SCALE_DEFINITIONS (GeneratorConfig.scale cfg) \<noteq> Inherited"
    using validConfig_scale [OF v] by simp
  have c1: ?thesis if a: "alg = ''scale-run''"
  proof -
    from ScaleRunGenerator_new_valid [OF v] obtain g where
      g: "ScaleRunGenerator_new cfg = Some g" "config g = cfg"
      by blast
    have c: "createGenerator alg cfg rnd k = Some (GScaleRun g, k)"
      by (simp add: createGenerator_def a g(1))
    have m: "alg \<in> {''scale-run'', ''arpeggio'', ''motif'', ''bebop'', ''call-response'',
                   ''sequence'', ''blues''}" by (simp add: a)
    from ScaleRun_total [OF r, of g k] g t s obtain res k' where
      "ScaleRun_generate g rnd k = Some (res, k')"
      "GeneratorResult.algorithm res = ''scale-run''" "list_all velocityInRange (GeneratorResult.notes res)"
      by auto
    then show ?thesis
      unfolding c if_P [OF m] by (simp add: generate_def a)
  qed
  have c2: ?thesis if a: "alg = ''arpeggio''"
  proof -
    from ArpeggioGenerator_new_valid [OF v] obtain g where
      g: "ArpeggioGenerator_new cfg = Some g" "config g = cfg"
      by blast
    have c: "createGenerator alg cfg rnd k = Some (GArpeggio g, k)"
      by (simp add: createGenerator_def a g(1))
    have m: "alg \<in> {''scale-run'', ''arpeggio'', ''motif'', ''bebop'', ''call-response'',
                   ''sequence'', ''blues''}" by (simp add: a)
    from Arpeggio_total [OF r, of g k] g t s obtain res k' where
      "Arpeggio_generate g rnd k = Some (res, k')"
      "GeneratorResult.algorithm res = ''arpeggio''" "list_all velocityInRange (GeneratorResult.notes res)"
      by auto
    then show ?thesis
      unfolding c if_P [OF m] by (simp add: generate_def a)
  qed
  have c3: ?thesis if a: "alg = ''motif''"
  proof -
    from MotifGenerator_new_valid [OF v] obtain g where
      g: "MotifGenerator_new cfg = Some g" "config g = cfg" "motifLength g = 4"
      by blast
    have c: "createGenerator alg cfg rnd k = Some (GMotif g, k)"
      by (simp add: createGenerator_def a g(1))
    have m: "alg \<in> {''scale-run'', ''arpeggio'', ''motif'', ''bebop'', ''call-response'',
                   ''sequence'', ''blues''}" by (simp add: a)
    from Motif_total [OF r, of g k] g t s obtain res k' where
      "Motif_generate g rnd k = Some (res, k')"
      "GeneratorResult.algorithm res = ''motif''" "list_all velocityInRange (GeneratorResult.notes res)"
      by auto
    then show ?thesis
      unfolding c if_P [OF m] by (simp add: generate_def a)
  qed
  have c4: ?thesis if a: "alg = ''bebop''"
  proof -
    from BebopGenerator_new_valid [OF v] obtain g where
      g: "BebopGenerator_new cfg = Some g" "config g = cfg"
      by blast
    have c: "createGenerator alg cfg rnd k = Some (GBebop g, k)"
      by (simp add: createGenerator_def a g(1))
    have m: "alg \<in> {''scale-run'', ''arpeggio'', ''motif'', ''bebop'', ''call-response'',
                   ''sequence'', ''blues''}" by (simp add: a)
    from Bebop_total [OF r, of g k] g t s obtain res k' where
      "Bebop_generate g rnd k = Some (res, k')"
      "GeneratorResult.algorithm res = ''bebop''" "list_all velocityInRange (GeneratorResult.notes res)"
      by auto
    then show ?thesis
      unfolding c if_P [OF m] by (simp add: generate_def a)
  qed
  have c5: ?thesis if a: "alg = ''call-response''"
  proof -
    from CallResponseGenerator_new_valid [OF v] obtain g where
      g: "CallResponseGenerator_new cfg = Some g" "config g = cfg" "callLengthBars g = 1" "silenceBeats g = 0.5"
      by blast
    have c: "createGenerator alg cfg rnd k = Some (GCallResponse g, k)"
      by (simp add: createGenerator_def a g(1))
    have m: "alg \<in> {''scale-run'', ''arpeggio'', ''motif'', ''bebop'', ''call-response'',
                   ''sequence'', ''blues''}" by (simp add: a)
    from CallResponse_total [OF r, of g k] g t s obtain res k' where
      "CallResponse_generate g rnd k = Some (res, k')"
      "GeneratorResult.algorithm res = ''call-response''" "list_all velocityInRange (GeneratorResult.notes res)"
      by auto
    then show ?thesis
      unfolding c if_P [OF m] by (simp add: generate_def a)
  qed
  have c6: ?thesis if a: "alg = ''sequence''"
  proof -
    from SequenceGenerator_new_valid [OF v, of rnd k] obtain g k0 where
      g: "SequenceGenerator_new cfg rnd k = Some (g, k0)" "config g = cfg" "scaleNotes g \<noteq> []"
      by blast
    have c: "createGenerator alg cfg rnd k = Some (GSequence g, k0)"
      by (simp add: createGenerator_def a g(1))
    have m: "alg \<in> {''scale-run'', ''arpeggio'', ''motif'', ''bebop'', ''call-response'',
                   ''sequence'', ''blues''}" by (simp add: a)
    from Sequence_total [OF r, of g k0] g t s obtain res k' where
      "Sequence_generate g rnd k0 = Some (res, k')"
      "GeneratorResult.algorithm res = ''sequence''" "list_all velocityInRange (GeneratorResult.notes res)"
      by auto
    then show ?thesis
      unfolding c if_P [OF m] by (simp add: generate_def a)
  qed
  have c7: ?thesis if a: "alg = ''blues''"
  proof -
    from BluesGenerator_new_valid [OF v, of rnd k] obtain g k0 where
      g: "BluesGenerator_new cfg rnd k = Some (g, k0)" "config g = cfg"
      by blast
    have c: "createGenerator alg cfg rnd k = Some (GBlues g, k0)"
      by (simp add: createGenerator_def a g(1))
    have m: "alg \<in> {''scale-run'', ''arpeggio'', ''motif'', ''bebop'', ''call-response'',
                   ''sequence'', ''blues''}" by (simp add: a)
    from Blues_total [OF r, of g k0] g t s obtain res k' where
      "Blues_generate g rnd k0 = Some (res, k')"
      "GeneratorResult.algorithm res = ''blues''" "list_all velocityInRange (GeneratorResult.notes res)"
      by auto
    then show ?thesis
      unfolding c if_P [OF m] by (simp add: generate_def a)
  qed
  have c8: ?thesis if a: "alg \<notin> {''scale-run'', ''arpeggio'', ''motif'', ''bebop'', ''call-response'',
                   ''sequence'', ''blues''}"
  proof -
    from ScaleRunGenerator_new_valid [OF v] obtain g where
      g: "ScaleRunGenerator_new cfg = Some g" "config g = cfg"
      by blast
    have c: "createGenerator alg cfg rnd k = Some (GScaleRun g, k)"
      using a by (simp add: createGenerator_def g(1))
    from ScaleRun_total [OF r, of g k] g s obtain res k' where
      "ScaleRun_generate g rnd k = Some (res, k')"
      "GeneratorResult.algorithm res = ''scale-run''" "list_all velocityInRange (GeneratorResult.notes res)"
      by auto
    then show ?thesis
      unfolding c if_not_P [OF a] by (simp add: generate_def)
  qed
  show ?thesis
  proof (cases "alg \<in> {''scale-run'', ''arpeggio'', ''motif'', ''bebop'', ''call-response'',
                   ''sequence'', ''blues''}")
    case False
    then show ?thesis by (rule c8)
  next
    case True
    then have "alg = ''scale-run'' \<or> alg = ''arpeggio'' \<or> alg = ''motif'' \<or> alg = ''bebop'' \<or>
       alg = ''call-response'' \<or> alg = ''sequence'' \<or> alg = ''blues''"
      by (simp only: insert_iff empty_iff simp_thms)
    then show ?thesis using c1 c2 c3 c4 c5 c6 c7 by (elim disjE)
  qed
qed

section \<open>Velocity bounds\<close>

lemma C_major_swing_valid:
  "validConfig \<lparr>GeneratorConfig.key = ''C'', GeneratorConfig.scale = ''major'',
     GeneratorConfig.tempo = 120, GeneratorConfig.lengthBars = 1,
     octaveRange = (4, 4), rhythmFeel = Swing\<rparr>"
proof -
  have "getScaleNotes ''C'' ''major'' (4, 4) =
     Inr [Some ''C4'', Some ''D4'', Some ''E4'', Some ''F4'', Some ''G4'', Some ''A4'', Some ''B4'']"
    by code_simp
  then show ?thesis by (simp add: validConfig_def SCALE_DEFINITIONS_def SCALE_ENTRIES_def)
qed

lemma draws_half: "draws (\<lambda>_. 1 / 2)"
  by (simp add: draws_def)

text \<open>
  Claim C2. For a valid configuration, any algorithm tag and any outcomes of the draws,
  \<open>generateLick\<close> returns, and every note of the result has a velocity within
  \<open>[0.3, 1]\<close>. In a generator of such a configuration \<open>applyVelocity\<close> returns the note
  with its velocity set to the sum of the base (0.8 for a chord tone, 0.65 otherwise),
  the boost (0.1 when the beat position is a whole number) and the jitter
  \<open>rnd * 0.1 - 0.05\<close>, which lies within \<open>[-0.05, 0.05]\<close>, clamped to \<open>[0.3, 1]\<close>.
\<close>

theorem velocity_bounds:
  assumes "validConfig cfg" and "draws rnd"
  shows "(\<exists>s k'. generateLick alg cfg rnd k = Some (s, k') \<and>
            (\<forall>n \<in> set (Sequence.notes s). 0.3 \<le> velocity n \<and> velocity n \<le> 1)) \<and>
         (config g = cfg \<longrightarrow>
            (\<exists>c. isChordTone (pitch note) (GeneratorConfig.key cfg) (GeneratorConfig.scale cfg) = Inr c \<and>
               applyVelocity g note b rnd j =
                 Some (note\<lparr>velocity := min 1 (max 0.3
                         ((if c then 0.8 else 0.65) + (if b \<in> \<int> then 0.1 else 0)
                          + (rnd j * 0.1 - 0.05)))\<rparr>, j + 1))) \<and>
         - 0.05 \<le> rnd j * 0.1 - 0.05 \<and> rnd j * 0.1 - 0.05 \<le> 0.05"
proof -
  from generateLick_valid [OF assms, of alg k] obtain gen k0 res k' where
    g: "createGenerator alg cfg rnd k = Some (gen, k0)" "generate gen rnd k0 = Some (res, k')"
       "list_all velocityInRange (GeneratorResult.notes res)"
    by blast
  have "\<forall>n \<in> set (GeneratorResult.notes res). 0.3 \<le> velocity n \<and> velocity n \<le> 1"
    using g(3) unfolding list_all_iff velocityInRange_def .
  then have a: "\<exists>s k'. generateLick alg cfg rnd k = Some (s, k') \<and>
            (\<forall>n \<in> set (Sequence.notes s). 0.3 \<le> velocity n \<and> velocity n \<le> 1)"
    using g(1,2) by (simp add: generateLick_def)
  have d: "isDownbeat b \<longleftrightarrow> b \<in> \<int>"
    unfolding isDownbeat_def by (metis Ints_of_int floor_of_int Ints_cases)
  have r: "0 \<le> rnd j" "rnd j < 1" using assms(2) by (simp_all add: draws_def)
  have s: "SCALE_DEFINITIONS (GeneratorConfig.scale cfg) \<noteq> Inherited"
    using validConfig_scale [OF assms(1)] by simp
  from isChordTone_returns [OF s, of "pitch note" "GeneratorConfig.key cfg"] obtain c where
    c: "isChordTone (pitch note) (GeneratorConfig.key cfg) (GeneratorConfig.scale cfg) = Inr c"
    by (auto simp: returned_def split: sum.splits)
  have b: "config g = cfg \<longrightarrow>
            (\<exists>c. isChordTone (pitch note) (GeneratorConfig.key cfg) (GeneratorConfig.scale cfg) = Inr c \<and>
               applyVelocity g note b rnd j =
                 Some (note\<lparr>velocity := min 1 (max 0.3
                         ((if c then 0.8 else 0.65) + (if b \<in> \<int> then 0.1 else 0)
                          + (rnd j * 0.1 - 0.05)))\<rparr>, j + 1))"
    using c by (auto simp: applyVelocity_def returned_def Let_def d)
  from a b r show ?thesis by simp
qed

theorem velocity_bounds_witness:
  "validConfig \<lparr>GeneratorConfig.key = ''C'', GeneratorConfig.scale = ''major'',
     GeneratorConfig.tempo = 120, GeneratorConfig.lengthBars = 1,
     octaveRange = (4, 4), rhythmFeel = Swing\<rparr> \<and>
   draws (\<lambda>_. 1 / 2) \<and>
   (\<exists>s k'. generateLick ''bebop'' \<lparr>GeneratorConfig.key = ''C'', GeneratorConfig.scale = ''major'',
       GeneratorConfig.tempo = 120, GeneratorConfig.lengthBars = 1,
       octaveRange = (4, 4), rhythmFeel = Swing\<rparr> (\<lambda>_. 1 / 2) 0 = Some (s, k') \<and>
       list_all (\<lambda>n. 0.3 \<le> velocity n \<and> velocity n \<le> 1) (Sequence.notes s))"
  using velocity_bounds [OF C_major_swing_valid draws_half, of "''bebop''" 0, THEN conjunct1]
    C_major_swing_valid draws_half
  by (simp add: list_all_iff)

section \<open>Assembly\<close>




end
